(* ===== verification/LG_Prelude.thy ===== *)
theory LG_Prelude
  imports Main "HOL-Library.Word" "HOL-Library.Char_ord" "HOL-Library.List_Lexorder"
    "HOL-Library.Product_Lexorder" "HOL-Library.Sublist"
begin

text \<open>
  The prelude of the development: the status and result types of
  \<^verbatim>\<open>src/foundation/status\<close>, the decimal rendering \<^verbatim>\<open>std::to_string\<close> of unsigned
  integers, and the ordered containers \<^verbatim>\<open>std::map\<close> and \<^verbatim>\<open>std::set\<close> as sorted
  association lists and sorted lists.  \<^verbatim>\<open>std::stable_sort\<close> with a comparison by a key
  is the library's \<open>sort_key\<close>, which is the stable sort.  A string is a list of
  bytes; its order is the bytewise lexicographic order of \<^verbatim>\<open>std::string\<close>.
\<close>

named_theorems result_simps \<open>unfolding of result-valued code\<close>
named_theorems omap_simps \<open>lookup in ordered maps\<close>

section \<open>Status and Result\<close>

datatype status_code =
    Ok | Cancelled | Unknown | InvalidArgument | DeadlineExceeded | NotFound | AlreadyExists
  | PermissionDenied | ResourceExhausted | FailedPrecondition | Aborted | OutOfRange
  | Unimplemented | Internal | Unavailable | DataLoss | Unauthenticated

fun statusCodeName :: "status_code \<Rightarrow> string" where
  "statusCodeName Ok = ''ok''"
| "statusCodeName Cancelled = ''cancelled''"
| "statusCodeName Unknown = ''unknown''"
| "statusCodeName InvalidArgument = ''invalid_argument''"
| "statusCodeName DeadlineExceeded = ''deadline_exceeded''"
| "statusCodeName NotFound = ''not_found''"
| "statusCodeName AlreadyExists = ''already_exists''"
| "statusCodeName PermissionDenied = ''permission_denied''"
| "statusCodeName ResourceExhausted = ''resource_exhausted''"
| "statusCodeName FailedPrecondition = ''failed_precondition''"
| "statusCodeName Aborted = ''aborted''"
| "statusCodeName OutOfRange = ''out_of_range''"
| "statusCodeName Unimplemented = ''unimplemented''"
| "statusCodeName Internal = ''internal''"
| "statusCodeName Unavailable = ''unavailable''"
| "statusCodeName DataLoss = ''data_loss''"
| "statusCodeName Unauthenticated = ''unauthenticated''"

record status =
  st_code :: status_code
  st_message :: string

text \<open>The constructor drops the message of an \<open>Ok\<close> status.\<close>

definition mkStatus :: "status_code \<Rightarrow> string \<Rightarrow> status" where
  "mkStatus c m = \<lparr>st_code = c, st_message = (if c = Ok then [] else m)\<rparr>"

definition okStatus :: status where
  "okStatus = mkStatus Ok []"

definition isOk :: "status \<Rightarrow> bool" where
  "isOk s \<longleftrightarrow> st_code s = Ok"

definition statusToString :: "status \<Rightarrow> string" where
  "statusToString s =
     (if st_message s = [] then statusCodeName (st_code s)
      else statusCodeName (st_code s) @ '': '' @ st_message s)"

text \<open>
  \<^verbatim>\<open>Result<T>\<close> is a sum with the error on the left.  A \<^verbatim>\<open>Result\<close> built from an
  \<open>Ok\<close> status is an internal error.
\<close>

type_synonym 'a result = "status + 'a"

definition normalizeResultError :: "status \<Rightarrow> status" where
  "normalizeResultError s =
     (if isOk s then mkStatus Internal ''Result error status cannot be ok'' else s)"

definition errorResult :: "status \<Rightarrow> 'a result" where
  "errorResult s = Inl (normalizeResultError s)"

abbreviation err :: "status_code \<Rightarrow> string \<Rightarrow> 'a result" where
  "err c m \<equiv> Inl (mkStatus c m)"

fun rbind :: "'a result \<Rightarrow> ('a \<Rightarrow> 'b result) \<Rightarrow> 'b result" where
  "rbind (Inl e) f = Inl e"
| "rbind (Inr x) f = f x"

abbreviation ok_result :: "'a result \<Rightarrow> bool" where
  "ok_result r \<equiv> (case r of Inl _ \<Rightarrow> False | Inr _ \<Rightarrow> True)"

fun mapM_result :: "('a \<Rightarrow> 'b result) \<Rightarrow> 'a list \<Rightarrow> 'b list result" where
  "mapM_result f [] = Inr []"
| "mapM_result f (x # xs) = rbind (f x) (\<lambda>y. rbind (mapM_result f xs) (\<lambda>ys. Inr (y # ys)))"

fun foldM_result :: "('s \<Rightarrow> 'a \<Rightarrow> 's result) \<Rightarrow> 's \<Rightarrow> 'a list \<Rightarrow> 's result" where
  "foldM_result f s [] = Inr s"
| "foldM_result f s (x # xs) = rbind (f s x) (\<lambda>s'. foldM_result f s' xs)"

lemma isOk_okStatus [simp]: "isOk okStatus"
  by (simp add: isOk_def okStatus_def mkStatus_def)

lemma isOk_mkStatus [simp]: "isOk (mkStatus c m) \<longleftrightarrow> c = Ok"
  by (simp add: isOk_def mkStatus_def)

lemma st_code_mkStatus [simp]: "st_code (mkStatus c m) = c"
  by (simp add: mkStatus_def)

lemma errorResult_neq_Inr [simp]: "errorResult s \<noteq> Inr x" "Inr x \<noteq> errorResult s"
  by (simp_all add: errorResult_def)

lemma errorResult_not_ok [simp]: "\<not> isOk s \<Longrightarrow> errorResult s = Inl s"
  by (simp add: errorResult_def normalizeResultError_def)

lemma statusCodeName_inject: "statusCodeName c = statusCodeName d \<longleftrightarrow> c = d"
  by (cases c; cases d) simp_all

lemma rbind_eq_Inr [result_simps]:
  "rbind r f = Inr y \<longleftrightarrow> (\<exists>x. r = Inr x \<and> f x = Inr y)"
  by (cases r) auto

lemma rbind_eq_Inl [result_simps]:
  "rbind r f = Inl e \<longleftrightarrow> r = Inl e \<or> (\<exists>x. r = Inr x \<and> f x = Inl e)"
  by (cases r) auto

lemma if_err_eq_Inr [result_simps]: "(if b then Inl e else r) = Inr y \<longleftrightarrow> \<not> b \<and> r = Inr y"
  by simp

lemma mapM_result_Inr:
  "mapM_result f xs = Inr ys \<longleftrightarrow> list_all2 (\<lambda>x y. f x = Inr y) xs ys"
  by (induction xs arbitrary: ys) (auto simp: result_simps list_all2_Cons1)

lemma mapM_result_length: "mapM_result f xs = Inr ys \<Longrightarrow> length ys = length xs"
  by (simp add: mapM_result_Inr list_all2_lengthD)

lemma mapM_result_map:
  "(\<And>x. x \<in> set xs \<Longrightarrow> f (g x) = Inr (h x)) \<Longrightarrow> mapM_result f (map g xs) = Inr (map h xs)"
  by (induction xs) auto

lemma mapM_result_id: "\<forall>x \<in> set xs. f x = Inr x \<Longrightarrow> mapM_result f xs = Inr xs"
  by (induction xs) auto

lemma foldM_result_append:
  "foldM_result f s (xs @ ys) = rbind (foldM_result f s xs) (\<lambda>s'. foldM_result f s' ys)"
proof (induction xs arbitrary: s)
  case (Cons x xs)
  then show ?case by (cases "f s x") auto
qed simp

lemma foldM_result_invariant:
  assumes "foldM_result f s xs = Inr s'" and "P s"
    and "\<And>s x s'. x \<in> set xs \<Longrightarrow> P s \<Longrightarrow> f s x = Inr s' \<Longrightarrow> P s'"
  shows "P s'"
  using assms
proof (induction xs arbitrary: s)
  case (Cons x xs)
  then obtain t where "f s x = Inr t" "foldM_result f t xs = Inr s'"
    by (auto simp: result_simps)
  with Cons show ?case by (metis list.set_intros)
qed simp

text \<open>
  Operations on an object with state \<open>'s\<close>: they return a result and the state after, also
  when they fail.  The combinators leave the type of the early exit open: it is a status for a
  method that returns a \<^verbatim>\<open>Result\<close> and the returned value for a body with early returns.
\<close>

type_synonym ('s, 'a) sres = "'s \<Rightarrow> 'a result \<times> 's"

definition sret :: "'a \<Rightarrow> 's \<Rightarrow> ('e + 'a) \<times> 's" where
  "sret x s = (Inr x, s)"

definition sbind :: "('s \<Rightarrow> ('e + 'a) \<times> 's) \<Rightarrow> ('a \<Rightarrow> 's \<Rightarrow> ('e + 'b) \<times> 's) \<Rightarrow> 's \<Rightarrow> ('e + 'b) \<times> 's" where
  "sbind m f s = (case m s of (Inl e, s') \<Rightarrow> (Inl e, s') | (Inr x, s') \<Rightarrow> f x s')"

fun sfold :: "('a \<Rightarrow> 'b \<Rightarrow> 's \<Rightarrow> ('e + 'b) \<times> 's) \<Rightarrow> 'a list \<Rightarrow> 'b \<Rightarrow> 's \<Rightarrow> ('e + 'b) \<times> 's" where
  "sfold f [] acc = sret acc"
| "sfold f (x # xs) acc = sbind (f x acc) (sfold f xs)"

text \<open>A handled failure, an ignored result, a read, an update and a pure result.\<close>

definition scatch :: "('s \<Rightarrow> ('e + 'a) \<times> 's) \<Rightarrow> ('e \<Rightarrow> 's \<Rightarrow> ('f + 'a) \<times> 's) \<Rightarrow> 's \<Rightarrow> ('f + 'a) \<times> 's" where
  "scatch m h s = (case m s of (Inl e, s') \<Rightarrow> h e s' | (Inr x, s') \<Rightarrow> (Inr x, s'))"

definition signore :: "('s \<Rightarrow> ('e + 'a) \<times> 's) \<Rightarrow> 's \<Rightarrow> ('f + unit) \<times> 's" where
  "signore m s = (Inr (), snd (m s))"

definition sgets :: "('s \<Rightarrow> 'a) \<Rightarrow> 's \<Rightarrow> ('e + 'a) \<times> 's" where
  "sgets f s = (Inr (f s), s)"

definition smodify :: "('s \<Rightarrow> 's) \<Rightarrow> 's \<Rightarrow> ('e + unit) \<times> 's" where
  "smodify f s = (Inr (), f s)"

definition slift :: "'e + 'a \<Rightarrow> 's \<Rightarrow> ('e + 'a) \<times> 's" where
  "slift r s = (r, s)"

lemma sbind_eq_Inr [result_simps]:
  "sbind m f s = (Inr y, s') \<longleftrightarrow> (\<exists>x t. m s = (Inr x, t) \<and> f x t = (Inr y, s'))"
  by (auto simp: sbind_def split: prod.splits sum.splits)

lemma sret_eq [result_simps]: "sret x s = (r, s') \<longleftrightarrow> r = Inr x \<and> s' = s"
  by (auto simp: sret_def)

text \<open>\<^verbatim>\<open>std::to_string\<close> on an unsigned value.\<close>

fun to_string :: "nat \<Rightarrow> string" where
  "to_string n = (if n < 10 then [''0123456789'' ! n]
                  else to_string (n div 10) @ [''0123456789'' ! (n mod 10)])"

declare to_string.simps [simp del]

definition digitChars :: "char set" where
  "digitChars = set ''0123456789''"

definition digitValue :: "char \<Rightarrow> nat" where
  "digitValue c = (of_char c :: nat) - 48"

definition decimalValue :: "string \<Rightarrow> nat" where
  "decimalValue s = foldl (\<lambda>a c. 10 * a + digitValue c) 0 s"

text \<open>\<^verbatim>\<open>std::from_chars\<close> for a 64-bit unsigned value, with the whole text consumed.\<close>

definition fromCharsU64 :: "string \<Rightarrow> nat option" where
  "fromCharsU64 s =
     (if s \<noteq> [] \<and> set s \<subseteq> digitChars \<and> decimalValue s < 2 ^ 64 then Some (decimalValue s) else None)"

lemma less_10_cases: "(n::nat) < 10 \<longleftrightarrow> n \<in> {0,1,2,3,4,5,6,7,8,9}"
  by auto

lemma digitValue_nth [simp]: "n < 10 \<Longrightarrow> digitValue (''0123456789'' ! n) = n"
  unfolding less_10_cases by (auto simp: digitValue_def)

lemma decimalValue_snoc: "decimalValue (s @ [c]) = 10 * decimalValue s + digitValue c"
  by (simp add: decimalValue_def)

lemma decimalValue_to_string [simp]: "decimalValue (to_string n) = n"
proof (induction n rule: to_string.induct)
  case (1 n)
  show ?case
  proof (cases "n < 10")
    case True
    then show ?thesis by (simp add: to_string.simps [of n] decimalValue_def)
  next
    case False
    with 1 show ?thesis by (simp add: to_string.simps [of n] decimalValue_snoc)
  qed
qed

lemma to_string_inject [simp]: "to_string m = to_string n \<longleftrightarrow> m = n"
  by (metis decimalValue_to_string)

lemma nth_digit_in: "n < 10 \<Longrightarrow> ''0123456789'' ! n \<in> digitChars"
  unfolding digitChars_def by (intro nth_mem) simp

lemma to_string_digits: "set (to_string n) \<subseteq> digitChars"
proof (induction n rule: to_string.induct)
  case (1 n)
  have "''0123456789'' ! (n mod 10) \<in> digitChars" by (intro nth_digit_in) simp
  with 1 show ?case
    by (cases "n < 10") (simp_all add: to_string.simps [of n] nth_digit_in)
qed

lemma to_string_nonempty [simp]: "to_string n \<noteq> []"
  by (subst to_string.simps) simp

lemma fromCharsU64_to_string [simp]: "n < 2 ^ 64 \<Longrightarrow> fromCharsU64 (to_string n) = Some n"
  using to_string_digits [of n] by (simp add: fromCharsU64_def)

lemma to_string_not_mem: "c \<notin> digitChars \<Longrightarrow> c \<notin> set (to_string n)"
  using to_string_digits [of n] by auto

lemma non_digits [simp]:
  "CHR '':'' \<notin> digitChars" "CHR ''-'' \<notin> digitChars" "CHR ''|'' \<notin> digitChars"
  by (simp_all add: digitChars_def)

text \<open>A text is determined by the part before the first occurrence of a separator.\<close>

lemma append_sep_eq:
  assumes "xs @ c # ys = xs' @ c # ys'" and "c \<notin> set xs" and "c \<notin> set xs'"
  shows "xs = xs' \<and> ys = ys'"
  using assms
proof (induction xs arbitrary: xs')
  case Nil
  then show ?case by (cases xs') auto
next
  case (Cons x xs)
  then show ?case by (cases xs') auto
qed

section \<open>Ordered maps and sets\<close>

text \<open>
  \<^verbatim>\<open>std::map\<close>: an association list kept in increasing key order by insertion.
  Lookup is \<open>map_of\<close>.
\<close>

type_synonym ('k, 'v) omap = "('k \<times> 'v) list"

fun omap_put :: "'k::linorder \<Rightarrow> 'v \<Rightarrow> ('k, 'v) omap \<Rightarrow> ('k, 'v) omap" where
  "omap_put k v [] = [(k, v)]"
| "omap_put k v ((a, b) # m) =
     (if k < a then (k, v) # (a, b) # m
      else if k = a then (k, v) # m
      else (a, b) # omap_put k v m)"

definition omap_del :: "'k \<Rightarrow> ('k, 'v) omap \<Rightarrow> ('k, 'v) omap" where
  "omap_del k m = filter (\<lambda>(a, b). a \<noteq> k) m"

abbreviation omap_keys :: "('k, 'v) omap \<Rightarrow> 'k list" where
  "omap_keys m \<equiv> map fst m"

definition omap_has :: "'k \<Rightarrow> ('k, 'v) omap \<Rightarrow> bool" where
  "omap_has k m \<longleftrightarrow> map_of m k \<noteq> None"

definition omap_wf :: "('k::linorder, 'v) omap \<Rightarrow> bool" where
  "omap_wf m \<longleftrightarrow> sorted (omap_keys m) \<and> distinct (omap_keys m)"

text \<open>\<^verbatim>\<open>emplace\<close> keeps an existing entry.\<close>

definition omap_emplace :: "'k::linorder \<Rightarrow> 'v \<Rightarrow> ('k, 'v) omap \<Rightarrow> ('k, 'v) omap" where
  "omap_emplace k v m = (if omap_has k m then m else omap_put k v m)"

lemma map_of_omap_put [simp]: "map_of (omap_put k v m) = (map_of m)(k \<mapsto> v)"
  by (induction k v m rule: omap_put.induct) (auto simp: fun_eq_iff)

lemma map_of_omap_del [simp]: "map_of (omap_del k m) = (map_of m)(k := None)"
  by (induction m) (auto simp: omap_del_def fun_eq_iff)

lemma omap_has_iff: "omap_has k m \<longleftrightarrow> k \<in> fst ` set m"
  by (simp add: omap_has_def map_of_eq_None_iff)

lemma set_omap_put_keys [simp]: "fst ` set (omap_put k v m) = insert k (fst ` set m)"
  by (induction k v m rule: omap_put.induct) auto

lemma omap_put_nonempty [simp]: "omap_put k v m \<noteq> []"
  by (induction k v m rule: omap_put.induct) auto

lemma omap_wf_Nil [simp]: "omap_wf []"
  by (simp add: omap_wf_def)

lemma omap_wf_Cons:
  "omap_wf ((a, b) # m) \<longleftrightarrow> (\<forall>k \<in> fst ` set m. a < k) \<and> omap_wf m"
  by (auto simp: omap_wf_def less_le_not_le) (metis image_eqI less_le not_less fst_conv)+

lemma omap_wf_put [simp]: "omap_wf m \<Longrightarrow> omap_wf (omap_put k v m)"
  by (induction k v m rule: omap_put.induct) (auto simp: omap_wf_Cons)

lemma omap_wf_filter: "omap_wf m \<Longrightarrow> omap_wf (filter P m)"
  by (induction m) (auto simp: omap_wf_Cons)

lemma omap_wf_del [simp]: "omap_wf m \<Longrightarrow> omap_wf (omap_del k m)"
  by (simp add: omap_del_def omap_wf_filter)

lemma omap_wf_emplace [simp]: "omap_wf m \<Longrightarrow> omap_wf (omap_emplace k v m)"
  by (simp add: omap_emplace_def)

lemma omap_wf_distinct: "omap_wf m \<Longrightarrow> distinct (map fst m)"
  by (simp add: omap_wf_def)

lemma omap_wf_map_of_iff: "omap_wf m \<Longrightarrow> map_of m k = Some v \<longleftrightarrow> (k, v) \<in> set m"
  by (simp add: omap_wf_def)

text \<open>Ordered maps are extensional: equal lookups mean equal maps.\<close>

lemma omap_ext:
  assumes "omap_wf m" and "omap_wf n" and "map_of m = map_of n"
  shows "m = n"
  using assms
proof (induction m arbitrary: n)
  case Nil
  then show ?case by (cases n) (auto simp: fun_eq_iff split: if_splits)
next
  case (Cons p m)
  obtain a b where p: "p = (a, b)" by (cases p)
  from Cons.prems have eq: "set ((a, b) # m) = set n"
    by (metis p omap_wf_map_of_iff subrelI subset_antisym)
  then obtain c d n' where n: "n = (c, d) # n'"
    by (cases n) auto
  have lt: "\<forall>k \<in> fst ` set m. a < k" "\<forall>k \<in> fst ` set n'. c < k"
    using Cons.prems(1,2) by (simp_all add: p n omap_wf_Cons)
  have "a = c"
  proof (rule ccontr)
    assume "a \<noteq> c"
    then have "(c, d) \<in> set m" "(a, b) \<in> set n'" using eq n by auto
    then show False using lt by (metis fst_conv image_eqI less_asym)
  qed
  moreover from this have "b = d"
    using Cons.prems(3) by (simp add: p n fun_eq_iff) (metis option.inject)
  moreover have "map_of m = map_of n'"
  proof
    fix k
    from lt \<open>a = c\<close> have "map_of m a = None" "map_of n' a = None"
      by (auto simp: map_of_eq_None_iff)
    moreover have "map_of ((a, b) # m) k = map_of ((c, d) # n') k"
      using fun_cong [OF Cons.prems(3), of k] by (simp only: p n)
    ultimately show "map_of m k = map_of n' k" using \<open>a = c\<close> by (cases "k = a") auto
  qed
  then have "m = n'"
    using Cons.IH Cons.prems by (simp add: p n omap_wf_Cons)
  ultimately show ?case by (simp add: p n)
qed

section \<open>Ordered sets\<close>

text \<open>\<^verbatim>\<open>std::set\<close>: a strictly increasing list.\<close>

fun oset_insert :: "'a::linorder \<Rightarrow> 'a list \<Rightarrow> 'a list" where
  "oset_insert x [] = [x]"
| "oset_insert x (y # ys) =
     (if x < y then x # y # ys else if x = y then y # ys else y # oset_insert x ys)"

lemma set_oset_insert [simp]: "set (oset_insert x ys) = insert x (set ys)"
  by (induction x ys rule: oset_insert.induct) auto

lemma strict_sorted_oset_insert [simp]:
  "sorted_wrt (<) ys \<Longrightarrow> sorted_wrt (<) (oset_insert x ys)"
  by (induction x ys rule: oset_insert.induct) auto

definition oset_of :: "'a::linorder list \<Rightarrow> 'a list" where
  "oset_of xs = fold oset_insert xs []"

lemma oset_of_Nil [simp]: "oset_of [] = []"
  by (simp add: oset_of_def)

lemma set_fold_oset_insert: "set (fold oset_insert xs ys) = set xs \<union> set ys"
  by (induction xs arbitrary: ys) auto

lemma set_oset_of [simp]: "set (oset_of xs) = set xs"
  by (simp add: oset_of_def set_fold_oset_insert)

end
