(* ===== verification/Json.thy ===== *)
theory Json
  imports LG_Prelude
begin

text \<open>
  JSON values and the state of a graph.  The type \<open>json\<close> is the data model of the values the
  program stores (nlohmann::json, a library the sources only call): objects are ordered maps,
  integers keep the signed or unsigned kind and their 64 bits, a double is kept as its bit
  pattern and is never inspected.  On top of it come \<^verbatim>\<open>JsonDecodeLimits\<close> and its checks
  (\<^verbatim>\<open>src/src/foundation/serialization/json_limits.hpp\<close>), \<^verbatim>\<open>State\<close> (\<^verbatim>\<open>state.cpp\<close>) and
  \<^verbatim>\<open>StateUpdate\<close> with the overwrite marker (\<^verbatim>\<open>src/src/langgraph/state/state_update.cpp\<close>).
\<close>

section \<open>Values\<close>

datatype json =
    JNull
  | JBool bool
  | JInt "64 word"
  | JUint "64 word"
  | JFloat "64 word"
  | JStr string
  | JArr "json list"
  | JObj "(string \<times> json) list"

fun is_object :: "json \<Rightarrow> bool" where
  "is_object (JObj _) = True"
| "is_object _ = False"

fun is_array :: "json \<Rightarrow> bool" where
  "is_array (JArr _) = True"
| "is_array _ = False"

fun is_string :: "json \<Rightarrow> bool" where
  "is_string (JStr _) = True"
| "is_string _ = False"

fun is_null :: "json \<Rightarrow> bool" where
  "is_null JNull = True"
| "is_null _ = False"

fun is_number_unsigned :: "json \<Rightarrow> bool" where
  "is_number_unsigned (JUint _) = True"
| "is_number_unsigned _ = False"

text \<open>As documented for the library: true for signed and for unsigned integers.\<close>

fun is_number_integer :: "json \<Rightarrow> bool" where
  "is_number_integer (JInt _) = True"
| "is_number_integer (JUint _) = True"
| "is_number_integer _ = False"

fun jitems :: "json \<Rightarrow> (string \<times> json) list" where
  "jitems (JObj m) = m"
| "jitems _ = []"

fun jelems :: "json \<Rightarrow> json list" where
  "jelems (JArr xs) = xs"
| "jelems _ = []"

fun str_of :: "json \<Rightarrow> string" where
  "str_of (JStr s) = s"
| "str_of _ = []"

fun bits_of :: "json \<Rightarrow> 64 word" where
  "bits_of (JInt w) = w"
| "bits_of (JUint w) = w"
| "bits_of _ = 0"

text \<open>\<open>jget v k\<close> is \<^verbatim>\<open>v.at(k)\<close> where present; \<open>jhas v k\<close> is \<^verbatim>\<open>v.contains(k)\<close>.\<close>

definition jget :: "json \<Rightarrow> string \<Rightarrow> json option" where
  "jget v k = map_of (jitems v) k"

definition jhas :: "json \<Rightarrow> string \<Rightarrow> bool" where
  "jhas v k \<longleftrightarrow> jget v k \<noteq> None"

definition jat :: "json \<Rightarrow> string \<Rightarrow> json" where
  "jat v k = (case jget v k of None \<Rightarrow> JNull | Some x \<Rightarrow> x)"

text \<open>\<^verbatim>\<open>v[k] = x\<close>; a null becomes an object first.\<close>

fun jput :: "json \<Rightarrow> string \<Rightarrow> json \<Rightarrow> json" where
  "jput (JObj m) k x = JObj (omap_put k x m)"
| "jput JNull k x = JObj [(k, x)]"
| "jput v k x = v"

fun jerase :: "json \<Rightarrow> string \<Rightarrow> json" where
  "jerase (JObj m) k = JObj (omap_del k m)"
| "jerase v k = v"

text \<open>\<^verbatim>\<open>v.empty()\<close>.\<close>

fun jempty :: "json \<Rightarrow> bool" where
  "jempty JNull = True"
| "jempty (JArr xs) = (xs = [])"
| "jempty (JObj m) = (m = [])"
| "jempty _ = False"

text \<open>An object literal \<^verbatim>\<open>{ {k1, v1}, ... }\<close>: built by insertion.\<close>

definition obj :: "(string \<times> json) list \<Rightarrow> json" where
  "obj ps = JObj (fold (\<lambda>(k, v) m. omap_put k v m) ps [])"

text \<open>Every object in the value is an ordered map.\<close>

fun json_wf :: "json \<Rightarrow> bool" where
  "json_wf (JArr xs) = (\<forall>x \<in> set xs. json_wf x)"
| "json_wf (JObj m) = (omap_wf m \<and> (\<forall>p \<in> set m. json_wf (snd p)))"
| "json_wf _ = True"

lemma is_object_iff: "is_object v \<longleftrightarrow> (\<exists>m. v = JObj m)"
  by (cases v) auto

lemma is_array_iff: "is_array v \<longleftrightarrow> (\<exists>xs. v = JArr xs)"
  by (cases v) auto

lemma is_string_iff: "is_string v \<longleftrightarrow> (\<exists>s. v = JStr s)"
  by (cases v) auto

lemma is_object_jput [simp]: "is_object v \<Longrightarrow> is_object (jput v k x)"
  by (cases v) auto

lemma is_object_erase [simp]: "is_object (jerase v k) = is_object v"
  by (cases v) auto

lemma is_object_obj [simp]: "is_object (obj ps)"
  by (simp add: obj_def)

lemma jget_jput [simp]: "is_object v \<Longrightarrow> jget (jput v k x) j = (if j = k then Some x else jget v j)"
  by (cases v) (auto simp: jget_def)

lemma jget_erase [simp]: "jget (jerase v k) j = (if j = k then None else jget v j)"
  by (cases v) (auto simp: jget_def)

lemma jhas_jput [simp]: "is_object v \<Longrightarrow> jhas (jput v k x) j \<longleftrightarrow> j = k \<or> jhas v j"
  by (simp add: jhas_def)

lemma jhas_erase [simp]: "jhas (jerase v k) j \<longleftrightarrow> j \<noteq> k \<and> jhas v j"
  by (simp add: jhas_def)

lemma jat_jput [simp]: "is_object v \<Longrightarrow> jat (jput v k x) j = (if j = k then x else jat v j)"
  by (simp add: jat_def)

lemma jget_eq_Some: "jget v k = Some x \<longleftrightarrow> jhas v k \<and> jat v k = x"
  by (auto simp: jhas_def jat_def split: option.splits)

lemma jget_not_object: "\<not> is_object v \<Longrightarrow> jget v k = None"
  by (cases v) (auto simp: jget_def)

lemma jhas_object: "jhas v k \<Longrightarrow> is_object v"
  by (cases v) (auto simp: jhas_def jget_def)

lemma json_wf_jput [simp]: "json_wf v \<Longrightarrow> json_wf x \<Longrightarrow> json_wf (jput v k x)"
proof (cases v)
  case (JObj m)
  assume wf: "json_wf v" "json_wf x"
  have "set (omap_put k x m) \<subseteq> insert (k, x) (set m)"
    by (induction k x m rule: omap_put.induct) auto
  with JObj wf show ?thesis by auto
qed (auto simp: omap_wf_Cons)

lemma json_wf_jerase [simp]: "json_wf v \<Longrightarrow> json_wf (jerase v k)"
  by (cases v) (auto simp: omap_del_def omap_wf_filter)

lemma json_wf_jget: "json_wf v \<Longrightarrow> jget v k = Some x \<Longrightarrow> json_wf x"
  by (cases v) (auto simp: jget_def dest!: map_of_SomeD)

lemma fold_omap_put:
  "map_of (fold (\<lambda>(k, v) m. omap_put k v m) ps m) = map_of m ++ map_of (rev ps)"
  by (induction ps arbitrary: m) (auto simp: map_add_def fun_eq_iff split: option.splits)

lemma jget_obj: "jget (obj ps) k = map_of (rev ps) k"
  by (simp add: obj_def jget_def fold_omap_put)

section \<open>Decode limits\<close>

record json_limits =
  maxBytes :: nat
  maxDepth :: nat
  maxStringBytes :: nat
  maxArrayItems :: nat
  maxObjectFields :: nat
  maxNodes :: nat
  rejectUnknownFields :: bool

definition JsonDecodeLimits :: json_limits where
  "JsonDecodeLimits = \<lparr>maxBytes = 64 * 1024 * 1024, maxDepth = 64, maxStringBytes = 1024 * 1024,
     maxArrayItems = 100000, maxObjectFields = 4096, maxNodes = 1000000,
     rejectUnknownFields = True\<rparr>"

definition exceedsJsonLimit :: "nat \<Rightarrow> nat \<Rightarrow> bool" where
  "exceedsJsonLimit val limit \<longleftrightarrow> limit \<noteq> 0 \<and> limit < val"

text \<open>The number of values in a value, itself included.\<close>

fun json_nodes :: "json \<Rightarrow> nat" where
  "json_nodes (JArr xs) = Suc (sum_list (map json_nodes xs))"
| "json_nodes (JObj m) = Suc (sum_list (map (\<lambda>p. json_nodes (snd p)) m))"
| "json_nodes _ = 1"

text \<open>
  The loop of \<^verbatim>\<open>validateJsonValueLimits\<close>: an explicit stack, its top first here.  The
  children of a value are pushed in order, so the last one is visited next.
\<close>

function validateLoop :: "json_limits \<Rightarrow> string \<Rightarrow> nat \<Rightarrow> json list \<Rightarrow> status" where
  "validateLoop lim label nodes [] = okStatus"
| "validateLoop lim label nodes (v # stack) =
     (let nodes = Suc nodes in
      if exceedsJsonLimit nodes (maxNodes lim)
      then mkStatus ResourceExhausted (label @ '' JSON has too many nodes'')
      else case v of
        JStr s \<Rightarrow>
          if exceedsJsonLimit (length s) (maxStringBytes lim)
          then mkStatus ResourceExhausted (label @ '' JSON string is too large'')
          else validateLoop lim label nodes stack
      | JArr xs \<Rightarrow>
          if exceedsJsonLimit (length xs) (maxArrayItems lim)
          then mkStatus ResourceExhausted (label @ '' JSON array is too large'')
          else validateLoop lim label nodes (rev xs @ stack)
      | JObj m \<Rightarrow>
          if exceedsJsonLimit (length m) (maxObjectFields lim)
          then mkStatus ResourceExhausted (label @ '' JSON object has too many fields'')
          else validateLoop lim label nodes (rev (map snd m) @ stack)
      | _ \<Rightarrow> validateLoop lim label nodes stack)"
  by pat_completeness auto
termination
  by (relation "measure (\<lambda>(lim, label, nodes, stack). sum_list (map json_nodes stack))")
    (auto simp: rev_map [symmetric] sum_list_rev comp_def)

definition validateJsonValueLimits :: "json \<Rightarrow> string \<Rightarrow> json_limits \<Rightarrow> status" where
  "validateJsonValueLimits v label lim = validateLoop lim label 0 [v]"

text \<open>The same check, declaratively: every string, array and object is within its limit.\<close>

fun json_within :: "json_limits \<Rightarrow> json \<Rightarrow> bool" where
  "json_within lim (JStr s) = (\<not> exceedsJsonLimit (length s) (maxStringBytes lim))"
| "json_within lim (JArr xs) =
     (\<not> exceedsJsonLimit (length xs) (maxArrayItems lim) \<and> (\<forall>x \<in> set xs. json_within lim x))"
| "json_within lim (JObj m) =
     (\<not> exceedsJsonLimit (length m) (maxObjectFields lim) \<and>
      (\<forall>p \<in> set m. json_within lim (snd p)))"
| "json_within lim _ = True"

lemma json_nodes_pos [simp]: "0 < json_nodes v"
  by (cases v) auto

lemma validateLoop_ok:
  "isOk (validateLoop lim label n st) \<longleftrightarrow>
     (st = [] \<or> \<not> exceedsJsonLimit (n + sum_list (map json_nodes st)) (maxNodes lim)) \<and>
     (\<forall>v \<in> set st. json_within lim v)"
proof (induction lim label n st rule: validateLoop.induct)
  case (1 lim label nodes)
  then show ?case by simp
next
  case (2 lim label nodes v stack)
  have pos: "stack \<noteq> [] \<Longrightarrow> 0 < sum_list (map json_nodes stack)"
    by (cases stack) auto
  show ?case
  proof (cases "exceedsJsonLimit (Suc nodes) (maxNodes lim)")
    case True
    have "1 \<le> json_nodes v" using json_nodes_pos [of v] by linarith
    with True show ?thesis by (auto simp: exceedsJsonLimit_def)
  next
    case False
    with 2 pos show ?thesis
      by (cases v)
        (auto simp: exceedsJsonLimit_def rev_map [symmetric] sum_list_rev comp_def)
  qed
qed

lemma validateJsonValueLimits_ok:
  "isOk (validateJsonValueLimits v label lim) \<longleftrightarrow>
     \<not> exceedsJsonLimit (json_nodes v) (maxNodes lim) \<and> json_within lim v"
  unfolding validateJsonValueLimits_def validateLoop_ok by simp

lemma validateLoop_code:
  "st_code (validateLoop lim label n st) \<in> {Ok, ResourceExhausted}"
  by (induction lim label n st rule: validateLoop.induct)
    (auto simp: Let_def okStatus_def split: json.splits)

section \<open>State\<close>

text \<open>
  A \<^verbatim>\<open>State\<close> is the JSON object it holds; every public constructor goes through
  \<open>State_fromJsonValue\<close>, which checks the shape and the limits.
\<close>

definition State_fromJsonValueLimits :: "json \<Rightarrow> json_limits \<Rightarrow> json result" where
  "State_fromJsonValueLimits v lim =
     (if \<not> is_object v then err InvalidArgument ''state must be a JSON object''
      else let s = validateJsonValueLimits v ''state'' lim in
           if \<not> isOk s then errorResult s else Inr v)"

definition State_fromJsonValue :: "json \<Rightarrow> json result" where
  "State_fromJsonValue v = State_fromJsonValueLimits v JsonDecodeLimits"

definition state_ok :: "json \<Rightarrow> bool" where
  "state_ok v \<longleftrightarrow> is_object v \<and> json_nodes v \<le> maxNodes JsonDecodeLimits \<and>
     json_within JsonDecodeLimits v"

lemma State_fromJsonValue_Inr: "State_fromJsonValue v = Inr w \<longleftrightarrow> w = v \<and> state_ok v"
  by (auto simp: State_fromJsonValue_def State_fromJsonValueLimits_def Let_def state_ok_def
      validateJsonValueLimits_ok exceedsJsonLimit_def JsonDecodeLimits_def)

lemma state_ok_object: "state_ok v \<Longrightarrow> is_object v"
  by (simp add: state_ok_def)

section \<open>State updates\<close>

definition kOverwriteType :: string where
  "kOverwriteType = ''__overwrite__''"

text \<open>The struct \<^verbatim>\<open>Overwrite\<close> holds one value; it is represented by that value.\<close>

definition overwriteToJson :: "json \<Rightarrow> json" where
  "overwriteToJson value = obj [(''type'', JStr kOverwriteType), (''value'', value)]"

definition isOverwriteJson :: "json \<Rightarrow> bool" where
  "isOverwriteJson v \<longleftrightarrow>
     is_object v \<and> jhas v ''type'' \<and> is_string (jat v ''type'') \<and>
     str_of (jat v ''type'') = kOverwriteType"

definition overwriteFromJson :: "json \<Rightarrow> json result" where
  "overwriteFromJson v =
     (if \<not> isOverwriteJson v
      then err InvalidArgument ''overwrite update must declare type __overwrite__''
      else if \<not> jhas v ''value''
      then err InvalidArgument ''overwrite update value is required''
      else Inr (jat v ''value''))"

definition StateUpdate_fromJsonValue :: "json \<Rightarrow> json result" where
  "StateUpdate_fromJsonValue v =
     (if \<not> is_object v then err InvalidArgument ''state update must be a JSON object''
      else let s = validateJsonValueLimits v ''state update'' JsonDecodeLimits in
           if \<not> isOk s then errorResult s else Inr v)"

definition StateUpdate_toState :: "json \<Rightarrow> json result" where
  "StateUpdate_toState u = State_fromJsonValue u"

lemma StateUpdate_fromJsonValue_Inr:
  "StateUpdate_fromJsonValue v = Inr w \<longleftrightarrow> w = v \<and> state_ok v"
  by (auto simp: StateUpdate_fromJsonValue_def Let_def state_ok_def
      validateJsonValueLimits_ok exceedsJsonLimit_def JsonDecodeLimits_def)

lemma jget_overwriteToJson [simp]:
  "jget (overwriteToJson x) k =
     (if k = ''type'' then Some (JStr kOverwriteType)
      else if k = ''value'' then Some x else None)"
  by (simp add: overwriteToJson_def jget_obj)

lemma overwrite_roundtrip:
  "isOverwriteJson (overwriteToJson x) \<and> overwriteFromJson (overwriteToJson x) = Inr x"
  by (simp add: overwriteFromJson_def isOverwriteJson_def jhas_def jat_def)
    (simp add: overwriteToJson_def)

end
