(* ===== verification/Checkpoints.thy ===== *)
theory Checkpoints
  imports Json
begin

text \<open>
  Checkpoints: the records of \<^verbatim>\<open>src/src/foundation/serialization/state_codec.hpp\<close> and
  \<^verbatim>\<open>src/src/langgraph/checkpoint/checkpoint_types.hpp\<close>, the interface
  \<^verbatim>\<open>BaseCheckpointSaver\<close> (\<^verbatim>\<open>saver.hpp\<close>) as a record of operations over the state of a
  saver, and the code all savers share (\<^verbatim>\<open>checkpointer.cpp\<close>).  A time point of the system
  clock is an integer count of nanoseconds.
\<close>

section \<open>Records\<close>

record CheckpointTask =
  ct_taskId :: string
  ct_nodeId :: string
  ct_ns :: string
  ct_state :: "json option"
  ct_order :: "64 word option"
  ct_error :: "string option"
  ct_interrupts :: json
  ct_metadata :: json

record CheckpointWrite =
  cw_taskId :: string
  cw_taskPath :: string
  cw_nodeId :: string
  cw_ns :: string
  cw_update :: json
  cw_order :: "64 word option"
  cw_hasNextTasks :: bool
  cw_nextTasks :: "CheckpointTask list"
  cw_metadata :: json

record Checkpoint =
  cp_threadId :: string
  cp_checkpointId :: string
  cp_ns :: string
  cp_parent :: "string option"
  cp_step :: "64 word"
  cp_state :: json
  cp_nextNodes :: "string list"
  cp_nextTasks :: "CheckpointTask list"
  cp_writes :: "CheckpointWrite list"
  cp_pendingWrites :: "CheckpointWrite list"
  cp_channelVersions :: json
  cp_versionsSeen :: json
  cp_updatedChannels :: "string list"
  cp_metadata :: json
  cp_createdAt :: int

definition plainTask :: "string \<Rightarrow> CheckpointTask" where
  "plainTask node = \<lparr>ct_taskId = [], ct_nodeId = node, ct_ns = [], ct_state = None, ct_order = None,
     ct_error = None, ct_interrupts = JArr [], ct_metadata = JObj []\<rparr>"

datatype CheckpointListOrder = OldestFirst | NewestFirst

record CheckpointQuery =
  cq_threadId :: string
  cq_ns :: string
  cq_checkpointId :: "string option"

record CheckpointWriteSet =
  ws_threadId :: string
  ws_ns :: string
  ws_checkpointId :: string
  ws_taskId :: string
  ws_taskPath :: string
  ws_writes :: "CheckpointWrite list"

record CheckpointTuple =
  tu_checkpoint :: Checkpoint
  tu_pendingWrites :: "CheckpointWrite list"

record CheckpointListOptions =
  lo_threadId :: string
  lo_ns :: "string option"
  lo_checkpointId :: "string option"
  lo_before :: "string option"
  lo_limit :: "nat option"
  lo_metadataFilter :: json
  lo_order :: CheckpointListOrder

record CheckpointPruneOptions =
  pr_ns :: string
  pr_keepLatest :: nat

record CheckpointMaintenanceResult =
  mr_removed :: nat
  mr_remaining :: nat
  mr_latest :: string

record CheckpointCopyThreadOptions =
  co_source :: string
  co_target :: string
  co_ns :: "string option"
  co_targetNs :: "string option"
  co_overwriteTarget :: bool

record CheckpointDeleteForRunsOptions =
  dr_threadId :: string
  dr_ns :: "string option"
  dr_runIds :: "string list"

record DeltaChannelHistoryQuery =
  dq_threadId :: string
  dq_ns :: string
  dq_checkpointId :: string
  dq_channels :: "string list"

record DeltaChannelHistory =
  dh_writes :: "CheckpointWrite list"
  dh_seed :: "json option"

definition CheckpointQuery_latest :: "string \<Rightarrow> string \<Rightarrow> CheckpointQuery" where
  "CheckpointQuery_latest thread ns = \<lparr>cq_threadId = thread, cq_ns = ns, cq_checkpointId = None\<rparr>"

definition CheckpointQuery_at :: "string \<Rightarrow> string \<Rightarrow> string \<Rightarrow> CheckpointQuery" where
  "CheckpointQuery_at thread cid ns = \<lparr>cq_threadId = thread, cq_ns = ns, cq_checkpointId = Some cid\<rparr>"

section \<open>The saver interface\<close>

record 's saver_ops =
  so_put :: "Checkpoint \<Rightarrow> ('s, unit) sres"
  so_putWrites :: "CheckpointWriteSet \<Rightarrow> ('s, unit) sres"
  so_getTuple :: "CheckpointQuery \<Rightarrow> ('s, CheckpointTuple option) sres"
  so_list :: "CheckpointListOptions \<Rightarrow> ('s, CheckpointTuple list) sres"
  so_deleteThread :: "string \<Rightarrow> ('s, unit) sres"

section \<open>Validation\<close>

definition validateCheckpointForStore :: "Checkpoint \<Rightarrow> unit result" where
  "validateCheckpointForStore c =
     (if cp_threadId c = [] then err InvalidArgument ''checkpoint thread_id cannot be empty''
      else if cp_checkpointId c = []
      then err InvalidArgument ''checkpoint checkpoint_id cannot be empty''
      else Inr ())"

definition validateCheckpointQuery :: "CheckpointQuery \<Rightarrow> unit result" where
  "validateCheckpointQuery q =
     (if cq_threadId q = [] then err InvalidArgument ''checkpoint query thread_id cannot be empty''
      else if cq_checkpointId q = Some []
      then err InvalidArgument ''checkpoint query checkpoint_id cannot be empty''
      else Inr ())"

definition validateCheckpointListOptions :: "CheckpointListOptions \<Rightarrow> unit result" where
  "validateCheckpointListOptions lo =
     (if lo_threadId lo = [] then err InvalidArgument ''checkpoint list thread_id cannot be empty''
      else if lo_checkpointId lo = Some []
      then err InvalidArgument ''checkpoint list checkpoint_id cannot be empty''
      else if lo_before lo = Some []
      then err InvalidArgument ''checkpoint list before checkpoint_id cannot be empty''
      else if lo_limit lo = Some 0
      then err InvalidArgument ''checkpoint list limit must be greater than zero''
      else if \<not> is_object (lo_metadataFilter lo)
      then err InvalidArgument ''checkpoint list metadata filter must be an object''
      else Inr ())"

text \<open>The loop over the writes fills the fields a write leaves open; \<open>i\<close> is its index.\<close>

definition normalizeWrite :: "CheckpointWriteSet \<Rightarrow> nat \<times> CheckpointWrite \<Rightarrow> CheckpointWrite result" where
  "normalizeWrite ws iw =
     (case iw of (i, w) \<Rightarrow>
        if cw_nodeId w = []
        then err InvalidArgument ''checkpoint write node_id cannot be empty''
        else if \<not> is_object (cw_metadata w)
        then err InvalidArgument ''checkpoint write metadata must be an object''
        else Inr (w\<lparr>cw_taskId := (if cw_taskId w = [] then ws_taskId ws else cw_taskId w),
                    cw_taskPath := (if cw_taskPath w = [] then ws_taskPath ws else cw_taskPath w),
                    cw_ns := (if cw_ns w = [] then ws_ns ws else cw_ns w),
                    cw_order := (case cw_order w of None \<Rightarrow> Some (of_nat i) | Some ord \<Rightarrow> Some ord)\<rparr>))"

definition normalizeWriteSet :: "CheckpointWriteSet \<Rightarrow> CheckpointWriteSet result" where
  "normalizeWriteSet ws =
     (if ws_threadId ws = []
      then err InvalidArgument ''checkpoint writes thread_id cannot be empty''
      else if ws_checkpointId ws = []
      then err InvalidArgument ''checkpoint writes checkpoint_id cannot be empty''
      else if ws_taskId ws = []
      then err InvalidArgument ''checkpoint writes task_id cannot be empty''
      else rbind (mapM_result (normalizeWrite ws) (enumerate 0 (ws_writes ws)))
             (\<lambda>writes. Inr (ws\<lparr>ws_writes := writes\<rparr>)))"

definition checkpointWriteStorageKey :: "string \<Rightarrow> string \<Rightarrow> string \<Rightarrow> string" where
  "checkpointWriteStorageKey thread ns cid =
     to_string (length thread) @ '':'' @ thread @ ''|'' @
     to_string (length ns) @ '':'' @ ns @ ''|'' @
     to_string (length cid) @ '':'' @ cid"

text \<open>\<open>jeq\<close> stands for the equality of JSON values of the library.\<close>

definition metadataMatches :: "(json \<Rightarrow> json \<Rightarrow> bool) \<Rightarrow> json \<Rightarrow> json \<Rightarrow> bool" where
  "metadataMatches jeq metadata flt =
     (if jempty flt then True
      else if \<not> is_object metadata then False
      else \<forall>(k, v) \<in> set (jitems flt).
             (case jget metadata k of None \<Rightarrow> False | Some x \<Rightarrow> jeq x v))"

definition checkpointIsOlder :: "Checkpoint \<Rightarrow> Checkpoint \<Rightarrow> bool" where
  "checkpointIsOlder l r =
     (if cp_step l \<noteq> cp_step r then cp_step l < cp_step r
      else if cp_createdAt l \<noteq> cp_createdAt r then cp_createdAt l < cp_createdAt r
      else cp_checkpointId l < cp_checkpointId r)"

definition checkpointIsNewer :: "Checkpoint \<Rightarrow> Checkpoint \<Rightarrow> bool" where
  "checkpointIsNewer l r = checkpointIsOlder r l"

definition hexDigits :: string where
  "hexDigits = ''0123456789abcdef''"

definition hexEncode :: "string \<Rightarrow> string" where
  "hexEncode value =
     concat (map (\<lambda>ch. let byte = (of_char ch :: nat) in
                        [hexDigits ! (byte div 16), hexDigits ! (byte mod 16)]) value)"

definition paddedIndex :: "64 word \<Rightarrow> string" where
  "paddedIndex value =
     (let text = to_string (unat value) in
      if 20 \<le> length text then text else replicate (20 - length text) (CHR ''0'') @ text)"

definition validateCopyOptions :: "CheckpointCopyThreadOptions \<Rightarrow> unit result" where
  "validateCopyOptions co =
     (if co_source co = []
      then err InvalidArgument ''checkpoint copy source thread_id cannot be empty''
      else if co_target co = []
      then err InvalidArgument ''checkpoint copy target thread_id cannot be empty''
      else if co_targetNs co \<noteq> None \<and> co_ns co = None
      then err InvalidArgument
        ''checkpoint copy target namespace requires a single source namespace''
      else Inr ())"

definition validateDeleteForRunsOptions :: "CheckpointDeleteForRunsOptions \<Rightarrow> unit result" where
  "validateDeleteForRunsOptions dr =
     (if dr_threadId dr = []
      then err InvalidArgument ''checkpoint erase runs thread_id cannot be empty''
      else if dr_runIds dr = []
      then err InvalidArgument ''checkpoint erase runs requires at least one run id''
      else if [] \<in> set (dr_runIds dr)
      then err InvalidArgument ''checkpoint erase run id cannot be empty''
      else Inr ())"

definition validateDeltaQuery :: "DeltaChannelHistoryQuery \<Rightarrow> unit result" where
  "validateDeltaQuery dq =
     (if dq_threadId dq = [] then err InvalidArgument ''checkpoint delta thread_id cannot be empty''
      else if dq_checkpointId dq = []
      then err InvalidArgument ''checkpoint delta checkpoint_id cannot be empty''
      else if dq_channels dq = []
      then err InvalidArgument ''checkpoint delta requires at least one channel''
      else if [] \<in> set (dq_channels dq)
      then err InvalidArgument ''checkpoint delta channel cannot be empty''
      else Inr ())"

definition checkpointIdMatchesRun :: "string \<Rightarrow> string list \<Rightarrow> bool" where
  "checkpointIdMatchesRun cid runIds \<longleftrightarrow>
     (\<exists>runId \<in> set runIds. cid = runId \<or> prefix (runId @ ''-'') cid)"

section \<open>Listing\<close>

text \<open>\<^verbatim>\<open>checkpointIsOlder\<close> is the strict order of this key.\<close>

definition olderKey :: "Checkpoint \<Rightarrow> 64 word \<times> int \<times> string" where
  "olderKey c = (cp_step c, cp_createdAt c, cp_checkpointId c)"

definition listRecord ::
  "(string, CheckpointWrite list) omap \<Rightarrow> Checkpoint \<Rightarrow> CheckpointTuple" where
  "listRecord writesByCheckpoint c =
     (let key = checkpointWriteStorageKey (cp_threadId c) (cp_ns c) (cp_checkpointId c);
          stored = (case map_of writesByCheckpoint key of None \<Rightarrow> [] | Some w \<Rightarrow> w) in
      if stored = [] then \<lparr>tu_checkpoint = c, tu_pendingWrites = cp_pendingWrites c\<rparr>
      else \<lparr>tu_checkpoint = (if cp_pendingWrites c = [] then c\<lparr>cp_pendingWrites := stored\<rparr> else c),
            tu_pendingWrites = stored\<rparr>)"

definition applyListOptions ::
  "(json \<Rightarrow> json \<Rightarrow> bool) \<Rightarrow> Checkpoint list \<Rightarrow> (string, CheckpointWrite list) omap \<Rightarrow>
   CheckpointListOptions \<Rightarrow> CheckpointTuple list" where
  "applyListOptions jeq checkpoints writesByCheckpoint lo =
     (let sorted = sort_key olderKey checkpoints;
          cut = (case lo_before lo of
                   None \<Rightarrow> sorted
                 | Some b \<Rightarrow>
                     (if \<exists>c \<in> set sorted. cp_checkpointId c = b
                      then takeWhile (\<lambda>c. cp_checkpointId c \<noteq> b) sorted else []));
          kept = filter (\<lambda>c. (case lo_checkpointId lo of None \<Rightarrow> True
                              | Some i \<Rightarrow> cp_checkpointId c = i) \<and>
                             metadataMatches jeq (cp_metadata c) (lo_metadataFilter lo)) cut;
          records = map (listRecord writesByCheckpoint) kept;
          ordered = (if lo_order lo = NewestFirst then rev records else records) in
      (case lo_limit lo of None \<Rightarrow> ordered | Some n \<Rightarrow> take n ordered))"

section \<open>Copying a thread\<close>

definition rewriteTaskNamespace :: "string option \<Rightarrow> CheckpointTask \<Rightarrow> CheckpointTask" where
  "rewriteTaskNamespace target t = (case target of None \<Rightarrow> t | Some ns \<Rightarrow> t\<lparr>ct_ns := ns\<rparr>)"

definition rewriteWriteNamespace :: "string option \<Rightarrow> CheckpointWrite \<Rightarrow> CheckpointWrite" where
  "rewriteWriteNamespace target w =
     (case target of None \<Rightarrow> w
      | Some ns \<Rightarrow> w\<lparr>cw_ns := ns, cw_nextTasks := map (rewriteTaskNamespace target) (cw_nextTasks w)\<rparr>)"

definition rewriteCheckpointForCopy :: "string \<Rightarrow> string option \<Rightarrow> Checkpoint \<Rightarrow> Checkpoint" where
  "rewriteCheckpointForCopy thread target c =
     c\<lparr>cp_threadId := thread,
       cp_ns := (case target of None \<Rightarrow> cp_ns c | Some ns \<Rightarrow> ns),
       cp_nextTasks := map (rewriteTaskNamespace target) (cp_nextTasks c),
       cp_writes := map (rewriteWriteNamespace target) (cp_writes c),
       cp_pendingWrites := map (rewriteWriteNamespace target) (cp_pendingWrites c)\<rparr>"

definition copyRecord ::
  "'s saver_ops \<Rightarrow> CheckpointCopyThreadOptions \<Rightarrow> CheckpointTuple \<Rightarrow> CheckpointMaintenanceResult \<Rightarrow>
   ('s, CheckpointMaintenanceResult) sres" where
  "copyRecord ops co rec acc =
     (let ns = (case co_targetNs co of None \<Rightarrow> cp_ns (tu_checkpoint rec) | Some n \<Rightarrow> n);
          c = rewriteCheckpointForCopy (co_target co) (co_targetNs co) (tu_checkpoint rec);
          pending = (if tu_pendingWrites rec = [] then cp_pendingWrites c else tu_pendingWrites rec);
          c = (if tu_pendingWrites rec \<noteq> [] \<and> cp_pendingWrites c = []
               then c\<lparr>cp_pendingWrites := tu_pendingWrites rec\<rparr> else c) in
      sbind (so_put ops c) (\<lambda>_.
      sbind (if pending = [] then sret ()
             else so_putWrites ops
                    \<lparr>ws_threadId = co_target co, ws_ns = ns, ws_checkpointId = cp_checkpointId c,
                     ws_taskId = cp_checkpointId c, ws_taskPath = ''copy'',
                     ws_writes = map (rewriteWriteNamespace (co_targetNs co)) pending\<rparr>) (\<lambda>_.
      sret (acc\<lparr>mr_remaining := mr_remaining acc + 1, mr_latest := cp_checkpointId c\<rparr>))))"

definition copyThreadWith ::
  "'s saver_ops \<Rightarrow> CheckpointCopyThreadOptions \<Rightarrow> ('s, CheckpointMaintenanceResult) sres" where
  "copyThreadWith ops co =
     sbind (\<lambda>s. (validateCopyOptions co, s)) (\<lambda>_.
     sbind (if co_overwriteTarget co then so_deleteThread ops (co_target co) else sret ()) (\<lambda>_.
     sbind (so_list ops \<lparr>lo_threadId = co_source co, lo_ns = co_ns co, lo_checkpointId = None,
              lo_before = None, lo_limit = None, lo_metadataFilter = JObj [],
              lo_order = OldestFirst\<rparr>) (\<lambda>records.
     sfold (copyRecord ops co) records \<lparr>mr_removed = 0, mr_remaining = 0, mr_latest = []\<rparr>)))"

section \<open>Delta channel history\<close>

type_synonym histories = "(string, DeltaChannelHistory) omap"

definition emptyHistory :: DeltaChannelHistory where
  "emptyHistory = \<lparr>dh_writes = [], dh_seed = None\<rparr>"

definition historyOf :: "histories \<Rightarrow> string \<Rightarrow> DeltaChannelHistory" where
  "historyOf hs ch = (case map_of hs ch of None \<Rightarrow> emptyHistory | Some h \<Rightarrow> h)"

definition pushWrite :: "string list \<Rightarrow> CheckpointWrite \<Rightarrow> histories \<Rightarrow> histories" where
  "pushWrite channels w hs =
     fold (\<lambda>ch hs. if jhas (cw_update w) ch
                    then omap_put ch (historyOf hs ch\<lparr>dh_writes := dh_writes (historyOf hs ch) @ [w]\<rparr>) hs
                    else hs) channels hs"

definition seedChannels :: "json \<Rightarrow> string list \<Rightarrow> histories \<Rightarrow> histories" where
  "seedChannels st remaining hs =
     fold (\<lambda>ch hs. if jhas st ch
                    then omap_put ch (historyOf hs ch\<lparr>dh_seed := Some (jat st ch)\<rparr>) hs else hs)
       remaining hs"

text \<open>
  The walk to the ancestors; \<open>None\<close> when the fuel is used up.  It ends when every channel has
  its seed, at a checkpoint without a parent, or at a parent that is not stored.
\<close>

fun deltaLoop ::
  "nat \<Rightarrow> 's saver_ops \<Rightarrow> DeltaChannelHistoryQuery \<Rightarrow> string option \<Rightarrow> string list \<Rightarrow> histories \<Rightarrow>
   's \<Rightarrow> (histories result \<times> 's) option" where
  "deltaLoop fuel ops dq None remaining hs s = Some (Inr hs, s)"
| "deltaLoop 0 ops dq (Some cursor) remaining hs s =
     (if remaining = [] then Some (Inr hs, s) else None)"
| "deltaLoop (Suc fuel) ops dq (Some cursor) remaining hs s =
     (if remaining = [] then Some (Inr hs, s)
      else case so_getTuple ops (CheckpointQuery_at (dq_threadId dq) cursor (dq_ns dq)) s of
        (Inl e, s') \<Rightarrow> Some (Inl e, s')
      | (Inr None, s') \<Rightarrow> Some (Inr hs, s')
      | (Inr (Some rec), s') \<Rightarrow>
          (let writes = (if tu_pendingWrites rec = [] then cp_writes (tu_checkpoint rec)
                         else tu_pendingWrites rec);
               hs1 = fold (pushWrite (dq_channels dq)) (rev writes) hs;
               st = cp_state (tu_checkpoint rec);
               hs2 = seedChannels st remaining hs1 in
           deltaLoop fuel ops dq (cp_parent (tu_checkpoint rec))
             (filter (\<lambda>ch. \<not> jhas st ch) remaining) hs2 s'))"

definition reverseHistories :: "histories \<Rightarrow> histories" where
  "reverseHistories hs = map (\<lambda>(ch, h). (ch, h\<lparr>dh_writes := rev (dh_writes h)\<rparr>)) hs"

definition getDeltaChannelHistoryWith ::
  "nat \<Rightarrow> 's saver_ops \<Rightarrow> DeltaChannelHistoryQuery \<Rightarrow> 's \<Rightarrow> (histories result \<times> 's) option" where
  "getDeltaChannelHistoryWith fuel ops dq s =
     (case validateDeltaQuery dq of
        Inl e \<Rightarrow> Some (Inl e, s)
      | Inr _ \<Rightarrow>
          (let hs = fold (\<lambda>ch hs. omap_emplace ch emptyHistory hs) (dq_channels dq) [];
               remaining = oset_of (dq_channels dq) in
           case so_getTuple ops (CheckpointQuery_at (dq_threadId dq) (dq_checkpointId dq) (dq_ns dq)) s of
             (Inl e, s') \<Rightarrow> Some (Inl e, s')
           | (Inr None, s') \<Rightarrow>
               Some (err NotFound ''checkpoint delta target checkpoint not found'', s')
           | (Inr (Some rec), s') \<Rightarrow>
               (case deltaLoop fuel ops dq (cp_parent (tu_checkpoint rec)) remaining hs s' of
                  None \<Rightarrow> None
                | Some (Inl e, s'') \<Rightarrow> Some (Inl e, s'')
                | Some (Inr hs', s'') \<Rightarrow> Some (Inr (reverseHistories hs'), s''))))"

section \<open>Keys and orders\<close>

lemma checkpointIsOlder_key: "checkpointIsOlder l r \<longleftrightarrow> olderKey l < olderKey r"
  by (auto simp: checkpointIsOlder_def olderKey_def less_prod_def')

text \<open>A length-prefixed field can be read back, so the storage key determines its parts.\<close>

lemma lengthPrefixed_eq:
  assumes "to_string (length a) @ '':'' @ a @ x = to_string (length b) @ '':'' @ b @ y"
  shows "a = b \<and> x = y"
proof -
  have "to_string (length a) = to_string (length b) \<and> a @ x = b @ y"
    using assms append_sep_eq [of "to_string (length a)" "CHR '':''" "a @ x"
        "to_string (length b)" "b @ y"] to_string_not_mem [OF non_digits(1)]
    by simp
  then have "length a = length b" and "a @ x = b @ y" by simp_all
  then show ?thesis by simp
qed

lemma checkpointWriteStorageKey_inject:
  "checkpointWriteStorageKey t n c = checkpointWriteStorageKey t' n' c' \<longleftrightarrow>
     t = t' \<and> n = n' \<and> c = c'"
proof
  assume eq: "checkpointWriteStorageKey t n c = checkpointWriteStorageKey t' n' c'"
  note unf = eq [unfolded checkpointWriteStorageKey_def]
  from lengthPrefixed_eq [OF unf]
  have t: "t = t'" and r: "to_string (length n) @ '':'' @ n @ ''|'' @ to_string (length c) @ '':'' @ c =
      to_string (length n') @ '':'' @ n' @ ''|'' @ to_string (length c') @ '':'' @ c'"
    by simp_all
  from lengthPrefixed_eq [OF r]
  have n: "n = n'" and r: "to_string (length c) @ '':'' @ c = to_string (length c') @ '':'' @ c'"
    by simp_all
  from r have "to_string (length c) @ '':'' @ c @ [] = to_string (length c') @ '':'' @ c' @ []"
    by simp
  from lengthPrefixed_eq [OF this] t n show "t = t' \<and> n = n' \<and> c = c'" by simp
qed simp

lemma threadPrefix_iff:
  "prefix (to_string (length t) @ '':'' @ t @ ''|'') (checkpointWriteStorageKey t' n c) \<longleftrightarrow> t = t'"
proof
  assume "prefix (to_string (length t) @ '':'' @ t @ ''|'') (checkpointWriteStorageKey t' n c)"
  then obtain z where
    "to_string (length t') @ '':'' @ t' @ (''|'' @ to_string (length n) @ '':'' @ n @ ''|'' @
       to_string (length c) @ '':'' @ c) = to_string (length t) @ '':'' @ t @ (''|'' @ z)"
    unfolding prefix_def checkpointWriteStorageKey_def by auto
  from lengthPrefixed_eq [OF this] show "t = t'" by simp
next
  assume "t = t'"
  then show "prefix (to_string (length t) @ '':'' @ t @ ''|'') (checkpointWriteStorageKey t' n c)"
    by (simp add: prefix_def checkpointWriteStorageKey_def)
qed

lemma hexDigits_inject:
  assumes "i < 16" and "j < 16" and "hexDigits ! i = hexDigits ! j"
  shows "i = j"
proof -
  have "distinct hexDigits" and "length hexDigits = 16" by (simp_all add: hexDigits_def)
  with assms show ?thesis by (simp add: nth_eq_iff_index_eq)
qed

lemma hexEncode_Cons:
  "hexEncode (c # s) =
     hexDigits ! ((of_char c :: nat) div 16) # hexDigits ! ((of_char c :: nat) mod 16) # hexEncode s"
  by (simp add: hexEncode_def Let_def)

lemma hexEncode_inject_lemma: "hexEncode s = hexEncode t \<Longrightarrow> s = t"
proof (induction s arbitrary: t)
  case Nil
  then show ?case by (cases t) (simp_all add: hexEncode_Cons, simp add: hexEncode_def)
next
  case (Cons c s)
  then obtain d t' where t: "t = d # t'"
    by (cases t) (simp_all add: hexEncode_Cons, simp add: hexEncode_def)
  let ?c = "of_char c :: nat" and ?d = "of_char d :: nat"
  from Cons.prems have eq: "hexDigits ! (?c div 16) = hexDigits ! (?d div 16)"
    "hexDigits ! (?c mod 16) = hexDigits ! (?d mod 16)" "hexEncode s = hexEncode t'"
    by (simp_all add: t hexEncode_Cons)
  have bound: "?c < 256" "?d < 256" by (rule nat_of_char_less_256)+
  have "?c div 16 < 16" "?d div 16 < 16"
    by (rule less_mult_imp_div_less, use bound in simp)+
  then have "?c div 16 = ?d div 16" using eq(1) by (rule hexDigits_inject)
  moreover have "?c mod 16 = ?d mod 16"
    by (rule hexDigits_inject [OF _ _ eq(2)]) simp_all
  ultimately have "?c = ?d" by (metis div_mult_mod_eq)
  then have "c = d" by simp
  with Cons.IH [OF eq(3)] t show ?case by simp
qed

subsection \<open>Padded indexes sort like numbers\<close>

lemma decimalValue_Cons:
  "decimalValue (c # s) = digitValue c * 10 ^ length s + decimalValue s"
proof (induction s rule: rev_induct)
  case Nil
  then show ?case by (simp add: decimalValue_def)
next
  case (snoc x s)
  have "decimalValue (c # s @ [x]) = 10 * decimalValue (c # s) + digitValue x"
    using decimalValue_snoc [of "c # s" x] by simp
  with snoc show ?case by (simp add: decimalValue_snoc)
qed

lemma digit_order:
  assumes "c \<in> digitChars" and "d \<in> digitChars"
  shows "c < d \<longleftrightarrow> digitValue c < digitValue d" and "c = d \<longleftrightarrow> digitValue c = digitValue d"
    and "digitValue c < 10"
proof -
  have lim: "48 \<le> (of_char e :: nat) \<and> (of_char e :: nat) < 58" if "e \<in> digitChars" for e
    using that by (auto simp: digitChars_def)
  show "c < d \<longleftrightarrow> digitValue c < digitValue d"
    using lim [OF assms(1)] lim [OF assms(2)] by (auto simp: less_char_def digitValue_def)
  show "digitValue c < 10" using lim [OF assms(1)] by (auto simp: digitValue_def)
  show "c = d \<longleftrightarrow> digitValue c = digitValue d"
  proof
    assume "digitValue c = digitValue d"
    then have "(of_char c :: nat) = of_char d"
      using lim [OF assms(1)] lim [OF assms(2)] unfolding digitValue_def by linarith
    then show "c = d" by simp
  qed simp
qed

lemma decimalValue_bound: "set s \<subseteq> digitChars \<Longrightarrow> decimalValue s < 10 ^ length s"
proof (induction s)
  case (Cons c s)
  then have b: "decimalValue s < 10 ^ length s" by simp
  have "digitValue c \<le> 9"
    using digit_order(3) [of c c] Cons.prems by simp
  then have "digitValue c * 10 ^ length s \<le> 9 * 10 ^ length s" by (rule mult_le_mono1)
  with b show ?case unfolding decimalValue_Cons length_Cons power_Suc by linarith
qed (simp add: decimalValue_def)

lemma digits_less_iff:
  "length s = length t \<Longrightarrow> set s \<subseteq> digitChars \<Longrightarrow> set t \<subseteq> digitChars \<Longrightarrow>
   s < t \<longleftrightarrow> decimalValue s < decimalValue t"
proof (induction s arbitrary: t)
  case Nil
  then show ?case by simp
next
  case (Cons c s)
  then obtain d t' where t: "t = d # t'" by (cases t) auto
  let ?p = "(10::nat) ^ length s"
  have b: "decimalValue s < ?p" "decimalValue t' < ?p"
    using Cons.prems decimalValue_bound [of s] decimalValue_bound [of t'] by (auto simp: t)
  have dig: "c \<in> digitChars" "d \<in> digitChars" using Cons.prems by (auto simp: t)
  have IH: "s < t' \<longleftrightarrow> decimalValue s < decimalValue t'"
    using Cons by (auto simp: t)
  have len: "length t' = length s" using Cons.prems(1) by (simp add: t)
  have step: "x < y \<Longrightarrow> u < ?p \<Longrightarrow> x * ?p + u < y * ?p" for x y u :: nat
  proof -
    assume "x < y" "u < ?p"
    then have "x * ?p + u < Suc x * ?p" by simp
    also have "\<dots> \<le> y * ?p" using \<open>x < y\<close> by (intro mult_le_mono1) simp
    finally show "x * ?p + u < y * ?p" .
  qed
  consider "digitValue c < digitValue d" | "digitValue c = digitValue d"
    | "digitValue d < digitValue c" by linarith
  then show ?case
  proof cases
    case 1
    then have "c < d" using dig digit_order(1) by simp
    moreover have "digitValue c * ?p + decimalValue s < digitValue d * ?p + decimalValue t'"
      using step [OF 1 b(1)] by linarith
    ultimately show ?thesis by (simp add: t decimalValue_Cons len)
  next
    case 2
    then have "c = d" using dig digit_order(2) by simp
    then show ?thesis using IH by (simp add: t decimalValue_Cons len)
  next
    case 3
    then have "d < c" using dig digit_order(1) by simp
    moreover have "digitValue d * ?p + decimalValue t' < digitValue c * ?p + decimalValue s"
      using step [OF 3 b(2)] by linarith
    ultimately show ?thesis by (auto simp: t decimalValue_Cons len)
  qed
qed

lemma to_string_length: "n < 10 ^ k \<Longrightarrow> 0 < k \<Longrightarrow> length (to_string n) \<le> k"
proof (induction k arbitrary: n)
  case (Suc k)
  show ?case
  proof (cases "n < 10")
    case True
    then show ?thesis by (simp add: to_string.simps [of n])
  next
    case False
    then have "0 < k" using Suc.prems by (cases k) auto
    moreover have "n div 10 < 10 ^ k" using Suc.prems by auto
    ultimately have "length (to_string (n div 10)) \<le> k" using Suc.IH by simp
    with False show ?thesis by (simp add: to_string.simps [of n])
  qed
qed simp

lemma decimalValue_pad: "decimalValue (replicate k (CHR ''0'') @ s) = decimalValue s"
  by (induction k) (simp_all add: decimalValue_Cons digitValue_def)

lemma paddedIndex_facts:
  "length (paddedIndex w) = 20" "set (paddedIndex w) \<subseteq> digitChars"
  "decimalValue (paddedIndex w) = unat w"
proof -
  have "unat w < 2 ^ 64" using unsigned_less [of w] by simp
  then have "unat w < 10 ^ 20" by simp
  then have l: "length (to_string (unat w)) \<le> 20" by (rule to_string_length) simp
  then show "length (paddedIndex w) = 20" by (auto simp: paddedIndex_def Let_def)
  show "set (paddedIndex w) \<subseteq> digitChars"
    using to_string_digits [of "unat w"]
    by (auto simp: paddedIndex_def Let_def digitChars_def set_replicate_conv_if)
  show "decimalValue (paddedIndex w) = unat w"
    by (simp add: paddedIndex_def Let_def decimalValue_pad)
qed

lemma paddedIndex_less_lemma: "paddedIndex v < paddedIndex w \<longleftrightarrow> v < w"
  using digits_less_iff [of "paddedIndex v" "paddedIndex w"]
  by (simp add: paddedIndex_facts word_less_nat_alt)

section \<open>Listing\<close>

lemma applyListOptions_plain:
  assumes "lo_before lo = None" and "lo_checkpointId lo = None" and "lo_limit lo = None"
    and "jempty (lo_metadataFilter lo)"
  shows "applyListOptions jeq cs ws lo =
    (let rs = map (listRecord ws) (sort_key olderKey cs) in
     if lo_order lo = NewestFirst then rev rs else rs)"
  using assms by (simp add: applyListOptions_def metadataMatches_def)

lemma cp_checkpointId_listRecord [simp]:
  "cp_checkpointId (tu_checkpoint (listRecord ws c)) = cp_checkpointId c"
  "cp_ns (tu_checkpoint (listRecord ws c)) = cp_ns c"
  "cp_threadId (tu_checkpoint (listRecord ws c)) = cp_threadId c"
  "cp_step (tu_checkpoint (listRecord ws c)) = cp_step c"
  "cp_createdAt (tu_checkpoint (listRecord ws c)) = cp_createdAt c"
  "cp_state (tu_checkpoint (listRecord ws c)) = cp_state c"
  by (simp_all add: listRecord_def Let_def)

lemma olderKey_listRecord [simp]: "olderKey (tu_checkpoint (listRecord ws c)) = olderKey c"
  by (simp add: olderKey_def)

lemma sorted_wrt_take: "sorted_wrt P xs \<Longrightarrow> sorted_wrt P (take n xs)"
  using sorted_wrt_append [of P "take n xs" "drop n xs"] by simp

lemma sorted_wrt_takeWhile: "sorted_wrt P xs \<Longrightarrow> sorted_wrt P (takeWhile Q xs)"
  using sorted_wrt_append [of P "takeWhile Q xs" "dropWhile Q xs"] by simp

lemma applyListOptions_sorted:
  "sorted_wrt (\<lambda>a b. if lo_order lo = NewestFirst
                     then olderKey (tu_checkpoint b) \<le> olderKey (tu_checkpoint a)
                     else olderKey (tu_checkpoint a) \<le> olderKey (tu_checkpoint b))
     (applyListOptions jeq cs ws lo)"
proof -
  let ?P = "\<lambda>a b. olderKey (tu_checkpoint a) \<le> olderKey (tu_checkpoint b)"
  have srt: "sorted_wrt (\<lambda>a b. olderKey a \<le> olderKey b) (sort_key olderKey cs)"
    using sorted_sort_key [of olderKey cs] by (simp add: sorted_map)
  define kept where "kept = filter (\<lambda>c. (case lo_checkpointId lo of None \<Rightarrow> True
                              | Some i \<Rightarrow> cp_checkpointId c = i) \<and>
                             metadataMatches jeq (cp_metadata c) (lo_metadataFilter lo))
     (case lo_before lo of None \<Rightarrow> sort_key olderKey cs
      | Some b \<Rightarrow> (if \<exists>c \<in> set (sort_key olderKey cs). cp_checkpointId c = b
                   then takeWhile (\<lambda>c. cp_checkpointId c \<noteq> b) (sort_key olderKey cs) else []))"
  have "sorted_wrt (\<lambda>a b. olderKey a \<le> olderKey b) kept"
    unfolding kept_def by (intro sorted_wrt_filter) (auto simp: srt sorted_wrt_takeWhile split: option.split)
  then have "sorted_wrt ?P (map (listRecord ws) kept)"
    by (simp add: sorted_wrt_map)
  moreover from this have "sorted_wrt (\<lambda>a b. ?P b a) (rev (map (listRecord ws) kept))"
    by (simp only: sorted_wrt_rev)
  ultimately show ?thesis
    unfolding applyListOptions_def Let_def kept_def [symmetric]
    by (cases "lo_order lo"; cases "lo_limit lo") (simp_all add: sorted_wrt_take)
qed

lemma applyListOptions_limit:
  "lo_limit lo = Some n \<Longrightarrow> length (applyListOptions jeq cs ws lo) \<le> n"
  by (simp add: applyListOptions_def Let_def)

lemma applyListOptions_sound:
  "t \<in> set (applyListOptions jeq cs ws lo) \<Longrightarrow>
   \<exists>c \<in> set cs. t = listRecord ws c \<and>
     (\<forall>i. lo_checkpointId lo = Some i \<longrightarrow> cp_checkpointId c = i) \<and>
     metadataMatches jeq (cp_metadata c) (lo_metadataFilter lo)"
  by (fastforce simp: applyListOptions_def Let_def split: option.splits if_splits
      dest!: in_set_takeD set_takeWhileD)

section \<open>The contract of a saver\<close>

text \<open>
  What the runtime relies on.  \<open>abs s\<close> is the map from thread, namespace and checkpoint id to
  the stored checkpoint.  Storing adds one entry or changes nothing; task writes and reads
  leave the map alone; a read by id returns the entry, a read of the latest returns an entry
  that no other entry of the namespace exceeds in step and creation time.  A read may fill in
  the pending writes of the checkpoint it returns.
\<close>

type_synonym ckey = "string \<times> string \<times> string"

definition ckeyOf :: "Checkpoint \<Rightarrow> ckey" where
  "ckeyOf c = (cp_threadId c, cp_ns c, cp_checkpointId c)"

definition agePair :: "Checkpoint \<Rightarrow> 64 word \<times> int" where
  "agePair c = (cp_step c, cp_createdAt c)"

definition sameCheckpoint :: "Checkpoint \<Rightarrow> Checkpoint \<Rightarrow> bool" where
  "sameCheckpoint c d \<longleftrightarrow> c = d\<lparr>cp_pendingWrites := cp_pendingWrites c\<rparr>"

lemma sameCheckpoint_fields:
  assumes "sameCheckpoint c d"
  shows "cp_parent c = cp_parent d" "cp_state c = cp_state d" "cp_step c = cp_step d"
    "cp_checkpointId c = cp_checkpointId d" "cp_ns c = cp_ns d" "cp_threadId c = cp_threadId d"
    "cp_nextTasks c = cp_nextTasks d" "cp_nextNodes c = cp_nextNodes d"
    "cp_createdAt c = cp_createdAt d" "cp_writes c = cp_writes d" "cp_metadata c = cp_metadata d"
proof -
  from assms obtain ws where "c = d\<lparr>cp_pendingWrites := ws\<rparr>" unfolding sameCheckpoint_def by blast
  then show "cp_parent c = cp_parent d" "cp_state c = cp_state d" "cp_step c = cp_step d"
    "cp_checkpointId c = cp_checkpointId d" "cp_ns c = cp_ns d" "cp_threadId c = cp_threadId d"
    "cp_nextTasks c = cp_nextTasks d" "cp_nextNodes c = cp_nextNodes d"
    "cp_createdAt c = cp_createdAt d" "cp_writes c = cp_writes d" "cp_metadata c = cp_metadata d"
    by simp_all
qed

locale saver =
  fixes ops :: "'s saver_ops" and inv :: "'s \<Rightarrow> bool" and abs :: "'s \<Rightarrow> ckey \<Rightarrow> Checkpoint option"
  assumes put_ok: "inv s \<Longrightarrow> so_put ops c s = (Inr u, s') \<Longrightarrow>
      inv s' \<and> abs s (ckeyOf c) = None \<and> abs s' = (abs s)(ckeyOf c \<mapsto> c)"
    and put_err: "inv s \<Longrightarrow> so_put ops c s = (Inl e, s') \<Longrightarrow> inv s' \<and> abs s' = abs s"
    and put_fresh: "inv s \<Longrightarrow> validateCheckpointForStore c = Inr () \<Longrightarrow> abs s (ckeyOf c) = None \<Longrightarrow>
      fst (so_put ops c s) = Inr ()"
    and put_duplicate: "inv s \<Longrightarrow> validateCheckpointForStore c = Inr () \<Longrightarrow>
      abs s (ckeyOf c) \<noteq> None \<Longrightarrow>
      fst (so_put ops c s) = err AlreadyExists ''checkpoint already exists''"
    and putWrites_frame: "inv s \<Longrightarrow> so_putWrites ops w s = (rw, s') \<Longrightarrow> inv s' \<and> abs s' = abs s"
    and getTuple_frame: "inv s \<Longrightarrow> so_getTuple ops q s = (rg, s') \<Longrightarrow> inv s' \<and> abs s' = abs s"
    and getTuple_at: "inv s \<Longrightarrow> t \<noteq> [] \<Longrightarrow> i \<noteq> [] \<Longrightarrow>
      (case abs s (t, n, i) of
         None \<Rightarrow> fst (so_getTuple ops (CheckpointQuery_at t i n) s) = Inr None
       | Some c \<Rightarrow> \<exists>rec. fst (so_getTuple ops (CheckpointQuery_at t i n) s) = Inr (Some rec) \<and>
           sameCheckpoint (tu_checkpoint rec) c)"
    and getTuple_latest: "inv s \<Longrightarrow> t \<noteq> [] \<Longrightarrow>
      (if \<forall>i. abs s (t, n, i) = None
       then fst (so_getTuple ops (CheckpointQuery_latest t n) s) = Inr None
       else \<exists>rec c i. fst (so_getTuple ops (CheckpointQuery_latest t n) s) = Inr (Some rec) \<and>
         abs s (t, n, i) = Some c \<and> sameCheckpoint (tu_checkpoint rec) c \<and>
         (\<forall>j d. abs s (t, n, j) = Some d \<longrightarrow> agePair d \<le> agePair c))"
    and abs_key: "inv s \<Longrightarrow> abs s k = Some c \<Longrightarrow> ckeyOf c = k"
begin

lemma put_monotone: "inv s \<Longrightarrow> so_put ops c s = (r, s') \<Longrightarrow> inv s' \<and> abs s \<subseteq>\<^sub>m abs s'"
proof (cases r)
  case (Inl e)
  assume "inv s" "so_put ops c s = (r, s')"
  with Inl put_err [of s c e s'] show ?thesis by simp
next
  case (Inr u)
  assume "inv s" "so_put ops c s = (r, s')"
  with Inr put_ok [of s c u s'] show ?thesis by (auto simp: map_le_def)
qed

lemma put_get:
  assumes "inv s" and "so_put ops c s = (Inr u, s')" and "cp_threadId c \<noteq> []" "cp_checkpointId c \<noteq> []"
  shows "\<exists>rec. fst (so_getTuple ops (CheckpointQuery_at (cp_threadId c) (cp_checkpointId c) (cp_ns c)) s')
           = Inr (Some rec) \<and> sameCheckpoint (tu_checkpoint rec) c"
proof -
  have "inv s'" and "abs s' (cp_threadId c, cp_ns c, cp_checkpointId c) = Some c"
    using put_ok [OF assms(1,2)] by (auto simp: ckeyOf_def)
  with getTuple_at [OF _ assms(3,4), of s' "cp_ns c"] show ?thesis by simp
qed

text \<open>
  The walk of the delta history ends when the parents of the stored checkpoints are ranked:
  fuel above the rank of the first parent is enough.
\<close>

lemma deltaLoop_terminates:
  assumes "inv s" and "dq_threadId dq \<noteq> []"
    and rank: "\<And>i c p. abs s (dq_threadId dq, dq_ns dq, i) = Some c \<Longrightarrow> cp_parent c = Some p \<Longrightarrow>
      p \<noteq> [] \<and> rank p < (rank i :: nat)"
    and "\<And>p. cursor = Some p \<Longrightarrow> p \<noteq> [] \<and> rank p < fuel"
  shows "\<exists>r s'. deltaLoop fuel ops dq cursor remaining hs s = Some (r, s') \<and> abs s' = abs s \<and> inv s'"
  using assms
proof (induction fuel arbitrary: cursor remaining hs s)
  case 0
  then have "cursor = None" by (cases cursor) auto
  with 0 show ?case by simp
next
  case (Suc fuel)
  show ?case
  proof (cases cursor)
    case None
    with Suc.prems show ?thesis by simp
  next
    case (Some p)
    with Suc.prems have p: "p \<noteq> []" "rank p < Suc fuel" by auto
    obtain r s' where g: "so_getTuple ops (CheckpointQuery_at (dq_threadId dq) p (dq_ns dq)) s = (r, s')"
      by (cases "so_getTuple ops (CheckpointQuery_at (dq_threadId dq) p (dq_ns dq)) s")
    have fr: "inv s'" "abs s' = abs s" using getTuple_frame [OF Suc.prems(1) g] by auto
    show ?thesis
    proof (cases "abs s (dq_threadId dq, dq_ns dq, p)")
      case None
      with getTuple_at [OF Suc.prems(1,2) p(1), of "dq_ns dq"] g have "r = Inr None" by simp
      with g fr Some Suc.prems(1) show ?thesis by simp
    next
      case (Some c)
      with getTuple_at [OF Suc.prems(1,2) p(1), of "dq_ns dq"] g obtain rec
        where rec: "r = Inr (Some rec)" "sameCheckpoint (tu_checkpoint rec) c" by auto
      from rec(2) have par: "cp_parent (tu_checkpoint rec) = cp_parent c"
        by (rule sameCheckpoint_fields(1))
      have loop: "\<exists>r s''. deltaLoop fuel ops dq (cp_parent (tu_checkpoint rec)) rem' hs' s' = Some (r, s'') \<and>
          abs s'' = abs s' \<and> inv s''" for rem' hs'
      proof (rule Suc.IH [OF fr(1) Suc.prems(2)])
        show "p' \<noteq> [] \<and> rank p' < rank i"
          if "abs s' (dq_threadId dq, dq_ns dq, i) = Some c'" "cp_parent c' = Some p'" for i c' p'
          using Suc.prems(3) that fr(2) by simp
        show "p' \<noteq> [] \<and> rank p' < fuel" if "cp_parent (tu_checkpoint rec) = Some p'" for p'
          using Suc.prems(3) [OF Some, of p'] that par p(2) by auto
      qed
      have "\<exists>rem' hs'. deltaLoop (Suc fuel) ops dq (Some p) remaining hs s =
          (if remaining = [] then Some (Inr hs, s)
           else deltaLoop fuel ops dq (cp_parent (tu_checkpoint rec)) rem' hs' s')"
        unfolding deltaLoop.simps g rec(1) Let_def prod.case sum.case option.case
        by (intro exI) (rule refl)
      then obtain rem' hs' where eq: "deltaLoop (Suc fuel) ops dq (Some p) remaining hs s =
          (if remaining = [] then Some (Inr hs, s)
           else deltaLoop fuel ops dq (cp_parent (tu_checkpoint rec)) rem' hs' s')"
        by blast
      show ?thesis
      proof (cases "remaining = []")
        case True
        then show ?thesis using eq \<open>cursor = Some p\<close> Suc.prems(1) by auto
      next
        case False
        then show ?thesis using eq loop [of rem' hs'] \<open>cursor = Some p\<close> fr by auto
      qed
    qed
  qed
qed

end

end
