(* ===== verification/Memory_Saver.thy ===== *)
theory Memory_Saver
  imports Checkpoints
begin

text \<open>
  \<^verbatim>\<open>InMemorySaver\<close> (\<^verbatim>\<open>src/src/langgraph/checkpoint/in_memory_saver.cpp\<close>): the checkpoints
  of each thread in one list kept in order of step and creation time, and the task writes
  under their storage key.  Every method takes the mutex for its whole body, so a method is one
  atomic step on the state.  The theory shows the invariant of the lists, interprets the
  contract \<open>saver\<close>, and gives the effect of every maintenance method.
\<close>

record InMemorySaver =
  ims_checkpoints :: "(string, Checkpoint list) omap"
  ims_writes :: "(string, CheckpointWrite list) omap"

definition emptySaver :: InMemorySaver where
  "emptySaver = \<lparr>ims_checkpoints = [], ims_writes = []\<rparr>"

definition threadCheckpoints :: "InMemorySaver \<Rightarrow> string \<Rightarrow> Checkpoint list" where
  "threadCheckpoints s t = (case map_of (ims_checkpoints s) t of None \<Rightarrow> [] | Some cs \<Rightarrow> cs)"

definition storedWrites :: "InMemorySaver \<Rightarrow> string \<Rightarrow> CheckpointWrite list" where
  "storedWrites s key = (case map_of (ims_writes s) key of None \<Rightarrow> [] | Some ws \<Rightarrow> ws)"

section \<open>Methods\<close>

definition IMS_put :: "Checkpoint \<Rightarrow> (InMemorySaver, unit) sres" where
  "IMS_put c s =
     (case validateCheckpointForStore c of
        Inl e \<Rightarrow> (Inl e, s)
      | Inr _ \<Rightarrow>
          let cs = threadCheckpoints s (cp_threadId c) in
          if \<exists>d \<in> set cs. cp_ns d = cp_ns c \<and> cp_checkpointId d = cp_checkpointId c
          then (err AlreadyExists ''checkpoint already exists'', s)
          else (Inr (), s\<lparr>ims_checkpoints :=
                  omap_put (cp_threadId c) (sort_key agePair (cs @ [c])) (ims_checkpoints s)\<rparr>))"

text \<open>The identity and the order of the stored writes of a checkpoint.\<close>

definition writeIdentity :: "CheckpointWrite \<Rightarrow> string \<times> string \<times> 64 word option" where
  "writeIdentity w = (cw_taskId w, cw_taskPath w, cw_order w)"

definition orderOrMax :: "64 word option \<Rightarrow> 64 word" where
  "orderOrMax ord = (case ord of None \<Rightarrow> - 1 | Some n \<Rightarrow> n)"

definition writeSortKey :: "CheckpointWrite \<Rightarrow> string \<times> string \<times> 64 word" where
  "writeSortKey w = (cw_taskId w, cw_taskPath w, orderOrMax (cw_order w))"

text \<open>Overwrite the first stored write with the same identity, or append.\<close>

fun upsertWrite :: "CheckpointWrite \<Rightarrow> CheckpointWrite list \<Rightarrow> CheckpointWrite list" where
  "upsertWrite w [] = [w]"
| "upsertWrite w (x # xs) =
     (if writeIdentity x = writeIdentity w then w # xs else x # upsertWrite w xs)"

definition IMS_putWrites :: "CheckpointWriteSet \<Rightarrow> (InMemorySaver, unit) sres" where
  "IMS_putWrites ws s =
     (case normalizeWriteSet ws of
        Inl e \<Rightarrow> (Inl e, s)
      | Inr n \<Rightarrow>
          let key = checkpointWriteStorageKey (ws_threadId n) (ws_ns n) (ws_checkpointId n) in
          (Inr (), s\<lparr>ims_writes :=
             omap_put key (sort_key writeSortKey (fold upsertWrite (ws_writes n) (storedWrites s key)))
               (ims_writes s)\<rparr>))"

definition IMS_getTuple :: "CheckpointQuery \<Rightarrow> (InMemorySaver, CheckpointTuple option) sres" where
  "IMS_getTuple q s =
     (case validateCheckpointQuery q of
        Inl e \<Rightarrow> (Inl e, s)
      | Inr _ \<Rightarrow>
          let cs = threadCheckpoints s (cq_threadId q);
              found = (case cq_checkpointId q of
                         Some i \<Rightarrow> List.find (\<lambda>c. cp_ns c = cq_ns q \<and> cp_checkpointId c = i) cs
                       | None \<Rightarrow> List.find (\<lambda>c. cp_ns c = cq_ns q) (rev cs)) in
          (case found of
             None \<Rightarrow> (Inr None, s)
           | Some c \<Rightarrow>
               let stored = storedWrites s
                     (checkpointWriteStorageKey (cp_threadId c) (cp_ns c) (cp_checkpointId c));
                   pending = (if cp_pendingWrites c = [] then stored else cp_pendingWrites c) in
               (Inr (Some \<lparr>tu_checkpoint = (if cp_pendingWrites c = [] \<and> pending \<noteq> []
                                          then c\<lparr>cp_pendingWrites := pending\<rparr> else c),
                          tu_pendingWrites = pending\<rparr>), s)))"

definition IMS_get :: "CheckpointQuery \<Rightarrow> (InMemorySaver, Checkpoint option) sres" where
  "IMS_get q = sbind (IMS_getTuple q) (\<lambda>t. sret (map_option tu_checkpoint t))"

definition IMS_list ::
  "(json \<Rightarrow> json \<Rightarrow> bool) \<Rightarrow> CheckpointListOptions \<Rightarrow> (InMemorySaver, CheckpointTuple list) sres" where
  "IMS_list jeq lo s =
     (case validateCheckpointListOptions lo of
        Inl e \<Rightarrow> (Inl e, s)
      | Inr _ \<Rightarrow>
          (case map_of (ims_checkpoints s) (lo_threadId lo) of
             None \<Rightarrow> (Inr [], s)
           | Some all \<Rightarrow>
               let cs = filter (\<lambda>c. case lo_ns lo of None \<Rightarrow> True | Some n \<Rightarrow> cp_ns c = n) all in
               (Inr (applyListOptions jeq cs (ims_writes s) lo), s)))"

definition IMS_deleteThread :: "string \<Rightarrow> (InMemorySaver, unit) sres" where
  "IMS_deleteThread t s =
     (Inr (), s\<lparr>ims_checkpoints := omap_del t (ims_checkpoints s),
                ims_writes := filter (\<lambda>(key, _).
                  \<not> prefix (to_string (length t) @ '':'' @ t @ ''|'') key) (ims_writes s)\<rparr>)"

definition maintenanceOf ::
  "nat \<Rightarrow> (Checkpoint \<Rightarrow> bool) \<Rightarrow> Checkpoint list \<Rightarrow> CheckpointMaintenanceResult" where
  "maintenanceOf removed counts cs =
     (let ks = filter counts cs in
      \<lparr>mr_removed = removed, mr_remaining = length ks,
       mr_latest = (if ks = [] then [] else cp_checkpointId (last ks))\<rparr>)"

definition IMS_prune ::
  "string \<Rightarrow> CheckpointPruneOptions \<Rightarrow> (InMemorySaver, CheckpointMaintenanceResult) sres" where
  "IMS_prune t po s =
     (case map_of (ims_checkpoints s) t of
        None \<Rightarrow> (Inr \<lparr>mr_removed = 0, mr_remaining = 0, mr_latest = []\<rparr>, s)
      | Some cs \<Rightarrow>
          let matching = filter (\<lambda>c. cp_ns c = pr_ns po) cs;
              removeCount = (if pr_keepLatest po < length matching
                             then length matching - pr_keepLatest po else 0);
              removedIds = oset_of (map cp_checkpointId (take removeCount matching));
              kept = filter (\<lambda>c. \<not> (cp_ns c = pr_ns po \<and> cp_checkpointId c \<in> set removedIds)) cs;
              writes = fold (\<lambda>i ws. omap_del (checkpointWriteStorageKey t (pr_ns po) i) ws)
                         removedIds (ims_writes s) in
          (Inr (maintenanceOf (length removedIds) (\<lambda>c. cp_ns c = pr_ns po) kept),
           s\<lparr>ims_checkpoints := omap_put t kept (ims_checkpoints s), ims_writes := writes\<rparr>))"

definition runSelected :: "CheckpointDeleteForRunsOptions \<Rightarrow> Checkpoint \<Rightarrow> bool" where
  "runSelected dr c \<longleftrightarrow>
     (case dr_ns dr of None \<Rightarrow> True | Some n \<Rightarrow> cp_ns c = n) \<and>
     checkpointIdMatchesRun (cp_checkpointId c) (dr_runIds dr)"

definition IMS_deleteForRuns ::
  "CheckpointDeleteForRunsOptions \<Rightarrow> (InMemorySaver, CheckpointMaintenanceResult) sres" where
  "IMS_deleteForRuns dr s =
     (case validateDeleteForRunsOptions dr of
        Inl e \<Rightarrow> (Inl e, s)
      | Inr _ \<Rightarrow>
          (case map_of (ims_checkpoints s) (dr_threadId dr) of
             None \<Rightarrow> (Inr \<lparr>mr_removed = 0, mr_remaining = 0, mr_latest = []\<rparr>, s)
           | Some cs \<Rightarrow>
               let removed = filter (runSelected dr) cs;
                   kept = filter (\<lambda>c. \<not> runSelected dr c) cs;
                   affected = map cp_ns removed;
                   writes = fold (\<lambda>c ws. omap_del (checkpointWriteStorageKey (dr_threadId dr)
                                (cp_ns c) (cp_checkpointId c)) ws) removed (ims_writes s) in
               (Inr (maintenanceOf (length removed)
                       (\<lambda>c. affected = [] \<or> cp_ns c \<in> set affected) kept),
                s\<lparr>ims_checkpoints := omap_put (dr_threadId dr) kept (ims_checkpoints s),
                  ims_writes := writes\<rparr>)))"

definition ims_ops :: "(json \<Rightarrow> json \<Rightarrow> bool) \<Rightarrow> InMemorySaver saver_ops" where
  "ims_ops jeq = \<lparr>so_put = IMS_put, so_putWrites = IMS_putWrites, so_getTuple = IMS_getTuple,
     so_list = IMS_list jeq, so_deleteThread = IMS_deleteThread\<rparr>"

definition IMS_copyThread ::
  "(json \<Rightarrow> json \<Rightarrow> bool) \<Rightarrow> CheckpointCopyThreadOptions \<Rightarrow>
   (InMemorySaver, CheckpointMaintenanceResult) sres" where
  "IMS_copyThread jeq co = copyThreadWith (ims_ops jeq) co"

definition IMS_getDeltaChannelHistory ::
  "nat \<Rightarrow> (json \<Rightarrow> json \<Rightarrow> bool) \<Rightarrow> DeltaChannelHistoryQuery \<Rightarrow> InMemorySaver \<Rightarrow>
   (histories result \<times> InMemorySaver) option" where
  "IMS_getDeltaChannelHistory fuel jeq dq s = getDeltaChannelHistoryWith fuel (ims_ops jeq) dq s"

section \<open>Invariant\<close>

definition thread_list_wf :: "string \<Rightarrow> Checkpoint list \<Rightarrow> bool" where
  "thread_list_wf t cs \<longleftrightarrow>
     sorted (map agePair cs) \<and> distinct (map (\<lambda>c. (cp_ns c, cp_checkpointId c)) cs) \<and>
     (\<forall>c \<in> set cs. cp_threadId c = t \<and> cp_checkpointId c \<noteq> []) \<and> t \<noteq> []"

definition ims_wf :: "InMemorySaver \<Rightarrow> bool" where
  "ims_wf s \<longleftrightarrow> omap_wf (ims_checkpoints s) \<and> omap_wf (ims_writes s) \<and>
     (\<forall>t cs. map_of (ims_checkpoints s) t = Some cs \<longrightarrow> thread_list_wf t cs) \<and>
     (\<forall>key. omap_has key (ims_writes s) \<longrightarrow> (\<exists>t n i. key = checkpointWriteStorageKey t n i)) \<and>
     (\<forall>key ws. map_of (ims_writes s) key = Some ws \<longrightarrow>
        distinct (map writeIdentity ws) \<and> sorted (map writeSortKey ws))"

definition ims_abs :: "InMemorySaver \<Rightarrow> ckey \<Rightarrow> Checkpoint option" where
  "ims_abs s k = (case k of (t, n, i) \<Rightarrow>
     List.find (\<lambda>c. cp_ns c = n \<and> cp_checkpointId c = i) (threadCheckpoints s t))"

lemma ims_wf_empty: "ims_wf emptySaver"
  by (simp add: ims_wf_def emptySaver_def omap_has_def)

lemma distinct_sort_key: "distinct (map f (sort_key g xs)) \<longleftrightarrow> distinct (map f xs)"
  by (simp add: distinct_map)

lemma thread_list_wf_put:
  assumes "cs = [] \<or> thread_list_wf (cp_threadId c) cs"
    and "validateCheckpointForStore c = Inr ()"
    and "\<forall>d \<in> set cs. \<not> (cp_ns d = cp_ns c \<and> cp_checkpointId d = cp_checkpointId c)"
  shows "thread_list_wf (cp_threadId c) (sort_key agePair (cs @ [c]))"
proof -
  have v: "cp_threadId c \<noteq> []" "cp_checkpointId c \<noteq> []"
    using assms(2) by (auto simp: validateCheckpointForStore_def split: if_splits)
  have "distinct (map (\<lambda>c. (cp_ns c, cp_checkpointId c)) (cs @ [c]))"
    using assms(1,3) by (auto simp: thread_list_wf_def)
  with v assms(1) show ?thesis
    by (auto simp: thread_list_wf_def distinct_sort_key simp del: map_append distinct_append)
qed

lemma threadCheckpoints_wf: "ims_wf s \<Longrightarrow> threadCheckpoints s t = [] \<or> thread_list_wf t (threadCheckpoints s t)"
  by (auto simp: ims_wf_def threadCheckpoints_def split: option.split)

lemma ims_wf_setThread:
  assumes "ims_wf s" and "thread_list_wf t cs"
  shows "ims_wf (s\<lparr>ims_checkpoints := omap_put t cs (ims_checkpoints s)\<rparr>)"
  using assms by (auto simp: ims_wf_def)

lemma IMS_put_wf: "ims_wf s \<Longrightarrow> ims_wf (snd (IMS_put c s))"
  using threadCheckpoints_wf [of s "cp_threadId c"]
  by (auto simp: IMS_put_def Let_def split: sum.split intro!: ims_wf_setThread thread_list_wf_put)

lemma set_upsertWrite_ids:
  "writeIdentity ` set (upsertWrite w xs) = insert (writeIdentity w) (writeIdentity ` set xs)"
  by (induction w xs rule: upsertWrite.induct) auto

lemma distinct_upsertWrite:
  "distinct (map writeIdentity xs) \<Longrightarrow> distinct (map writeIdentity (upsertWrite w xs))"
proof (induction w xs rule: upsertWrite.induct)
  case (2 w x xs)
  have "set (map writeIdentity (upsertWrite w xs)) = insert (writeIdentity w) (writeIdentity ` set xs)"
    using set_upsertWrite_ids by simp
  with 2 show ?case by auto
qed simp

lemma distinct_fold_upsertWrite:
  "distinct (map writeIdentity xs) \<Longrightarrow> distinct (map writeIdentity (fold upsertWrite ws xs))"
  by (induction ws arbitrary: xs) (auto simp: distinct_upsertWrite)

lemma IMS_putWrites_wf: "ims_wf s \<Longrightarrow> ims_wf (snd (IMS_putWrites ws s))"
proof -
  assume wf: "ims_wf s"
  show ?thesis
  proof (cases "normalizeWriteSet ws")
    case (Inr n)
    let ?key = "checkpointWriteStorageKey (ws_threadId n) (ws_ns n) (ws_checkpointId n)"
    have d: "distinct (map writeIdentity (storedWrites s ?key))"
      using wf by (auto simp: ims_wf_def storedWrites_def split: option.split)
    let ?l = "sort_key writeSortKey (fold upsertWrite (ws_writes n) (storedWrites s ?key))"
    have l: "distinct (map writeIdentity ?l)" "sorted (map writeSortKey ?l)"
      using distinct_fold_upsertWrite [OF d] by (simp_all add: distinct_sort_key)
    have "ims_wf (s\<lparr>ims_writes := omap_put ?key ?l (ims_writes s)\<rparr>)"
      using wf l unfolding ims_wf_def by (auto simp: omap_has_def split: if_splits)
    with Inr show ?thesis by (simp add: IMS_putWrites_def Let_def)
  qed (use wf in \<open>simp add: IMS_putWrites_def\<close>)
qed

section \<open>The contract holds\<close>

lemma find_unique:
  assumes "distinct (map key xs)"
  shows "List.find (\<lambda>x. key x = k) xs = Some x \<longleftrightarrow> x \<in> set xs \<and> key x = k"
  using assms by (induction xs) auto

lemma ims_abs_iff:
  assumes "ims_wf s"
  shows "ims_abs s (t, n, i) = Some c \<longleftrightarrow>
    c \<in> set (threadCheckpoints s t) \<and> cp_ns c = n \<and> cp_checkpointId c = i"
proof -
  have "distinct (map (\<lambda>c. (cp_ns c, cp_checkpointId c)) (threadCheckpoints s t))"
    using threadCheckpoints_wf [OF assms, of t] by (auto simp: thread_list_wf_def)
  from find_unique [OF this, of "(n, i)" c] show ?thesis by (simp add: ims_abs_def)
qed

lemma ims_abs_None_iff:
  "ims_abs s (t, n, i) = None \<longleftrightarrow>
    (\<forall>c \<in> set (threadCheckpoints s t). \<not> (cp_ns c = n \<and> cp_checkpointId c = i))"
  by (auto simp: ims_abs_def find_None_iff)

lemma map_option_ext: "(\<And>x v. f x = Some v \<longleftrightarrow> g x = Some v) \<Longrightarrow> f = g"
  by (rule ext) (metis not_None_eq)

lemma threadCheckpoints_put [simp]:
  "threadCheckpoints (s\<lparr>ims_checkpoints := omap_put t cs (ims_checkpoints s)\<rparr>) u =
     (if u = t then cs else threadCheckpoints s u)"
  by (simp add: threadCheckpoints_def)

lemma IMS_put_Inr:
  assumes "IMS_put c s = (Inr u, s')"
  shows "validateCheckpointForStore c = Inr ()"
    and "\<forall>d \<in> set (threadCheckpoints s (cp_threadId c)).
      \<not> (cp_ns d = cp_ns c \<and> cp_checkpointId d = cp_checkpointId c)"
    and "s' = s\<lparr>ims_checkpoints := omap_put (cp_threadId c)
      (sort_key agePair (threadCheckpoints s (cp_threadId c) @ [c])) (ims_checkpoints s)\<rparr>"
  using assms by (auto simp: IMS_put_def Let_def split: sum.splits if_splits)

lemma IMS_put_abs:
  assumes "ims_wf s" and "IMS_put c s = (Inr u, s')"
  shows "ims_abs s (ckeyOf c) = None" and "ims_abs s' = (ims_abs s)(ckeyOf c \<mapsto> c)"
proof -
  note p = IMS_put_Inr [OF assms(2)]
  show "ims_abs s (ckeyOf c) = None"
    using p(2) by (auto simp: ckeyOf_def ims_abs_None_iff)
  have wf': "ims_wf s'" using IMS_put_wf [OF assms(1), of c] assms(2) by simp
  have thr: "threadCheckpoints s' u = (if u = cp_threadId c
      then sort_key agePair (threadCheckpoints s u @ [c]) else threadCheckpoints s u)" for u
    using p(3) by simp
  show "ims_abs s' = (ims_abs s)(ckeyOf c \<mapsto> c)"
  proof (rule map_option_ext)
    fix k :: ckey and d
    obtain t n i where k: "k = (t, n, i)" by (cases k)
    show "ims_abs s' k = Some d \<longleftrightarrow> ((ims_abs s)(ckeyOf c \<mapsto> c)) k = Some d"
      using p(2) by (auto simp: k ims_abs_iff [OF wf'] ims_abs_iff [OF assms(1)] ckeyOf_def thr)
  qed
qed

lemma sorted_find_rev:
  assumes "sorted (map f xs)" and "List.find P (rev xs) = Some x"
  shows "x \<in> set xs \<and> P x \<and> (\<forall>y \<in> set xs. P y \<longrightarrow> f y \<le> f x)"
  using assms
proof (induction xs rule: rev_induct)
  case (snoc a xs)
  show ?case
  proof (cases "P a")
    case True
    with snoc.prems show ?thesis by (auto simp: sorted_append)
  next
    case False
    with snoc show ?thesis by (auto simp: sorted_append)
  qed
qed simp

lemma IMS_getTuple_at:
  assumes "t \<noteq> []" and "i \<noteq> []"
  shows "case ims_abs s (t, n, i) of
     None \<Rightarrow> fst (IMS_getTuple (CheckpointQuery_at t i n) s) = Inr None
   | Some c \<Rightarrow> \<exists>rec. fst (IMS_getTuple (CheckpointQuery_at t i n) s) = Inr (Some rec) \<and>
       sameCheckpoint (tu_checkpoint rec) c"
  using assms
  by (auto simp: IMS_getTuple_def CheckpointQuery_at_def validateCheckpointQuery_def ims_abs_def
      Let_def sameCheckpoint_def split: option.split)

lemma IMS_getTuple_latest:
  assumes "ims_wf s" and "t \<noteq> []"
  shows "if \<forall>i. ims_abs s (t, n, i) = None
     then fst (IMS_getTuple (CheckpointQuery_latest t n) s) = Inr None
     else \<exists>rec c i. fst (IMS_getTuple (CheckpointQuery_latest t n) s) = Inr (Some rec) \<and>
       ims_abs s (t, n, i) = Some c \<and> sameCheckpoint (tu_checkpoint rec) c \<and>
       (\<forall>j d. ims_abs s (t, n, j) = Some d \<longrightarrow> agePair d \<le> agePair c)"
proof (cases "List.find (\<lambda>c. cp_ns c = n) (rev (threadCheckpoints s t))")
  case None
  then have "\<forall>i. ims_abs s (t, n, i) = None"
    by (auto simp: ims_abs_None_iff find_None_iff)
  moreover have "fst (IMS_getTuple (CheckpointQuery_latest t n) s) = Inr None"
    using None assms(2)
    by (simp add: IMS_getTuple_def CheckpointQuery_latest_def validateCheckpointQuery_def)
  ultimately show ?thesis by simp
next
  case (Some c)
  have "sorted (map agePair (threadCheckpoints s t))"
    using threadCheckpoints_wf [OF assms(1), of t] by (auto simp: thread_list_wf_def)
  from sorted_find_rev [OF this Some]
  have c: "c \<in> set (threadCheckpoints s t)" "cp_ns c = n"
    "\<forall>d \<in> set (threadCheckpoints s t). cp_ns d = n \<longrightarrow> agePair d \<le> agePair c" by auto
  have a: "ims_abs s (t, n, cp_checkpointId c) = Some c"
    using c by (simp add: ims_abs_iff [OF assms(1)])
  obtain rec where rec: "fst (IMS_getTuple (CheckpointQuery_latest t n) s) = Inr (Some rec)"
    "sameCheckpoint (tu_checkpoint rec) c"
    using Some assms(2)
    by (auto simp: IMS_getTuple_def CheckpointQuery_latest_def validateCheckpointQuery_def Let_def
        sameCheckpoint_def)
  have "\<forall>j d. ims_abs s (t, n, j) = Some d \<longrightarrow> agePair d \<le> agePair c"
    using c(3) by (simp add: ims_abs_iff [OF assms(1)])
  with a rec show ?thesis by auto
qed

lemma IMS_getTuple_state: "snd (IMS_getTuple q s) = s"
  by (auto simp: IMS_getTuple_def Let_def split: sum.split option.split)

lemma ims_abs_writes [simp]: "ims_abs (s\<lparr>ims_writes := w\<rparr>) = ims_abs s"
  by (auto simp: ims_abs_def threadCheckpoints_def fun_eq_iff)

lemma IMS_putWrites_abs: "ims_abs (snd (IMS_putWrites w s)) = ims_abs s"
  by (auto simp: IMS_putWrites_def Let_def split: sum.split)

interpretation ims: saver "ims_ops jeq" ims_wf ims_abs
proof unfold_locales
  fix s c u s'
  assume "ims_wf s" "so_put (ims_ops jeq) c s = (Inr u, s')"
  then show "ims_wf s' \<and> ims_abs s (ckeyOf c) = None \<and> ims_abs s' = (ims_abs s)(ckeyOf c \<mapsto> c)"
    using IMS_put_abs [of s c u s'] IMS_put_wf [of s c] by (simp add: ims_ops_def)
next
  fix s c e s'
  assume "ims_wf s" "so_put (ims_ops jeq) c s = (Inl e, s')"
  then show "ims_wf s' \<and> ims_abs s' = ims_abs s"
    by (auto simp: ims_ops_def IMS_put_def Let_def split: sum.splits if_splits)
next
  fix s c
  assume "ims_wf s" "validateCheckpointForStore c = Inr ()" "ims_abs s (ckeyOf c) = None"
  then show "fst (so_put (ims_ops jeq) c s) = Inr ()"
    by (auto simp: ims_ops_def IMS_put_def Let_def ckeyOf_def ims_abs_None_iff)
next
  fix s c
  assume "ims_wf s" "validateCheckpointForStore c = Inr ()" "ims_abs s (ckeyOf c) \<noteq> None"
  then show "fst (so_put (ims_ops jeq) c s) = err AlreadyExists ''checkpoint already exists''"
    by (auto simp: ims_ops_def IMS_put_def Let_def ckeyOf_def ims_abs_iff)
next
  fix s w s' and rw :: "unit result"
  assume "ims_wf s" "so_putWrites (ims_ops jeq) w s = (rw, s')"
  then show "ims_wf s' \<and> ims_abs s' = ims_abs s"
    using IMS_putWrites_wf [of s w] IMS_putWrites_abs [of w s] by (simp add: ims_ops_def)
next
  fix s q s' and rg :: "CheckpointTuple option result"
  assume "ims_wf s" "so_getTuple (ims_ops jeq) q s = (rg, s')"
  then show "ims_wf s' \<and> ims_abs s' = ims_abs s"
    using IMS_getTuple_state [of q s] by (simp add: ims_ops_def)
next
  fix s and t i n :: string
  assume "ims_wf s" "t \<noteq> []" "i \<noteq> []"
  then show "case ims_abs s (t, n, i) of
       None \<Rightarrow> fst (so_getTuple (ims_ops jeq) (CheckpointQuery_at t i n) s) = Inr None
     | Some c \<Rightarrow> \<exists>rec. fst (so_getTuple (ims_ops jeq) (CheckpointQuery_at t i n) s) = Inr (Some rec) \<and>
         sameCheckpoint (tu_checkpoint rec) c"
    using IMS_getTuple_at [of t i n s] unfolding ims_ops_def saver_ops.simps by simp
next
  fix s and t n :: string
  assume "ims_wf s" "t \<noteq> []"
  then show "if \<forall>i. ims_abs s (t, n, i) = None
       then fst (so_getTuple (ims_ops jeq) (CheckpointQuery_latest t n) s) = Inr None
       else \<exists>rec c i. fst (so_getTuple (ims_ops jeq) (CheckpointQuery_latest t n) s) = Inr (Some rec) \<and>
         ims_abs s (t, n, i) = Some c \<and> sameCheckpoint (tu_checkpoint rec) c \<and>
         (\<forall>j d. ims_abs s (t, n, j) = Some d \<longrightarrow> agePair d \<le> agePair c)"
    using IMS_getTuple_latest [of s t n] unfolding ims_ops_def saver_ops.simps by simp
next
  fix s k c
  assume "ims_wf s" "ims_abs s k = Some c"
  then show "ckeyOf c = k"
    using threadCheckpoints_wf [of s "fst k"]
    by (cases k) (auto simp: ims_abs_iff ckeyOf_def thread_list_wf_def)
qed

section \<open>Maintenance\<close>

text \<open>Deleting a thread removes its checkpoints and its task writes, and nothing of another thread.\<close>

lemma map_of_filter_key: "map_of (filter (\<lambda>(k, _). P k) m) k = (if P k then map_of m k else None)"
  by (induction m) auto

lemma IMS_deleteThread_abs:
  "ims_abs (snd (IMS_deleteThread t s)) (t', n, i) = (if t' = t then None else ims_abs s (t', n, i))"
  by (simp add: IMS_deleteThread_def ims_abs_def threadCheckpoints_def)

lemma IMS_deleteThread_writes:
  "storedWrites (snd (IMS_deleteThread t s)) (checkpointWriteStorageKey t' n i) =
     (if t' = t then [] else storedWrites s (checkpointWriteStorageKey t' n i))"
  by (auto simp: IMS_deleteThread_def storedWrites_def map_of_filter_key
      threadPrefix_iff [simplified])

lemma IMS_deleteThread_wf: "ims_wf s \<Longrightarrow> ims_wf (snd (IMS_deleteThread t s))"
  by (auto simp: ims_wf_def IMS_deleteThread_def omap_wf_filter omap_has_def map_of_filter_key
      split: if_splits)

lemma filter_take_drop:
  assumes "distinct (map f xs)"
  shows "filter (\<lambda>x. f x \<notin> f ` set (take k xs)) xs = drop k xs"
proof -
  have d: "distinct (map f (take k xs @ drop k xs))" using assms by simp
  have "filter (\<lambda>x. f x \<notin> f ` set (take k xs)) (take k xs @ drop k xs) = drop k xs"
    using d unfolding filter_append map_append distinct_append
    by (auto simp: filter_empty_conv intro!: filter_True)
  then show ?thesis by simp
qed

lemma map_of_fold_omap_del:
  "map_of (fold (\<lambda>x m. omap_del (g x) m) xs m) k = (if k \<in> g ` set xs then None else map_of m k)"
  by (induction xs arbitrary: m) auto

lemma omap_wf_fold_omap_del: "omap_wf m \<Longrightarrow> omap_wf (fold (\<lambda>x m. omap_del (g x) m) xs m)"
  by (induction xs arbitrary: m) auto

lemma length_oset_insert: "sorted_wrt (<) ys \<Longrightarrow> length (oset_insert x ys) = (if x \<in> set ys then length ys else Suc (length ys))"
  by (induction x ys rule: oset_insert.induct) auto

lemma length_fold_oset_insert:
  "sorted_wrt (<) ys \<Longrightarrow> length (fold oset_insert xs ys) = card (set xs \<union> set ys)"
proof (induction xs arbitrary: ys)
  case Nil
  then have "distinct ys" by (simp add: strict_sorted_iff)
  then show ?case by (simp add: distinct_card)
next
  case (Cons x xs)
  then show ?case by (simp add: insert_commute Un_insert_right)
qed

lemma length_oset_of: "distinct xs \<Longrightarrow> length (oset_of xs) = length xs"
  using length_fold_oset_insert [of "[]" xs] by (simp add: oset_of_def distinct_card)

text \<open>Pruning keeps the newest checkpoints of the namespace, in order, and all others.\<close>

definition nsList :: "InMemorySaver \<Rightarrow> string \<Rightarrow> string \<Rightarrow> Checkpoint list" where
  "nsList s t n = filter (\<lambda>c. cp_ns c = n) (threadCheckpoints s t)"

lemma nsList_ids_distinct: "ims_wf s \<Longrightarrow> distinct (map cp_checkpointId (nsList s t n))"
proof -
  assume "ims_wf s"
  then have "distinct (map (\<lambda>c. (cp_ns c, cp_checkpointId c)) (threadCheckpoints s t))"
    using threadCheckpoints_wf [of s t] by (auto simp: thread_list_wf_def)
  then show ?thesis
    by (auto simp: nsList_def distinct_map inj_on_def)
qed

lemma IMS_prune_list:
  assumes "ims_wf s"
  shows "nsList (snd (IMS_prune t po s)) t' n =
    (if t' = t \<and> n = pr_ns po
     then drop (length (nsList s t n) - pr_keepLatest po) (nsList s t n) else nsList s t' n)"
proof (cases "map_of (ims_checkpoints s) t")
  case None
  then show ?thesis by (simp add: IMS_prune_def nsList_def threadCheckpoints_def)
next
  case (Some cs)
  let ?m = "filter (\<lambda>c. cp_ns c = pr_ns po) cs"
  let ?k = "length ?m - pr_keepLatest po"
  let ?kept = "filter (\<lambda>c. \<not> (cp_ns c = pr_ns po \<and>
      cp_checkpointId c \<in> cp_checkpointId ` set (take ?k ?m))) cs"
  have thr: "threadCheckpoints (snd (IMS_prune t po s)) u =
      (if u = t then ?kept else threadCheckpoints s u)" for u
    using Some by (simp add: IMS_prune_def Let_def threadCheckpoints_def)
  have tc: "threadCheckpoints s t = cs" using Some by (simp add: threadCheckpoints_def)
  have dist: "distinct (map cp_checkpointId ?m)"
    using nsList_ids_distinct [OF assms, of t "pr_ns po"] by (simp add: nsList_def tc)
  show ?thesis
  proof (cases "t' = t \<and> n = pr_ns po")
    case True
    have "filter (\<lambda>c. cp_ns c = pr_ns po) ?kept =
        filter (\<lambda>c. cp_checkpointId c \<notin> cp_checkpointId ` set (take ?k ?m)) ?m"
      unfolding filter_filter by (rule filter_cong) auto
    also have "\<dots> = drop ?k ?m" using filter_take_drop [OF dist] .
    finally show ?thesis using True by (simp add: nsList_def thr tc)
  next
    case False
    have "n \<noteq> pr_ns po \<Longrightarrow> filter (\<lambda>c. cp_ns c = n) ?kept = filter (\<lambda>c. cp_ns c = n) cs"
      unfolding filter_filter by (rule filter_cong) auto
    with False show ?thesis by (auto simp: nsList_def thr tc)
  qed
qed

lemma thread_list_wf_filter: "thread_list_wf t cs \<Longrightarrow> thread_list_wf t (filter P cs)"
  by (auto simp: thread_list_wf_def sorted_filter distinct_map inj_on_def)

lemma ims_wf_maintain:
  assumes "ims_wf s" and "map_of (ims_checkpoints s) t = Some cs"
  shows "ims_wf (s\<lparr>ims_checkpoints := omap_put t (filter P cs) (ims_checkpoints s),
    ims_writes := fold (\<lambda>x m. omap_del (g x) m) xs (ims_writes s)\<rparr>)"
proof -
  have "thread_list_wf t (filter P cs)"
    using assms by (auto simp: ims_wf_def intro: thread_list_wf_filter)
  with assms show ?thesis
    unfolding ims_wf_def
    by (auto simp: omap_wf_fold_omap_del omap_has_def map_of_fold_omap_del split: if_splits)
qed

lemma IMS_prune_wf: "ims_wf s \<Longrightarrow> ims_wf (snd (IMS_prune t po s))"
proof (cases "map_of (ims_checkpoints s) t")
  case (Some cs)
  assume "ims_wf s"
  then show ?thesis
    unfolding IMS_prune_def Let_def Some option.case snd_conv by (rule ims_wf_maintain [OF _ Some])
qed (simp add: IMS_prune_def)

lemma IMS_deleteForRuns_wf: "ims_wf s \<Longrightarrow> ims_wf (snd (IMS_deleteForRuns dr s))"
  by (auto simp: IMS_deleteForRuns_def Let_def intro!: ims_wf_maintain split: option.split sum.split)

lemma IMS_prune_result:
  assumes "ims_wf s"
  shows "\<exists>mr. fst (IMS_prune t po s) = Inr mr \<and>
    mr_removed mr = length (nsList s t (pr_ns po)) - pr_keepLatest po \<and>
    mr_remaining mr = min (pr_keepLatest po) (length (nsList s t (pr_ns po))) \<and>
    (mr_remaining mr \<noteq> 0 \<longrightarrow> mr_latest mr = cp_checkpointId (last (nsList s t (pr_ns po))))"
proof (cases "map_of (ims_checkpoints s) t")
  case None
  then show ?thesis by (simp add: IMS_prune_def nsList_def threadCheckpoints_def)
next
  case (Some cs)
  define m where "m = nsList s t (pr_ns po)"
  define k where "k = length m - pr_keepLatest po"
  have tc: "threadCheckpoints s t = cs" using Some by (simp add: threadCheckpoints_def)
  have m: "m = filter (\<lambda>c. cp_ns c = pr_ns po) cs" by (simp add: m_def nsList_def tc)
  have dist: "distinct (map cp_checkpointId m)"
    using nsList_ids_distinct [OF assms] by (simp add: m_def)
  then have rem: "length (oset_of (map cp_checkpointId (take k m))) = k"
    by (simp add: length_oset_of distinct_map inj_on_def k_def)
      (metis (no_types) distinct_map inj_on_def in_set_takeD length_oset_of length_map length_take
        min.absorb2 diff_le_self distinct_take take_map)
  let ?kept = "threadCheckpoints (snd (IMS_prune t po s)) t"
  have kept: "filter (\<lambda>c. cp_ns c = pr_ns po) ?kept = drop k m"
    using IMS_prune_list [OF assms, of t po t "pr_ns po"] by (simp add: nsList_def m_def k_def)
  have "fst (IMS_prune t po s) = Inr (maintenanceOf k (\<lambda>c. cp_ns c = pr_ns po) ?kept)"
    using Some rem
    by (simp add: IMS_prune_def Let_def threadCheckpoints_def m [symmetric] k_def)
  then show ?thesis
    by (auto simp: maintenanceOf_def Let_def kept m_def [symmetric] k_def last_drop)
qed

lemma IMS_deleteForRuns_list:
  assumes "validateDeleteForRunsOptions dr = Inr ()"
  shows "threadCheckpoints (snd (IMS_deleteForRuns dr s)) t =
    (if t = dr_threadId dr then filter (\<lambda>c. \<not> runSelected dr c) (threadCheckpoints s t)
     else threadCheckpoints s t)"
  using assms by (auto simp: IMS_deleteForRuns_def Let_def threadCheckpoints_def split: option.split)

section \<open>Task writes\<close>

text \<open>Storing a set of task writes twice is storing it once.\<close>

definition lastFor :: "CheckpointWrite list \<Rightarrow> CheckpointWrite \<Rightarrow> CheckpointWrite" where
  "lastFor ws x = fold (\<lambda>w x. if writeIdentity w = writeIdentity x then w else x) ws x"

lemma upsertWrite_mem:
  "distinct (map writeIdentity xs) \<Longrightarrow> writeIdentity w \<in> writeIdentity ` set xs \<Longrightarrow>
   upsertWrite w xs = map (\<lambda>x. if writeIdentity w = writeIdentity x then w else x) xs"
proof (induction w xs rule: upsertWrite.induct)
  case (2 w x xs)
  show ?case
  proof (cases "writeIdentity x = writeIdentity w")
    case True
    with 2 have "map (\<lambda>y. if writeIdentity w = writeIdentity y then w else y) xs = xs"
      by (intro map_idI) auto
    with True show ?thesis by simp
  next
    case False
    with 2 show ?thesis by auto
  qed
qed simp

lemma fold_upsertWrite_mem:
  "distinct (map writeIdentity xs) \<Longrightarrow> writeIdentity ` set ws \<subseteq> writeIdentity ` set xs \<Longrightarrow>
   fold upsertWrite ws xs = map (lastFor ws) xs"
proof (induction ws arbitrary: xs)
  case Nil
  then show ?case by (simp add: lastFor_def)
next
  case (Cons w ws)
  let ?f = "\<lambda>x. if writeIdentity w = writeIdentity x then w else x"
  have ids: "map writeIdentity (map ?f xs) = map writeIdentity xs" by simp
  have "set (map writeIdentity (map ?f xs)) = set (map writeIdentity xs)" by (simp only: ids)
  then have seteq: "writeIdentity ` set (map ?f xs) = writeIdentity ` set xs"
    by (simp only: list.set_map)
  have "fold upsertWrite ws (map ?f xs) = map (lastFor ws) (map ?f xs)"
  proof (rule Cons.IH)
    show "distinct (map writeIdentity (map ?f xs))" using Cons.prems(1) by (simp only: ids)
    show "writeIdentity ` set ws \<subseteq> writeIdentity ` set (map ?f xs)"
      unfolding seteq using Cons.prems(2) by simp
  qed
  moreover have "upsertWrite w xs = map ?f xs"
    using Cons.prems by (intro upsertWrite_mem) auto
  moreover have "lastFor ws (?f x) = lastFor (w # ws) x" for x by (simp add: lastFor_def)
  ultimately show ?case by simp
qed

lemma writeIdentity_lastFor [simp]: "writeIdentity (lastFor ws x) = writeIdentity x"
  unfolding lastFor_def by (induction ws arbitrary: x) auto

lemma lastFor_snoc:
  "lastFor (ws @ [w]) x =
     (if writeIdentity w = writeIdentity (lastFor ws x) then w else lastFor ws x)"
  by (simp add: lastFor_def)

lemma set_upsertWrite:
  "distinct (map writeIdentity xs) \<Longrightarrow> x \<in> set (upsertWrite w xs) \<Longrightarrow>
   x = w \<or> (x \<in> set xs \<and> writeIdentity x \<noteq> writeIdentity w)"
proof (induction w xs rule: upsertWrite.induct)
  case (2 w y ys)
  show ?case
  proof (cases "writeIdentity y = writeIdentity w")
    case True
    with 2 show ?thesis by (auto simp: image_iff)
  next
    case False
    with 2 show ?thesis by auto
  qed
qed simp

lemma fold_upsertWrite_entry:
  assumes "distinct (map writeIdentity xs)" and "x \<in> set (fold upsertWrite ws xs)"
  shows "lastFor ws x = x"
  using assms
proof (induction ws arbitrary: xs rule: rev_induct)
  case Nil
  then show ?case by (simp add: lastFor_def)
next
  case (snoc w ws)
  let ?ys = "fold upsertWrite ws xs"
  have d: "distinct (map writeIdentity ?ys)" using distinct_fold_upsertWrite [OF snoc.prems(1)] .
  have mem: "x \<in> set (upsertWrite w ?ys)" using snoc.prems(2) by simp
  have "x = w \<or> (x \<in> set ?ys \<and> writeIdentity x \<noteq> writeIdentity w)"
    using set_upsertWrite [OF d mem] .
  then show ?case
  proof
    assume "x = w"
    then show ?thesis by (simp add: lastFor_snoc)
  next
    assume "x \<in> set ?ys \<and> writeIdentity x \<noteq> writeIdentity w"
    moreover from this have "lastFor ws x = x" using snoc by simp
    ultimately show ?thesis by (auto simp: lastFor_snoc)
  qed
qed

lemma fold_upsertWrite_idem:
  assumes "distinct (map writeIdentity xs)"
  shows "fold upsertWrite ws (sort_key f (fold upsertWrite ws xs)) = sort_key f (fold upsertWrite ws xs)"
proof -
  let ?ys = "sort_key f (fold upsertWrite ws xs)"
  have d: "distinct (map writeIdentity ?ys)"
    using distinct_fold_upsertWrite [OF assms] by (simp add: distinct_sort_key)
  have "writeIdentity ` set (fold upsertWrite ws zs) = writeIdentity ` set ws \<union> writeIdentity ` set zs" for zs
    by (induction ws arbitrary: zs) (auto simp: set_upsertWrite_ids)
  then have "writeIdentity ` set ws \<subseteq> writeIdentity ` set ?ys" by simp
  from fold_upsertWrite_mem [OF d this] have "fold upsertWrite ws ?ys = map (lastFor ws) ?ys" .
  also have "\<dots> = ?ys"
    using fold_upsertWrite_entry [OF assms] by (intro map_idI) simp
  finally show ?thesis .
qed

lemma omap_put_twice: "omap_put k v (omap_put k w m) = omap_put k v m"
  by (induction k w m rule: omap_put.induct) auto

lemma IMS_putWrites_idem:
  assumes "ims_wf s"
  shows "IMS_putWrites ws (snd (IMS_putWrites ws s)) = IMS_putWrites ws s"
proof (cases "normalizeWriteSet ws")
  case (Inr n)
  let ?key = "checkpointWriteStorageKey (ws_threadId n) (ws_ns n) (ws_checkpointId n)"
  have "distinct (map writeIdentity (storedWrites s ?key))"
    using assms by (auto simp: ims_wf_def storedWrites_def split: option.split)
  from fold_upsertWrite_idem [OF this, of "ws_writes n" writeSortKey] show ?thesis
    by (simp add: IMS_putWrites_def Inr Let_def storedWrites_def omap_put_twice
        sort_key_id_if_sorted)
qed (simp add: IMS_putWrites_def)

end
