(* ===== verification/Interrupts.thy ===== *)
theory Interrupts
  imports Runtime
begin

text \<open>
  Interrupts: how a node asks for a pause (\<^verbatim>\<open>Runtime::interrupt\<close> in
  \<^verbatim>\<open>src/src/langgraph/runtime/runtime.cpp\<close>), how the pause is kept in the state under
  \<^verbatim>\<open>__interrupt__\<close>, and how the value of a resume command reaches the node again
  (\<^verbatim>\<open>src/src/langgraph/graph/graph_run.cpp\<close>).  The lemmas give the round trip of the metadata
  and the replay of a handler with several interrupts.
\<close>

definition kInterruptStateKey :: string where
  "kInterruptStateKey = ''__interrupt__''"

definition kRunErrorStateKey :: string where
  "kRunErrorStateKey = ''__run_error__''"

record Interrupt =
  in_id :: string
  in_value :: json
  in_resumeValues :: json

record PendingInterrupt =
  pi_interrupt :: Interrupt
  pi_node :: string
  pi_order :: "64 word option"

record InterruptMetadata =
  im_id :: string
  im_node :: string
  im_step :: "64 word"
  im_value :: json
  im_resumeValues :: json
  im_order :: "64 word option"

section \<open>Metadata in the state\<close>

definition interruptMetadataFromJson :: "json \<Rightarrow> 64 word \<Rightarrow> InterruptMetadata result" where
  "interruptMetadataFromJson v fallbackStep =
     (if \<not> is_object v then err InvalidArgument ''interrupt metadata entry must be an object''
      else if \<not> jhas v ''node'' \<or> \<not> is_string (jat v ''node'')
      then err InvalidArgument ''interrupt metadata node must be a string''
      else if jhas v ''id'' \<and> \<not> is_string (jat v ''id'')
      then err InvalidArgument ''interrupt metadata id must be a string''
      else if jhas v ''step'' \<and> \<not> is_number_unsigned (jat v ''step'')
      then err InvalidArgument ''interrupt metadata step must be an unsigned integer''
      else if jhas v ''resume_values'' \<and> \<not> is_object (jat v ''resume_values'')
      then err InvalidArgument ''interrupt metadata resume_values must be an object''
      else if jhas v ''order'' \<and> \<not> is_number_unsigned (jat v ''order'')
      then err InvalidArgument ''interrupt metadata order must be an unsigned integer''
      else Inr \<lparr>im_id = (if jhas v ''id'' then str_of (jat v ''id'') else []),
                im_node = str_of (jat v ''node''),
                im_step = (if jhas v ''step'' then bits_of (jat v ''step'') else fallbackStep),
                im_value = (if jhas v ''value'' then jat v ''value'' else JObj []),
                im_resumeValues = (if jhas v ''resume_values'' then jat v ''resume_values''
                                   else JObj []),
                im_order = (if jhas v ''order'' then Some (bits_of (jat v ''order'')) else None)\<rparr>)"

definition interruptMetadataFromState :: "json \<Rightarrow> InterruptMetadata list result" where
  "interruptMetadataFromState st =
     (case jget st kInterruptStateKey of
        None \<Rightarrow> Inr []
      | Some found \<Rightarrow>
          if \<not> is_object found then err InvalidArgument ''interrupt metadata must be an object''
          else if jhas found ''step'' \<and> \<not> is_number_unsigned (jat found ''step'')
          then err InvalidArgument ''interrupt metadata step must be an unsigned integer''
          else
            let step = (if jhas found ''step'' then bits_of (jat found ''step'') else 0) in
            if jhas found ''interrupts'' then
              (if \<not> is_array (jat found ''interrupts'')
               then err InvalidArgument ''interrupt metadata interrupts must be an array''
               else mapM_result (\<lambda>item. interruptMetadataFromJson item step)
                      (jelems (jat found ''interrupts'')))
            else rbind (interruptMetadataFromJson found step) (\<lambda>m. Inr [m]))"

definition mergeFields :: "json \<Rightarrow> json \<Rightarrow> json" where
  "mergeFields target source = fold (\<lambda>(k, x) t. jput t k x) (jitems source) target"

definition resumeValueForInterrupt :: "json \<Rightarrow> InterruptMetadata \<Rightarrow> nat \<Rightarrow> json result" where
  "resumeValueForInterrupt commandValue md interruptCount =
     (if \<not> jempty (im_resumeValues md) then
        (if \<not> is_object (im_resumeValues md)
         then err InvalidArgument ''interrupt metadata resume_values must be an object''
         else if is_object commandValue then Inr (mergeFields (im_resumeValues md) commandValue)
         else if im_id md \<noteq> [] then Inr (jput (im_resumeValues md) (im_id md) commandValue)
         else Inr (jput (im_resumeValues md) ''value'' commandValue))
      else if interruptCount \<le> 1 then Inr commandValue
      else if \<not> is_object commandValue
      then err InvalidArgument
        ''multi-interrupt resume value must be an object keyed by interrupt id or node''
      else if im_id md \<noteq> [] \<and> jhas commandValue (im_id md) then Inr (jat commandValue (im_id md))
      else if jhas commandValue (im_node md) then Inr (jat commandValue (im_node md))
      else err FailedPrecondition (''resume value missing for interrupted node: '' @ im_node md))"

definition interruptEntry :: "64 word \<Rightarrow> PendingInterrupt \<Rightarrow> json" where
  "interruptEntry step p =
     (let entry = obj [(''id'', JStr (in_id (pi_interrupt p))), (''node'', JStr (pi_node p)),
                       (''step'', JUint step), (''value'', in_value (pi_interrupt p))];
          entry = (if jempty (in_resumeValues (pi_interrupt p)) then entry
                   else jput entry ''resume_values'' (in_resumeValues (pi_interrupt p))) in
      case pi_order p of None \<Rightarrow> entry | Some ord \<Rightarrow> jput entry ''order'' (JUint ord))"

definition withInterruptMetadata :: "json \<Rightarrow> PendingInterrupt list \<Rightarrow> 64 word \<Rightarrow> json result" where
  "withInterruptMetadata st interrupts step =
     (if interrupts = [] then State_fromJsonValue st
      else State_fromJsonValue (jput st kInterruptStateKey
             (obj [(''step'', JUint step),
                   (''interrupts'', JArr (map (interruptEntry step) interrupts))])))"

definition interruptFromRuntimeRequest :: "json \<Rightarrow> Interrupt result" where
  "interruptFromRuntimeRequest request =
     (if \<not> is_object request
      then err InvalidArgument ''runtime interrupt request must be an object''
      else if \<not> jhas request ''id'' \<or> \<not> is_string (jat request ''id'')
      then err InvalidArgument ''runtime interrupt request id must be a string''
      else if jhas request ''resume_values'' \<and> \<not> is_object (jat request ''resume_values'')
      then err InvalidArgument ''runtime interrupt request resume_values must be an object''
      else Inr \<lparr>in_id = str_of (jat request ''id''),
                in_value = (if jhas request ''value'' then jat request ''value'' else JObj []),
                in_resumeValues = (if jhas request ''resume_values''
                                   then jat request ''resume_values'' else JObj [])\<rparr>)"

definition withoutInterruptMetadata :: "json \<Rightarrow> json result" where
  "withoutInterruptMetadata st = State_fromJsonValue (jerase st kInterruptStateKey)"

section \<open>Function interrupts\<close>

text \<open>The part of a \<^verbatim>\<open>Runtime\<close> that \<^verbatim>\<open>interrupt\<close> reads and changes.\<close>

record interrupt_state =
  is_cursor :: nat
  is_fulfilled :: json
  is_requested :: "json list"

definition initInterruptState :: interrupt_state where
  "initInterruptState = \<lparr>is_cursor = 0, is_fulfilled = JObj [], is_requested = []\<rparr>"

definition Runtime_interrupt ::
  "json option \<Rightarrow> string \<Rightarrow> json \<Rightarrow> interrupt_state \<Rightarrow> json result \<times> interrupt_state" where
  "Runtime_interrupt resumeValue iid value s =
     (if iid = [] then (err InvalidArgument ''interrupt id cannot be empty'', s)
      else
        let cursor = is_cursor s;
            s1 = s\<lparr>is_cursor := cursor + 1\<rparr>;
            fulfil = (\<lambda>x. (Inr x, s1\<lparr>is_fulfilled := jput (is_fulfilled s1) iid x\<rparr>));
            ask = (let request = obj [(''id'', JStr iid), (''value'', value)];
                       request = (if jempty (is_fulfilled s1) then request
                                  else jput request ''resume_values'' (is_fulfilled s1)) in
                   (err Aborted ''interrupt requested'',
                    s1\<lparr>is_requested := is_requested s1 @ [request]\<rparr>)) in
        case resumeValue of
          None \<Rightarrow> ask
        | Some v \<Rightarrow>
            if is_object v \<and> jhas v iid then fulfil (jat v iid)
            else if is_array v \<and> cursor < length (jelems v) then fulfil (jelems v ! cursor)
            else if cursor = 0 then fulfil v
            else ask)"

section \<open>Round trip of the metadata\<close>

definition metadataOf :: "64 word \<Rightarrow> PendingInterrupt \<Rightarrow> InterruptMetadata" where
  "metadataOf step p =
     \<lparr>im_id = in_id (pi_interrupt p), im_node = pi_node p, im_step = step,
      im_value = in_value (pi_interrupt p),
      im_resumeValues = (if jempty (in_resumeValues (pi_interrupt p)) then JObj []
                         else in_resumeValues (pi_interrupt p)),
      im_order = pi_order p\<rparr>"

lemma jget_interruptEntry:
  "jget (interruptEntry step p) k =
     (if k = ''order'' \<and> pi_order p \<noteq> None then map_option JUint (pi_order p)
      else if k = ''resume_values'' \<and> \<not> jempty (in_resumeValues (pi_interrupt p))
      then Some (in_resumeValues (pi_interrupt p))
      else if k = ''value'' then Some (in_value (pi_interrupt p))
      else if k = ''step'' then Some (JUint step)
      else if k = ''node'' then Some (JStr (pi_node p))
      else if k = ''id'' then Some (JStr (in_id (pi_interrupt p))) else None)"
  by (auto simp: interruptEntry_def Let_def jget_obj split: option.split)

lemma is_object_interruptEntry [simp]: "is_object (interruptEntry step p)"
  by (simp add: interruptEntry_def Let_def split: option.split)

lemma interruptEntry_roundtrip:
  assumes "jempty (in_resumeValues (pi_interrupt p)) \<or> is_object (in_resumeValues (pi_interrupt p))"
  shows "interruptMetadataFromJson (interruptEntry step p) fallback = Inr (metadataOf step p)"
  using assms
  by (cases "pi_order p")
    (auto simp: interruptMetadataFromJson_def jhas_def jat_def jget_interruptEntry metadataOf_def)

lemma interruptMetadata_roundtrip_lemma:
  assumes "is_object st" and "ps \<noteq> []"
    and "\<forall>p \<in> set ps. jempty (in_resumeValues (pi_interrupt p)) \<or>
           is_object (in_resumeValues (pi_interrupt p))"
    and "withInterruptMetadata st ps step = Inr st'"
  shows "interruptMetadataFromState st' = Inr (map (metadataOf step) ps)"
proof -
  from assms have st': "st' = jput st kInterruptStateKey
      (obj [(''step'', JUint step), (''interrupts'', JArr (map (interruptEntry step) ps))])"
    by (auto simp: withInterruptMetadata_def State_fromJsonValue_Inr)
  have "mapM_result (\<lambda>item. interruptMetadataFromJson item step) (map (interruptEntry step) ps) =
      Inr (map (metadataOf step) ps)"
    using assms(3) by (intro mapM_result_map) (simp add: interruptEntry_roundtrip)
  then show ?thesis
    by (simp add: interruptMetadataFromState_def st' assms(1) jhas_def jat_def jget_obj Let_def)
qed

lemma withoutInterrupt_removes:
  "withoutInterruptMetadata st = Inr st' \<Longrightarrow>
     interruptMetadataFromState st' = Inr [] \<and>
     (\<forall>k. k \<noteq> kInterruptStateKey \<longrightarrow> jget st' k = jget st k)"
  by (auto simp: withoutInterruptMetadata_def State_fromJsonValue_Inr interruptMetadataFromState_def)

section \<open>Replay of a handler with several interrupts\<close>

text \<open>
  A handler as the sequence of its interrupts: it finishes, or asks and goes on with the
  answer.  An interrupt that is not answered ends the call with its status, as
  \<^verbatim>\<open>Result\<close>-returning handlers do.
\<close>

datatype 'a handler_prog = Finish 'a | Ask string json "json \<Rightarrow> 'a handler_prog"

primrec runProg :: "json option \<Rightarrow> 'a handler_prog \<Rightarrow> interrupt_state \<Rightarrow> 'a result \<times> interrupt_state" where
  "runProg r (Finish a) s = (Inr a, s)"
| "runProg r (Ask k q f) s =
     (case Runtime_interrupt r k q s of
        (Inl e, s') \<Rightarrow> (Inl e, s')
      | (Inr v, s') \<Rightarrow> runProg r (f v) s')"

text \<open>
  The pauses and resumes of one handler: it is run, its first request becomes an interrupt
  of the run, and the next answer, keyed by the id of the interrupt, is turned into the value
  the handler is run with again.
\<close>

fun session ::
  "string \<Rightarrow> 64 word \<Rightarrow> 64 word option \<Rightarrow> 'a handler_prog \<Rightarrow> json list \<Rightarrow> json option \<Rightarrow> 'a result" where
  "session node step ord p answers r =
     (case runProg r p initInterruptState of
        (Inr a, s) \<Rightarrow> Inr a
      | (Inl e, s) \<Rightarrow>
          (case is_requested s of
             [] \<Rightarrow> Inl e
           | req # _ \<Rightarrow>
               (case answers of
                  [] \<Rightarrow> Inl e
                | v # vs \<Rightarrow>
                    rbind (interruptFromRuntimeRequest req) (\<lambda>i.
                    rbind (resumeValueForInterrupt (JObj [(in_id i, v)])
                             (metadataOf step \<lparr>pi_interrupt = i, pi_node = node, pi_order = ord\<rparr>) 1)
                      (\<lambda>r'. session node step ord p vs (Some r'))))))"

declare session.simps [simp del]

text \<open>The handler after the given answers, each with the id it was asked for.\<close>

fun follow :: "'a handler_prog \<Rightarrow> (string \<times> json) list \<Rightarrow> 'a handler_prog option" where
  "follow p [] = Some p"
| "follow (Ask k q f) ((j, v) # kvs) = (if j = k then follow (f v) kvs else None)"
| "follow (Finish a) (kv # kvs) = None"

definition askable :: "(string \<times> json) list \<Rightarrow> bool" where
  "askable kvs \<longleftrightarrow> distinct (map fst kvs) \<and> [] \<notin> set (map fst kvs)"

lemma obj_snoc: "obj (kvs @ [(k, v)]) = jput (obj kvs) k v"
  by (simp add: obj_def)

lemma jget_obj_mem: "distinct (map fst kvs) \<Longrightarrow> (k, v) \<in> set kvs \<Longrightarrow> jget (obj kvs) k = Some v"
  by (simp add: jget_obj rev_map [symmetric])

lemma jempty_obj: "jempty (obj kvs) \<longleftrightarrow> kvs = []"
proof (cases kvs rule: rev_cases)
  case (snoc ys y)
  then show ?thesis by (cases y) (simp add: obj_snoc obj_def)
qed (simp add: obj_def)

lemma mergeFields_single: "mergeFields t (JObj [(k, v)]) = jput t k v"
  by (simp add: mergeFields_def)

lemma Runtime_interrupt_answered:
  "k \<noteq> [] \<Longrightarrow> is_object r \<Longrightarrow> jget r k = Some v \<Longrightarrow>
   Runtime_interrupt (Some r) k q s =
     (Inr v, s\<lparr>is_cursor := is_cursor s + 1, is_fulfilled := jput (is_fulfilled s) k v\<rparr>)"
  by (simp add: Runtime_interrupt_def Let_def jhas_def jat_def)

lemma runProg_follow:
  assumes "follow p kvs = Some p'" and "[] \<notin> set (map fst kvs)"
    and "is_object r" and "\<forall>(k, v) \<in> set kvs. jget r k = Some v"
  shows "runProg (Some r) p s = runProg (Some r) p'
    (s\<lparr>is_cursor := is_cursor s + length kvs,
       is_fulfilled := fold (\<lambda>(k, v) t. jput t k v) kvs (is_fulfilled s)\<rparr>)"
  using assms
proof (induction p kvs arbitrary: s rule: follow.induct)
  case (2 k q f j v kvs)
  then show ?case
    by (auto simp: Runtime_interrupt_answered split: if_splits)
qed auto

lemma fold_jput_obj: "fold (\<lambda>(k, v) t. jput t k v) kvs (JObj []) = obj kvs"
proof -
  have "fold (\<lambda>(k, v) t. jput t k v) kvs (JObj m) = JObj (fold (\<lambda>(k, v) m. omap_put k v m) kvs m)" for m
    by (induction kvs arbitrary: m) auto
  then show ?thesis by (simp add: obj_def)
qed

definition resumeOf :: "(string \<times> json) list \<Rightarrow> json option" where
  "resumeOf kvs = (if kvs = [] then None else Some (obj kvs))"

definition stateAfter :: "(string \<times> json) list \<Rightarrow> interrupt_state" where
  "stateAfter kvs = \<lparr>is_cursor = length kvs, is_fulfilled = obj kvs, is_requested = []\<rparr>"

lemma runProg_resumed:
  assumes "follow p kvs = Some p'" and "askable kvs"
  shows "runProg (resumeOf kvs) p initInterruptState = runProg (resumeOf kvs) p' (stateAfter kvs)"
proof (cases "kvs = []")
  case True
  then show ?thesis
    using assms by (simp add: resumeOf_def stateAfter_def initInterruptState_def obj_def)
next
  case False
  have "\<forall>(k, v) \<in> set kvs. jget (obj kvs) k = Some v"
    using assms(2) by (auto simp: askable_def jget_obj_mem)
  with runProg_follow [OF assms(1), of "obj kvs" initInterruptState] assms(2) False show ?thesis
    by (simp add: askable_def resumeOf_def stateAfter_def initInterruptState_def fold_jput_obj)
qed

text \<open>The next interrupt is requested, with the answers so far to be replayed.\<close>

definition requestOf :: "(string \<times> json) list \<Rightarrow> string \<Rightarrow> json \<Rightarrow> json" where
  "requestOf kvs k q =
     (let request = obj [(''id'', JStr k), (''value'', q)] in
      if kvs = [] then request else jput request ''resume_values'' (obj kvs))"

lemma Runtime_interrupt_asks:
  assumes "k \<noteq> []" and "k \<notin> set (map fst kvs)"
  shows "Runtime_interrupt (resumeOf kvs) k q (stateAfter kvs) =
    (err Aborted ''interrupt requested'',
     (stateAfter kvs)\<lparr>is_cursor := length kvs + 1, is_requested := [requestOf kvs k q]\<rparr>)"
proof -
  have n: "\<not> jhas (obj kvs) k"
    using assms(2) by (simp add: jhas_def jget_obj map_of_eq_None_iff)
  have "\<not> is_array (obj kvs)" by (simp add: obj_def)
  with n assms(1) show ?thesis
    by (auto simp: Runtime_interrupt_def resumeOf_def stateAfter_def requestOf_def Let_def jempty_obj)
qed

lemma interruptFromRequest:
  "interruptFromRuntimeRequest (requestOf kvs k q) =
     Inr \<lparr>in_id = k, in_value = q, in_resumeValues = obj kvs\<rparr>"
  by (auto simp: interruptFromRuntimeRequest_def requestOf_def Let_def jhas_def jat_def jget_obj)
    (simp add: obj_def)

lemma resume_extends:
  "resumeValueForInterrupt (JObj [(k, v)])
     (metadataOf step \<lparr>pi_interrupt = \<lparr>in_id = k, in_value = q, in_resumeValues = obj kvs\<rparr>,
        pi_node = node, pi_order = ord\<rparr>) 1 = Inr (obj (kvs @ [(k, v)]))"
  by (auto simp: resumeValueForInterrupt_def metadataOf_def jempty_obj mergeFields_single obj_snoc)
    (simp add: obj_def)

lemma follow_append:
  "follow p (xs @ ys) = (case follow p xs of None \<Rightarrow> None | Some p' \<Rightarrow> follow p' ys)"
  by (induction p xs rule: follow.induct) auto

lemma session_finishes:
  assumes "follow p (done' @ todo) = Some (Finish a)" and "askable (done' @ todo)"
  shows "session node step ord p (map snd todo) (resumeOf done') = Inr a"
  using assms
proof (induction todo arbitrary: done')
  case Nil
  then show ?case
    using runProg_resumed [of p done' "Finish a"] by (simp add: session.simps [of node step ord p "[]"])
next
  case (Cons kv todo)
  obtain k v where kv: "kv = (k, v)" by (cases kv)
  have ask: "askable done'" "k \<noteq> []" "k \<notin> set (map fst done')"
    using Cons.prems(2) by (auto simp: askable_def kv)
  obtain p1 where p1: "follow p done' = Some p1" "follow p1 ((k, v) # todo) = Some (Finish a)"
    using Cons.prems(1) by (auto simp: follow_append kv split: option.splits)
  then obtain q f where p': "follow p done' = Some (Ask k q f)"
    by (cases p1) (auto split: if_splits)
  have "runProg (resumeOf done') p initInterruptState =
      (err Aborted ''interrupt requested'',
       (stateAfter done')\<lparr>is_cursor := length done' + 1, is_requested := [requestOf done' k q]\<rparr>)"
    using runProg_resumed [OF p' ask(1)] Runtime_interrupt_asks [OF ask(2,3), of q] by simp
  moreover have "session node step ord p (map snd todo) (Some (obj (done' @ [(k, v)]))) = Inr a"
    using Cons.IH [of "done' @ [(k, v)]"] Cons.prems by (simp add: kv resumeOf_def)
  ultimately show ?case
    using resume_extends [of k v step q done' node ord]
    by (subst session.simps) (simp add: kv interruptFromRequest)
qed

end
