(* ===== verification/Message.thy ===== *)
theory Message
  imports Json
begin

text \<open>
  Messages and token usage: \<^verbatim>\<open>src/src/langgraph/message/usage_metadata.cpp\<close> and
  \<^verbatim>\<open>message.cpp\<close>.  A message is read from and written to the JSON of the state; the
  reducer \<^verbatim>\<open>add_messages\<close> works on the parsed form.  The lemmas give the round trips of
  both formats and the cases where a value is refused.
\<close>

section \<open>Token usage\<close>

datatype usage_source = SourceUnknown | SourceProvider | SourceLocal | SourceMixed

record token_usage =
  inputTokens :: "64 word option"
  outputTokens :: "64 word option"
  totalTokens :: "64 word option"
  details :: json

record usage_metadata =
  tokens :: token_usage
  um_source :: usage_source
  provider :: string
  um_model :: string
  raw :: json

definition defaultTokenUsage :: token_usage where
  "defaultTokenUsage = \<lparr>inputTokens = None, outputTokens = None, totalTokens = None,
     details = JObj []\<rparr>"

definition defaultUsage :: usage_metadata where
  "defaultUsage = \<lparr>tokens = defaultTokenUsage, um_source = SourceUnknown, provider = [],
     um_model = [], raw = JObj []\<rparr>"

definition isKnownUsageMetadataField :: "string \<Rightarrow> bool" where
  "isKnownUsageMetadataField f \<longleftrightarrow>
     f \<in> set [''input_tokens'', ''output_tokens'', ''total_tokens'', ''details'', ''source'',
              ''provider'', ''model'', ''raw'']"

definition emptyObject :: "json \<Rightarrow> bool" where
  "emptyObject v \<longleftrightarrow> is_object v \<and> jempty v"

definition unsignedIntegerFromJson :: "json \<Rightarrow> string \<Rightarrow> 64 word result" where
  "unsignedIntegerFromJson v field =
     (if \<not> is_number_integer v \<and> \<not> is_number_unsigned v
      then err InvalidArgument (field @ '' must be a non-negative integer'')
      else if is_number_integer v
      then (if sint (bits_of v) < 0
            then err InvalidArgument (field @ '' must be a non-negative integer'')
            else Inr (bits_of v))
      else Inr (bits_of v))"

definition optionalCountFromJson :: "json \<Rightarrow> string \<Rightarrow> 64 word option result" where
  "optionalCountFromJson v field =
     (if \<not> jhas v field then Inr None
      else rbind (unsignedIntegerFromJson (jat v field) field) (\<lambda>n. Inr (Some n)))"

fun usageMetadataSourceName :: "usage_source \<Rightarrow> string" where
  "usageMetadataSourceName SourceUnknown = ''unknown''"
| "usageMetadataSourceName SourceProvider = ''provider''"
| "usageMetadataSourceName SourceLocal = ''local''"
| "usageMetadataSourceName SourceMixed = ''mixed''"

definition usageMetadataSourceFromName :: "string \<Rightarrow> usage_source result" where
  "usageMetadataSourceFromName name =
     (if name = ''unknown'' then Inr SourceUnknown
      else if name = ''provider'' then Inr SourceProvider
      else if name = ''local'' then Inr SourceLocal
      else if name = ''mixed'' then Inr SourceMixed
      else err InvalidArgument ''usage metadata source is invalid'')"

definition TokenUsage_empty :: "token_usage \<Rightarrow> bool" where
  "TokenUsage_empty u \<longleftrightarrow>
     inputTokens u = None \<and> outputTokens u = None \<and> totalTokens u = None \<and>
     emptyObject (details u)"

definition UsageMetadata_empty :: "usage_metadata \<Rightarrow> bool" where
  "UsageMetadata_empty u \<longleftrightarrow>
     TokenUsage_empty (tokens u) \<and> um_source u = SourceUnknown \<and> provider u = [] \<and>
     um_model u = [] \<and> emptyObject (raw u)"

definition TokenUsage_validate :: "token_usage \<Rightarrow> status" where
  "TokenUsage_validate u =
     (if \<not> is_object (details u)
      then mkStatus InvalidArgument ''token usage details must be a JSON object'' else okStatus)"

definition UsageMetadata_validate :: "usage_metadata \<Rightarrow> status" where
  "UsageMetadata_validate u =
     (if \<not> isOk (TokenUsage_validate (tokens u)) then TokenUsage_validate (tokens u)
      else if \<not> is_object (raw u)
      then mkStatus InvalidArgument ''usage metadata raw must be a JSON object'' else okStatus)"

text \<open>\<^verbatim>\<open>if (c) v[k] = x\<close>, the shape of the writers.\<close>

definition jputIf :: "bool \<Rightarrow> string \<Rightarrow> json \<Rightarrow> json \<Rightarrow> json" where
  "jputIf c k x v = (if c then jput v k x else v)"

definition jputOpt :: "string \<Rightarrow> ('a \<Rightarrow> json) \<Rightarrow> 'a option \<Rightarrow> json \<Rightarrow> json" where
  "jputOpt k f x v = (case x of None \<Rightarrow> v | Some a \<Rightarrow> jput v k (f a))"

definition tokenUsageToJson :: "token_usage \<Rightarrow> json" where
  "tokenUsageToJson u =
     jputIf (is_object (details u) \<and> \<not> jempty (details u)) ''details'' (details u)
       (jputOpt ''total_tokens'' JUint (totalTokens u)
         (jputOpt ''output_tokens'' JUint (outputTokens u)
           (jputOpt ''input_tokens'' JUint (inputTokens u) (JObj []))))"

definition tokenUsageFromJson :: "json \<Rightarrow> token_usage result" where
  "tokenUsageFromJson v =
     (if is_null v then Inr defaultTokenUsage
      else if \<not> is_object v then err InvalidArgument ''token usage must be a JSON object''
      else rbind (optionalCountFromJson v ''input_tokens'') (\<lambda>i.
           rbind (optionalCountFromJson v ''output_tokens'') (\<lambda>out.
           rbind (optionalCountFromJson v ''total_tokens'') (\<lambda>t.
           if jhas v ''details'' \<and> \<not> is_object (jat v ''details'')
           then err InvalidArgument ''token usage details must be a JSON object''
           else Inr \<lparr>inputTokens = i, outputTokens = out, totalTokens = t,
                     details = (if jhas v ''details'' then jat v ''details'' else JObj [])\<rparr>))))"

definition usageMetadataToJson :: "usage_metadata \<Rightarrow> json" where
  "usageMetadataToJson u =
     jputIf (is_object (raw u) \<and> \<not> jempty (raw u)) ''raw'' (raw u)
       (jputIf (um_model u \<noteq> []) ''model'' (JStr (um_model u))
         (jputIf (provider u \<noteq> []) ''provider'' (JStr (provider u))
           (jputIf (um_source u \<noteq> SourceUnknown) ''source''
              (JStr (usageMetadataSourceName (um_source u)))
              (tokenUsageToJson (tokens u)))))"

text \<open>Unknown fields of the input are collected in \<open>raw\<close>, in key order.\<close>

definition collectUnknown :: "json \<Rightarrow> json \<Rightarrow> json" where
  "collectUnknown r v =
     fold (\<lambda>(k, x) r. if isKnownUsageMetadataField k then r else jput r k x) (jitems v) r"

definition usageMetadataFromJson :: "json \<Rightarrow> usage_metadata result" where
  "usageMetadataFromJson v =
     (if is_null v then Inr defaultUsage
      else if \<not> is_object v then err InvalidArgument ''usage metadata must be a JSON object''
      else rbind (tokenUsageFromJson v) (\<lambda>t.
           rbind (if \<not> jhas v ''source'' then Inr SourceUnknown
                  else if \<not> is_string (jat v ''source'')
                  then err InvalidArgument ''usage metadata source must be a string''
                  else usageMetadataSourceFromName (str_of (jat v ''source''))) (\<lambda>s.
           if jhas v ''provider'' \<and> \<not> is_string (jat v ''provider'')
           then err InvalidArgument ''usage metadata provider must be a string''
           else if jhas v ''model'' \<and> \<not> is_string (jat v ''model'')
           then err InvalidArgument ''usage metadata model must be a string''
           else if jhas v ''raw'' \<and> \<not> is_object (jat v ''raw'')
           then err InvalidArgument ''usage metadata raw must be a JSON object''
           else Inr \<lparr>tokens = t, um_source = s,
                     provider = (if jhas v ''provider'' then str_of (jat v ''provider'') else []),
                     um_model = (if jhas v ''model'' then str_of (jat v ''model'') else []),
                     raw = collectUnknown
                             (if jhas v ''raw'' then jat v ''raw'' else JObj []) v\<rparr>)))"

lemma is_object_jputIf [simp]: "is_object v \<Longrightarrow> is_object (jputIf c k x v)"
  by (simp add: jputIf_def)

lemma is_object_jputOpt [simp]: "is_object v \<Longrightarrow> is_object (jputOpt k f x v)"
  by (simp add: jputOpt_def split: option.split)

lemma jget_jputIf [simp]:
  "is_object v \<Longrightarrow> jget (jputIf c k x v) j = (if j = k \<and> c then Some x else jget v j)"
  by (simp add: jputIf_def)

lemma jget_jputOpt [simp]:
  "is_object v \<Longrightarrow>
   jget (jputOpt k f x v) j = (if j = k \<and> x \<noteq> None then map_option f x else jget v j)"
  by (auto simp: jputOpt_def split: option.split)

lemma jget_empty [simp]: "jget (JObj []) k = None"
  by (simp add: jget_def)

lemma is_object_tokenUsageToJson [simp]: "is_object (tokenUsageToJson u)"
  by (simp add: tokenUsageToJson_def)

lemma is_object_usageMetadataToJson [simp]: "is_object (usageMetadataToJson u)"
  by (simp add: usageMetadataToJson_def)

lemma not_null_object: "is_object v \<Longrightarrow> \<not> is_null v"
  by (cases v) auto

lemma jget_tokenUsageToJson:
  "jget (tokenUsageToJson u) k =
     (if k = ''details'' \<and> is_object (details u) \<and> \<not> jempty (details u) then Some (details u)
      else if k = ''total_tokens'' then map_option JUint (totalTokens u)
      else if k = ''output_tokens'' then map_option JUint (outputTokens u)
      else if k = ''input_tokens'' then map_option JUint (inputTokens u) else None)"
  by (auto simp: tokenUsageToJson_def)

lemma jget_usageMetadataToJson:
  "jget (usageMetadataToJson u) k =
     (if k = ''raw'' \<and> is_object (raw u) \<and> \<not> jempty (raw u) then Some (raw u)
      else if k = ''model'' \<and> um_model u \<noteq> [] then Some (JStr (um_model u))
      else if k = ''provider'' \<and> provider u \<noteq> [] then Some (JStr (provider u))
      else if k = ''source'' \<and> um_source u \<noteq> SourceUnknown
      then Some (JStr (usageMetadataSourceName (um_source u)))
      else jget (tokenUsageToJson (tokens u)) k)"
  by (auto simp: usageMetadataToJson_def)

text \<open>A count survives the round trip exactly when its top bit is clear.\<close>

definition counts_below_2_63 :: "token_usage \<Rightarrow> bool" where
  "counts_below_2_63 u \<longleftrightarrow>
     (\<forall>n \<in> set_option (inputTokens u) \<union> set_option (outputTokens u) \<union> set_option (totalTokens u).
        0 \<le> sint n)"

lemma unsignedIntegerFromJson_JUint:
  "unsignedIntegerFromJson (JUint n) f =
     (if sint n < 0 then err InvalidArgument (f @ '' must be a non-negative integer'') else Inr n)"
  by (simp add: unsignedIntegerFromJson_def)

lemma optionalCount_roundtrip:
  assumes "jget v f = map_option JUint x" and "\<forall>n \<in> set_option x. 0 \<le> sint n"
  shows "optionalCountFromJson v f = Inr x"
  using assms
  by (cases x) (auto simp: optionalCountFromJson_def jhas_def jat_def
      unsignedIntegerFromJson_JUint split: option.splits)

lemma jempty_object: "is_object v \<Longrightarrow> jempty v \<longleftrightarrow> v = JObj []"
  by (cases v) auto

lemma tokenUsageFromJson_lookup:
  assumes "is_object v"
    and "jget v ''input_tokens'' = map_option JUint (inputTokens u)"
    and "jget v ''output_tokens'' = map_option JUint (outputTokens u)"
    and "jget v ''total_tokens'' = map_option JUint (totalTokens u)"
    and "jget v ''details'' = (if jempty (details u) then None else Some (details u))"
    and "is_object (details u)" and "counts_below_2_63 u"
  shows "tokenUsageFromJson v = Inr u"
proof -
  from assms(7) have c: "\<forall>n \<in> set_option (inputTokens u). 0 \<le> sint n"
    "\<forall>n \<in> set_option (outputTokens u). 0 \<le> sint n"
    "\<forall>n \<in> set_option (totalTokens u). 0 \<le> sint n"
    by (auto simp: counts_below_2_63_def)
  show ?thesis
    using assms(1,5,6) optionalCount_roundtrip [OF assms(2) c(1)]
      optionalCount_roundtrip [OF assms(3) c(2)] optionalCount_roundtrip [OF assms(4) c(3)]
    by (cases u)
      (auto simp: tokenUsageFromJson_def not_null_object jhas_def jat_def jempty_object
        split: if_splits)
qed

lemma collectUnknown_known:
  "(\<And>k. jget v k \<noteq> None \<Longrightarrow> isKnownUsageMetadataField k) \<Longrightarrow> collectUnknown r v = r"
proof -
  assume known: "\<And>k. jget v k \<noteq> None \<Longrightarrow> isKnownUsageMetadataField k"
  have "\<forall>p \<in> set m. isKnownUsageMetadataField (fst p) \<Longrightarrow>
    fold (\<lambda>(k, x) r. if isKnownUsageMetadataField k then r else jput r k x) m r = r" for m r
    by (induction m arbitrary: r) auto
  moreover have "\<forall>p \<in> set (jitems v). isKnownUsageMetadataField (fst p)"
    using known by (auto simp: jget_def) (metis weak_map_of_SomeI option.distinct(1))
  ultimately show ?thesis by (simp add: collectUnknown_def)
qed

lemma usageSource_roundtrip:
  "usageMetadataSourceFromName (usageMetadataSourceName s) = Inr s"
  by (cases s) (simp_all add: usageMetadataSourceFromName_def)

lemma usageMetadata_roundtrip_lemma:
  assumes "is_object (details (tokens u))" and "is_object (raw u)"
    and "counts_below_2_63 (tokens u)"
  shows "usageMetadataFromJson (usageMetadataToJson u) = Inr u"
proof -
  let ?v = "usageMetadataToJson u"
  have t: "tokenUsageFromJson ?v = Inr (tokens u)"
    using assms
    by (intro tokenUsageFromJson_lookup)
      (auto simp: jget_usageMetadataToJson jget_tokenUsageToJson)
  have "isKnownUsageMetadataField k" if "jget ?v k \<noteq> None" for k
    using that
    by (auto simp: jget_usageMetadataToJson jget_tokenUsageToJson isKnownUsageMetadataField_def
        split: if_splits)
  then have "collectUnknown r ?v = r" for r by (rule collectUnknown_known)
  with t assms show ?thesis
    by (cases u)
      (auto simp: usageMetadataFromJson_def not_null_object jhas_def jat_def
        jget_usageMetadataToJson jget_tokenUsageToJson usageSource_roundtrip jempty_object)
qed

section \<open>Messages\<close>

datatype MessageType = MsgSystem | MsgHuman | MsgAI | MsgTool

record ToolCall =
  tc_id :: string
  tc_name :: string
  tc_args :: json

record BaseMessage =
  msg_id :: string
  msg_type :: MessageType
  content :: string
  contentBlocks :: json
  toolCalls :: "ToolCall list"
  toolCallId :: string
  msg_name :: string
  usageMetadata :: usage_metadata
  responseMetadata :: json
  artifact :: json

fun providerRoleName :: "MessageType \<Rightarrow> string" where
  "providerRoleName MsgSystem = ''system''"
| "providerRoleName MsgHuman = ''user''"
| "providerRoleName MsgAI = ''assistant''"
| "providerRoleName MsgTool = ''tool''"

definition messageTypeFromRole :: "string \<Rightarrow> MessageType result" where
  "messageTypeFromRole role =
     (if role = ''system'' then Inr MsgSystem
      else if role = ''user'' \<or> role = ''human'' then Inr MsgHuman
      else if role = ''assistant'' \<or> role = ''ai'' then Inr MsgAI
      else if role = ''tool'' then Inr MsgTool
      else err InvalidArgument ''unknown message role'')"

definition makeTextContentBlock :: "string \<Rightarrow> json" where
  "makeTextContentBlock text = obj [(''type'', JStr ''text''), (''text'', JStr text)]"

definition isKnownMultimodalBlock :: "string \<Rightarrow> bool" where
  "isKnownMultimodalBlock type \<longleftrightarrow>
     type = ''image'' \<or> type = ''audio'' \<or> type = ''video'' \<or> type = ''file''"

definition hasStr :: "json \<Rightarrow> string \<Rightarrow> bool" where
  "hasStr v k \<longleftrightarrow> jhas v k \<and> is_string (jat v k)"

definition normalizeProviderContentBlock :: "json \<Rightarrow> json result" where
  "normalizeProviderContentBlock v =
     (let type = str_of (jat v ''type'') in
      if type = ''image_url'' then
        (if \<not> jhas v ''image_url''
         then err InvalidArgument ''image_url content block requires image_url''
         else
           let image = jat v ''image_url''; block = obj [(''type'', JStr ''image'')] in
           if is_string image then Inr (jput block ''url'' (JStr (str_of image)))
           else if is_object image \<and> hasStr image ''url'' then
             (let block = jput block ''url'' (jat image ''url'');
                  extras = jerase image ''url'' in
              Inr (jputIf (\<not> jempty extras) ''extras'' extras block))
           else err InvalidArgument ''image_url content block requires image_url.url'')
      else if type = ''input_audio'' then
        (if \<not> jhas v ''input_audio'' \<or> \<not> is_object (jat v ''input_audio'')
         then err InvalidArgument ''input_audio content block requires input_audio object''
         else
           let audio = jat v ''input_audio'' in
           Inr (jputIf (hasStr audio ''format'') ''mime_type''
                  (JStr (''audio/'' @ str_of (jat audio ''format'')))
                  (jputIf (hasStr audio ''data'') ''base64'' (jat audio ''data'')
                    (obj [(''type'', JStr ''audio'')]))))
      else Inr v)"

text \<open>The checks of \<^verbatim>\<open>normalizeContentBlock\<close> per block type, on a provider-normalized block.\<close>

definition checkMultimodalBlock :: "json \<Rightarrow> json result" where
  "checkMultimodalBlock b =
     (if jhas b ''base64'' \<and> \<not> is_string (jat b ''base64'')
      then err InvalidArgument ''multimodal content block base64 must be a string''
      else if jhas b ''base64'' \<and> \<not> hasStr b ''mime_type''
      then err InvalidArgument ''base64 multimodal content block requires mime_type''
      else if \<exists>k \<in> set [''url'', ''file_id'', ''id'', ''mime_type''].
                jhas b k \<and> \<not> is_string (jat b k)
      then err InvalidArgument ''multimodal content block string field has invalid type''
      else Inr b)"

definition checkToolCallBlock :: "json \<Rightarrow> json result" where
  "checkToolCallBlock b =
     (if \<not> hasStr b ''name''
      then err InvalidArgument ''tool_call content block requires name''
      else
        let b = jputIf (\<not> jhas b ''args'') ''args'' (JObj []) b in
        if \<not> is_object (jat b ''args'')
        then err InvalidArgument ''tool_call content block args must be an object''
        else if jhas b ''id'' \<and> \<not> is_string (jat b ''id'') \<and> \<not> is_null (jat b ''id'')
        then err InvalidArgument ''tool_call content block id must be a string or null''
        else Inr b)"

definition checkToolCallChunkBlock :: "json \<Rightarrow> json result" where
  "checkToolCallChunkBlock b =
     (if jhas b ''id'' \<and> \<not> is_string (jat b ''id'') \<and> \<not> is_null (jat b ''id'')
      then err InvalidArgument ''tool_call_chunk id must be a string or null''
      else if jhas b ''name'' \<and> \<not> is_string (jat b ''name'') \<and> \<not> is_null (jat b ''name'')
      then err InvalidArgument ''tool_call_chunk name must be a string or null''
      else if jhas b ''args'' \<and> \<not> is_string (jat b ''args'')
      then err InvalidArgument ''tool_call_chunk args must be a string''
      else if jhas b ''index'' \<and> \<not> is_number_unsigned (jat b ''index'') \<and>
              \<not> is_null (jat b ''index'')
      then err InvalidArgument ''tool_call_chunk index must be unsigned or null''
      else Inr b)"

definition normalizeContentBlock :: "json \<Rightarrow> json result" where
  "normalizeContentBlock v =
     (if \<not> is_object v then err InvalidArgument ''content block must be a JSON object''
      else if \<not> hasStr v ''type'' then err InvalidArgument ''content block type is required''
      else rbind (normalizeProviderContentBlock v) (\<lambda>b.
        let type = str_of (jat b ''type'') in
        if type = ''text'' then
          (if \<not> hasStr b ''text''
           then err InvalidArgument ''text content block requires text'' else Inr b)
        else if type = ''reasoning'' then
          (let b = jputIf (jhas b ''text'' \<and> \<not> jhas b ''reasoning'') ''reasoning''
                     (jat b ''text'') b in
           if jhas b ''reasoning'' \<and> \<not> is_string (jat b ''reasoning'')
           then err InvalidArgument ''reasoning content block reasoning must be a string''
           else Inr b)
        else if isKnownMultimodalBlock type then checkMultimodalBlock b
        else if type = ''tool_call'' then checkToolCallBlock b
        else if type = ''tool_call_chunk'' then checkToolCallChunkBlock b
        else Inr b))"

definition contentBlocksFromText :: "string \<Rightarrow> json" where
  "contentBlocksFromText text =
     JArr (if text = [] then [] else [makeTextContentBlock text])"

fun messageTypeName :: "MessageType \<Rightarrow> string" where
  "messageTypeName MsgSystem = ''system''"
| "messageTypeName MsgHuman = ''human''"
| "messageTypeName MsgAI = ''ai''"
| "messageTypeName MsgTool = ''tool''"

definition messageTypeFromName :: "string \<Rightarrow> MessageType result" where
  "messageTypeFromName name =
     (if name = ''system'' then Inr MsgSystem
      else if name = ''human'' then Inr MsgHuman
      else if name = ''ai'' then Inr MsgAI
      else if name = ''tool'' then Inr MsgTool
      else err InvalidArgument ''unknown message type'')"

definition defaultMessage :: BaseMessage where
  "defaultMessage = \<lparr>msg_id = [], msg_type = MsgHuman, content = [], contentBlocks = JArr [],
     toolCalls = [], toolCallId = [], msg_name = [], usageMetadata = defaultUsage,
     responseMetadata = JNull, artifact = JNull\<rparr>"

definition BaseMessage_system :: "string \<Rightarrow> BaseMessage" where
  "BaseMessage_system c = defaultMessage\<lparr>msg_type := MsgSystem, content := c,
     contentBlocks := contentBlocksFromText c\<rparr>"

definition BaseMessage_human :: "string \<Rightarrow> BaseMessage" where
  "BaseMessage_human c = defaultMessage\<lparr>msg_type := MsgHuman, content := c,
     contentBlocks := contentBlocksFromText c\<rparr>"

definition BaseMessage_ai :: "string \<Rightarrow> ToolCall list \<Rightarrow> BaseMessage" where
  "BaseMessage_ai c calls = defaultMessage\<lparr>msg_type := MsgAI, content := c,
     contentBlocks := contentBlocksFromText c, toolCalls := calls\<rparr>"

definition BaseMessage_tool :: "string \<Rightarrow> string \<Rightarrow> string \<Rightarrow> BaseMessage" where
  "BaseMessage_tool callId name c = defaultMessage\<lparr>msg_type := MsgTool, content := c,
     contentBlocks := contentBlocksFromText c, toolCallId := callId, msg_name := name\<rparr>"

definition toolCallToJson :: "ToolCall \<Rightarrow> json" where
  "toolCallToJson t = obj [(''id'', JStr (tc_id t)), (''name'', JStr (tc_name t)),
     (''args'', tc_args t)]"

definition toolCallFromJson :: "json \<Rightarrow> ToolCall result" where
  "toolCallFromJson v =
     (if \<not> is_object v then err InvalidArgument ''tool call must be a JSON object''
      else if \<not> hasStr v ''id'' then err InvalidArgument ''tool call id is required''
      else if \<not> hasStr v ''name'' then err InvalidArgument ''tool call name is required''
      else if \<not> jhas v ''args'' then err InvalidArgument ''tool call args are required''
      else if \<not> is_object (jat v ''args'')
      then err InvalidArgument ''tool call args must be a JSON object''
      else if str_of (jat v ''id'') = []
      then err InvalidArgument ''tool call id cannot be empty''
      else if str_of (jat v ''name'') = []
      then err InvalidArgument ''tool call name cannot be empty''
      else Inr \<lparr>tc_id = str_of (jat v ''id''), tc_name = str_of (jat v ''name''),
                tc_args = jat v ''args''\<rparr>)"

definition toolCallContentBlock :: "ToolCall \<Rightarrow> json" where
  "toolCallContentBlock t = obj [(''type'', JStr ''tool_call''),
     (''id'', if tc_id t = [] then JNull else JStr (tc_id t)),
     (''name'', JStr (tc_name t)), (''args'', tc_args t)]"

definition normalizeContentBlocks :: "json \<Rightarrow> json result" where
  "normalizeContentBlocks v =
     (if \<not> is_array v then err InvalidArgument ''content_blocks must be an array''
      else rbind (mapM_result normalizeContentBlock (jelems v)) (\<lambda>bs. Inr (JArr bs)))"

definition isBlockOfType :: "string \<Rightarrow> json \<Rightarrow> bool" where
  "isBlockOfType t b \<longleftrightarrow> is_object b \<and> jhas b ''type'' \<and> jat b ''type'' = JStr t"

definition contentBlocksText :: "json \<Rightarrow> string" where
  "contentBlocksText blocks =
     concat (map (\<lambda>b. if isBlockOfType ''text'' b \<and> hasStr b ''text''
                      then str_of (jat b ''text'') else []) (jelems blocks))"

definition messageContentBlocks :: "BaseMessage \<Rightarrow> json" where
  "messageContentBlocks m =
     (let blocks = (if is_array (contentBlocks m) \<and> \<not> jempty (contentBlocks m)
                    then contentBlocks m else contentBlocksFromText (content m)) in
      if msg_type m = MsgAI \<and> \<not> (\<exists>b \<in> set (jelems blocks). isBlockOfType ''tool_call'' b)
      then JArr (jelems blocks @ map toolCallContentBlock (toolCalls m))
      else blocks)"

definition baseMessageToJson :: "BaseMessage \<Rightarrow> json" where
  "baseMessageToJson m =
     jputIf (\<not> is_null (artifact m)) ''artifact'' (artifact m)
     (jputIf (\<not> is_null (responseMetadata m)) ''response_metadata'' (responseMetadata m)
     (jputIf (\<not> UsageMetadata_empty (usageMetadata m)) ''usage_metadata''
        (usageMetadataToJson (usageMetadata m))
     (jputIf (msg_name m \<noteq> []) ''name'' (JStr (msg_name m))
     (jputIf (toolCallId m \<noteq> []) ''tool_call_id'' (JStr (toolCallId m))
     (jputIf (toolCalls m \<noteq> []) ''tool_calls'' (JArr (map toolCallToJson (toolCalls m)))
     (jputIf (msg_id m \<noteq> []) ''id'' (JStr (msg_id m))
     (jputIf (\<not> jempty (messageContentBlocks m)) ''content_blocks'' (messageContentBlocks m)
       (obj [(''type'', JStr (messageTypeName (msg_type m))),
             (''role'', JStr (providerRoleName (msg_type m))),
             (''content'', JStr (if content m = [] then contentBlocksText (contentBlocks m)
                                 else content m))]))))))))"

text \<open>
  The loop of \<^verbatim>\<open>baseMessageFromJson\<close> over the blocks of an AI message: \<open>tool_call\<close> blocks
  move to the tool calls unless one with the same id and name is there.
\<close>

definition splitToolCallBlock ::
  "ToolCall list \<times> json list \<Rightarrow> json \<Rightarrow> (ToolCall list \<times> json list) result" where
  "splitToolCallBlock acc b =
     (case acc of (calls, filtered) \<Rightarrow>
        if \<not> isBlockOfType ''tool_call'' b then Inr (calls, filtered @ [b])
        else if \<not> hasStr b ''id'' \<or> \<not> hasStr b ''name'' \<or> \<not> jhas b ''args'' \<or>
                \<not> is_object (jat b ''args'')
        then err InvalidArgument ''tool_call content block requires id, name, and object args''
        else
          let id = str_of (jat b ''id''); name = str_of (jat b ''name'') in
          if \<exists>t \<in> set calls. tc_id t = id \<and> tc_name t = name then Inr (calls, filtered)
          else Inr (calls @ [\<lparr>tc_id = id, tc_name = name, tc_args = jat b ''args''\<rparr>], filtered))"

text \<open>An optional string field: absent gives the empty string, another kind is refused.\<close>

definition optionalString :: "json \<Rightarrow> string \<Rightarrow> string result" where
  "optionalString v k =
     (if \<not> jhas v k then Inr []
      else if \<not> is_string (jat v k)
      then err InvalidArgument (''message '' @ k @ '' must be a string'')
      else Inr (str_of (jat v k)))"

definition checkMessageShape :: "json \<Rightarrow> unit result" where
  "checkMessageShape v =
     (if \<not> is_object v then err InvalidArgument ''message must be a JSON object''
      else if \<not> jhas v ''type'' \<and> \<not> jhas v ''role''
      then err InvalidArgument ''message type or role is required''
      else if jhas v ''type'' \<and> \<not> is_string (jat v ''type'')
      then err InvalidArgument ''message type must be a string''
      else if jhas v ''role'' \<and> \<not> is_string (jat v ''role'')
      then err InvalidArgument ''message role must be a string''
      else if jhas v ''content'' \<and> \<not> is_string (jat v ''content'') \<and>
              \<not> is_array (jat v ''content'') \<and> \<not> is_null (jat v ''content'')
      then err InvalidArgument ''message content must be a string, array, or null''
      else if jhas v ''content_blocks'' \<and> \<not> is_array (jat v ''content_blocks'')
      then err InvalidArgument ''message content_blocks must be an array''
      else Inr ())"

definition baseMessageFromJson :: "json \<Rightarrow> BaseMessage result" where
  "baseMessageFromJson v =
     rbind (checkMessageShape v) (\<lambda>_.
     rbind (if jhas v ''type'' then messageTypeFromName (str_of (jat v ''type''))
            else messageTypeFromRole (str_of (jat v ''role''))) (\<lambda>type.
     rbind (if jhas v ''content_blocks'' then normalizeContentBlocks (jat v ''content_blocks'')
            else if jhas v ''content'' \<and> is_array (jat v ''content'')
            then normalizeContentBlocks (jat v ''content'')
            else Inr (JArr [])) (\<lambda>parsed.
     let content' = (if hasStr v ''content'' then str_of (jat v ''content'')
                     else if \<not> jempty parsed then contentBlocksText parsed else []);
         blocks = (if hasStr v ''content'' \<and> jempty parsed
                   then contentBlocksFromText content' else parsed) in
     rbind (optionalString v ''id'') (\<lambda>id'.
     rbind (if \<not> jhas v ''tool_calls'' then Inr []
            else if \<not> is_array (jat v ''tool_calls'')
            then err InvalidArgument ''message tool_calls must be an array''
            else mapM_result toolCallFromJson (jelems (jat v ''tool_calls''))) (\<lambda>calls.
     rbind (if type = MsgAI \<and> \<not> jempty blocks
            then foldM_result splitToolCallBlock (calls, []) (jelems blocks)
            else Inr (calls, jelems blocks)) (\<lambda>(calls', blocks').
     rbind (optionalString v ''tool_call_id'') (\<lambda>callId.
     rbind (optionalString v ''name'') (\<lambda>name'.
     rbind (if jhas v ''usage_metadata'' then usageMetadataFromJson (jat v ''usage_metadata'')
            else Inr defaultUsage) (\<lambda>usage.
     if type = MsgTool \<and> callId = []
     then err InvalidArgument ''tool message requires tool_call_id''
     else if content' = [] \<and> blocks' = [] \<and> calls' = [] \<and> type \<noteq> MsgAI
     then err InvalidArgument ''message content is required''
     else Inr \<lparr>msg_id = id', msg_type = type, content = content', contentBlocks = JArr blocks',
               toolCalls = calls', toolCallId = callId, msg_name = name',
               usageMetadata = usage, responseMetadata = jat v ''response_metadata'',
               artifact = jat v ''artifact''\<rparr>)))))))))"

definition messagesToJson :: "BaseMessage list \<Rightarrow> json" where
  "messagesToJson ms = JArr (map baseMessageToJson ms)"

definition messagesFromJson :: "json \<Rightarrow> BaseMessage list result" where
  "messagesFromJson v =
     (if \<not> is_array v then err InvalidArgument ''messages must be a JSON array''
      else mapM_result baseMessageFromJson (jelems v))"

definition messagesFromStateJson :: "json \<Rightarrow> string \<Rightarrow> BaseMessage list result" where
  "messagesFromStateJson state field =
     (if \<not> is_object state then err InvalidArgument ''state must be a JSON object''
      else if \<not> jhas state field then Inr []
      else messagesFromJson (jat state field))"

subsection \<open>The round trip of a message\<close>

text \<open>
  The messages a reader can produce: the blocks are an array of normalized blocks, an AI message
  keeps its tool calls apart from its blocks, text without blocks does not occur, and the
  token counts are below \<open>2 ^ 63\<close>.
\<close>

definition tool_call_wf :: "ToolCall \<Rightarrow> bool" where
  "tool_call_wf t \<longleftrightarrow> tc_id t \<noteq> [] \<and> tc_name t \<noteq> [] \<and> is_object (tc_args t)"

definition usage_wf :: "usage_metadata \<Rightarrow> bool" where
  "usage_wf u \<longleftrightarrow>
     is_object (details (tokens u)) \<and> is_object (raw u) \<and> counts_below_2_63 (tokens u)"

definition message_wf :: "BaseMessage \<Rightarrow> bool" where
  "message_wf m \<longleftrightarrow>
     is_array (contentBlocks m) \<and>
     (\<forall>b \<in> set (jelems (contentBlocks m)). normalizeContentBlock b = Inr b) \<and>
     (msg_type m = MsgAI \<longrightarrow>
        (\<forall>b \<in> set (jelems (contentBlocks m)). \<not> isBlockOfType ''tool_call'' b)) \<and>
     (content m = [] \<longrightarrow> contentBlocksText (contentBlocks m) = []) \<and>
     (contentBlocks m = JArr [] \<longrightarrow> content m = []) \<and>
     (\<forall>t \<in> set (toolCalls m). tool_call_wf t) \<and>
     usage_wf (usageMetadata m) \<and>
     (msg_type m = MsgTool \<longrightarrow> toolCallId m \<noteq> []) \<and>
     (msg_type m \<noteq> MsgAI \<longrightarrow> content m \<noteq> [] \<or> contentBlocks m \<noteq> JArr [] \<or> toolCalls m \<noteq> [])"

lemma messageType_roundtrip: "messageTypeFromName (messageTypeName t) = Inr t"
  by (cases t) (simp_all add: messageTypeFromName_def)

lemma messageRole_roundtrip: "messageTypeFromRole (providerRoleName t) = Inr t"
  by (cases t) (simp_all add: messageTypeFromRole_def)

lemma jget_toolCallToJson:
  "jget (toolCallToJson t) k =
     (if k = ''id'' then Some (JStr (tc_id t)) else if k = ''name'' then Some (JStr (tc_name t))
      else if k = ''args'' then Some (tc_args t) else None)"
  by (simp add: toolCallToJson_def jget_obj)

lemma jget_toolCallContentBlock:
  "jget (toolCallContentBlock t) k =
     (if k = ''type'' then Some (JStr ''tool_call'')
      else if k = ''id'' then Some (if tc_id t = [] then JNull else JStr (tc_id t))
      else if k = ''name'' then Some (JStr (tc_name t))
      else if k = ''args'' then Some (tc_args t) else None)"
  by (simp add: toolCallContentBlock_def jget_obj)

lemmas json_access = jhas_def jat_def hasStr_def

lemma toolCall_roundtrip: "tool_call_wf t \<Longrightarrow> toolCallFromJson (toolCallToJson t) = Inr t"
  by (simp add: toolCallFromJson_def json_access jget_toolCallToJson tool_call_wf_def)
    (simp add: toolCallToJson_def)

lemma is_object_toolCallContentBlock [simp]: "is_object (toolCallContentBlock t)"
  by (simp add: toolCallContentBlock_def)

lemma isBlockOfType_toolCallContentBlock [simp]:
  "isBlockOfType ''tool_call'' (toolCallContentBlock t)"
  by (simp add: isBlockOfType_def json_access jget_toolCallContentBlock)

lemma normalize_toolCallContentBlock:
  "tool_call_wf t \<Longrightarrow> normalizeContentBlock (toolCallContentBlock t) = Inr (toolCallContentBlock t)"
  by (simp add: normalizeContentBlock_def normalizeProviderContentBlock_def checkToolCallBlock_def
      jputIf_def json_access jget_toolCallContentBlock tool_call_wf_def isKnownMultimodalBlock_def)

lemma is_object_makeText [simp]: "is_object (makeTextContentBlock t)"
  by (simp add: makeTextContentBlock_def)

lemma jget_makeText:
  "jget (makeTextContentBlock t) k =
     (if k = ''type'' then Some (JStr ''text'') else if k = ''text'' then Some (JStr t) else None)"
  by (simp add: makeTextContentBlock_def jget_obj)

lemma normalize_makeText: "normalizeContentBlock (makeTextContentBlock t) = Inr (makeTextContentBlock t)"
  by (simp add: normalizeContentBlock_def normalizeProviderContentBlock_def json_access jget_makeText)

lemma split_plain_blocks:
  "\<forall>b \<in> set bs. \<not> isBlockOfType ''tool_call'' b \<Longrightarrow>
   foldM_result splitToolCallBlock (calls, fs) bs = Inr (calls, fs @ bs)"
  by (induction bs arbitrary: fs) (auto simp: splitToolCallBlock_def)

lemma split_call_blocks:
  "\<forall>t \<in> set ts. tool_call_wf t \<Longrightarrow> set ts \<subseteq> set calls \<Longrightarrow>
   foldM_result splitToolCallBlock (calls, fs) (map toolCallContentBlock ts) = Inr (calls, fs)"
proof (induction ts)
  case (Cons t ts)
  then have "splitToolCallBlock (calls, fs) (toolCallContentBlock t) = Inr (calls, fs)"
    by (auto simp: splitToolCallBlock_def Let_def json_access jget_toolCallContentBlock tool_call_wf_def)
  with Cons show ?case by simp
qed simp

lemma jget_baseMessageToJson:
  "jget (baseMessageToJson m) k =
     (if k = ''artifact'' \<and> \<not> is_null (artifact m) then Some (artifact m)
      else if k = ''response_metadata'' \<and> \<not> is_null (responseMetadata m)
      then Some (responseMetadata m)
      else if k = ''usage_metadata'' \<and> \<not> UsageMetadata_empty (usageMetadata m)
      then Some (usageMetadataToJson (usageMetadata m))
      else if k = ''name'' \<and> msg_name m \<noteq> [] then Some (JStr (msg_name m))
      else if k = ''tool_call_id'' \<and> toolCallId m \<noteq> [] then Some (JStr (toolCallId m))
      else if k = ''tool_calls'' \<and> toolCalls m \<noteq> []
      then Some (JArr (map toolCallToJson (toolCalls m)))
      else if k = ''id'' \<and> msg_id m \<noteq> [] then Some (JStr (msg_id m))
      else if k = ''content_blocks'' \<and> \<not> jempty (messageContentBlocks m)
      then Some (messageContentBlocks m)
      else if k = ''type'' then Some (JStr (messageTypeName (msg_type m)))
      else if k = ''role'' then Some (JStr (providerRoleName (msg_type m)))
      else if k = ''content''
      then Some (JStr (if content m = [] then contentBlocksText (contentBlocks m) else content m))
      else None)"
  unfolding baseMessageToJson_def by (simp add: jget_obj)

lemma is_object_baseMessageToJson [simp]: "is_object (baseMessageToJson m)"
  by (simp add: baseMessageToJson_def)

lemma usage_empty_default: "UsageMetadata_empty u \<Longrightarrow> u = defaultUsage"
  by (cases u; cases "tokens u")
    (auto simp: UsageMetadata_empty_def TokenUsage_empty_def defaultUsage_def
      defaultTokenUsage_def emptyObject_def jempty_object)

text \<open>What the writer emits as blocks is read back as the same blocks and tool calls.\<close>

lemma jelems_messageContentBlocks:
  assumes "message_wf m"
  shows "messageContentBlocks m =
    JArr (jelems (contentBlocks m) @
          (if msg_type m = MsgAI then map toolCallContentBlock (toolCalls m) else []))"
proof -
  from assms obtain bs where bs: "contentBlocks m = JArr bs"
    by (auto simp: message_wf_def is_array_iff)
  show ?thesis
    using assms
    by (cases "bs = []")
      (auto simp: messageContentBlocks_def bs message_wf_def contentBlocksFromText_def)
qed

lemma normalize_messageContentBlocks:
  assumes "message_wf m"
  shows "normalizeContentBlocks (messageContentBlocks m) = Inr (messageContentBlocks m)"
proof -
  let ?bs = "jelems (messageContentBlocks m)"
  have "\<forall>b \<in> set ?bs. normalizeContentBlock b = Inr b"
    using assms
    by (auto simp: jelems_messageContentBlocks message_wf_def normalize_toolCallContentBlock)
  then show ?thesis
    using mapM_result_id [of ?bs] jelems_messageContentBlocks [OF assms]
    by (simp add: normalizeContentBlocks_def)
qed

lemma split_messageContentBlocks:
  assumes "message_wf m" and "msg_type m = MsgAI"
  shows "foldM_result splitToolCallBlock (toolCalls m, []) (jelems (messageContentBlocks m)) =
    Inr (toolCalls m, jelems (contentBlocks m))"
  using assms
  by (simp add: jelems_messageContentBlocks foldM_result_append split_plain_blocks message_wf_def
      split_call_blocks)

lemma baseMessage_roundtrip_lemma:
  assumes wf: "message_wf m"
  shows "baseMessageFromJson (baseMessageToJson m) = Inr m"
proof -
  let ?v = "baseMessageToJson m"
  let ?bs = "jelems (contentBlocks m)" and ?mb = "messageContentBlocks m"
  note J = json_access jget_baseMessageToJson
  from wf have cb: "contentBlocks m = JArr ?bs"
    by (auto simp: message_wf_def is_array_iff)
  from wf have shape: "checkMessageShape ?v = Inr ()"
    by (simp add: checkMessageShape_def J jelems_messageContentBlocks)
  have ct: "hasStr ?v ''content'' \<and> str_of (jat ?v ''content'') = content m"
    using wf by (auto simp: J message_wf_def)
  have calls: "(if \<not> jhas ?v ''tool_calls'' then Inr []
      else if \<not> is_array (jat ?v ''tool_calls'')
      then err InvalidArgument ''message tool_calls must be an array''
      else mapM_result toolCallFromJson (jelems (jat ?v ''tool_calls''))) = Inr (toolCalls m)"
    using wf mapM_result_map [of "toolCalls m" toolCallFromJson toolCallToJson id]
    by (auto simp: J message_wf_def toolCall_roundtrip)
  have usage: "(if jhas ?v ''usage_metadata''
      then usageMetadataFromJson (jat ?v ''usage_metadata'') else Inr defaultUsage) =
      Inr (usageMetadata m)"
    using wf usage_empty_default [of "usageMetadata m", symmetric]
    by (auto simp: J usage_wf_def usageMetadata_roundtrip_lemma message_wf_def [of m])
  have parsed: "(if jhas ?v ''content_blocks''
      then normalizeContentBlocks (jat ?v ''content_blocks'')
      else if jhas ?v ''content'' \<and> is_array (jat ?v ''content'')
      then normalizeContentBlocks (jat ?v ''content'') else Inr (JArr [])) = Inr ?mb"
    using normalize_messageContentBlocks [OF wf]
    by (auto simp: J jelems_messageContentBlocks [OF wf] split: if_splits)
  have blocks: "jempty ?mb \<Longrightarrow> contentBlocksFromText (content m) = ?mb"
    using wf cb
    by (auto simp: jelems_messageContentBlocks contentBlocksFromText_def message_wf_def)
  have split: "(if msg_type m = MsgAI \<and> \<not> jempty ?mb
      then foldM_result splitToolCallBlock (toolCalls m, []) (jelems ?mb)
      else Inr (toolCalls m, jelems ?mb)) = Inr (toolCalls m, ?bs)"
    using split_messageContentBlocks [OF wf] jelems_messageContentBlocks [OF wf] by auto
  have mtype: "(if jhas ?v ''type'' then messageTypeFromName (str_of (jat ?v ''type''))
      else messageTypeFromRole (str_of (jat ?v ''role''))) = Inr (msg_type m)"
    by (simp add: J messageType_roundtrip)
  have strs: "optionalString ?v ''id'' = Inr (msg_id m)"
    "optionalString ?v ''tool_call_id'' = Inr (toolCallId m)"
    "optionalString ?v ''name'' = Inr (msg_name m)"
    by (simp_all add: optionalString_def J)
  have json: "jat ?v ''response_metadata'' = responseMetadata m" "jat ?v ''artifact'' = artifact m"
    by (simp_all add: J) (metis is_null.elims(2))+
  have blk: "(if hasStr ?v ''content'' \<and> jempty ?mb then contentBlocksFromText (content m)
      else ?mb) = ?mb"
    using blocks by simp
  have ctt: "(if hasStr ?v ''content'' then str_of (jat ?v ''content'')
      else if \<not> jempty ?mb then contentBlocksText ?mb else []) = content m"
    using ct by simp
  have guards: "\<not> (msg_type m = MsgTool \<and> toolCallId m = [])"
    "\<not> (content m = [] \<and> ?bs = [] \<and> toolCalls m = [] \<and> msg_type m \<noteq> MsgAI)"
    using wf cb by (auto simp: message_wf_def)
  show ?thesis
    unfolding baseMessageFromJson_def shape mtype parsed rbind.simps Let_def strs calls usage
      ctt blk split prod.case json
    using guards cb by simp
qed

lemma messages_roundtrip_lemma:
  "\<forall>m \<in> set ms. message_wf m \<Longrightarrow> messagesFromJson (messagesToJson ms) = Inr ms"
  using mapM_result_map [of ms baseMessageFromJson baseMessageToJson id]
  by (simp add: messagesFromJson_def messagesToJson_def baseMessage_roundtrip_lemma)

end
