(* ===== verification/Reducer.thy ===== *)
theory Reducer
  imports Message
begin

text \<open>
  State updates: \<^verbatim>\<open>src/src/langgraph/state/reducer.cpp\<close>.  A registry assigns a merge
  behaviour to a field; \<^verbatim>\<open>applyStateUpdate\<close> merges an update field by field.  The lemmas show
  that a merge acts on each field alone, what it does there, and that \<^verbatim>\<open>add_messages\<close> with
  its index of ids computes the plain replace-or-append of the messages.
\<close>

section \<open>The registry\<close>

datatype ReducerKind = Overwrite | Append | AddMessages | MergeObject

type_synonym ReducerFunction = "json \<Rightarrow> json \<Rightarrow> json result"

record ReducerRegistry =
  reducers :: "(string, ReducerKind) omap"
  customReducers :: "(string, ReducerFunction) omap"

definition emptyRegistry :: ReducerRegistry where
  "emptyRegistry = \<lparr>reducers = [], customReducers = []\<rparr>"

fun reducerKindName :: "ReducerKind \<Rightarrow> string" where
  "reducerKindName Overwrite = ''overwrite''"
| "reducerKindName Append = ''append''"
| "reducerKindName AddMessages = ''add_messages''"
| "reducerKindName MergeObject = ''merge_object''"

definition ReducerRegistry_set :: "string \<Rightarrow> ReducerKind \<Rightarrow> ReducerRegistry \<Rightarrow> ReducerRegistry" where
  "ReducerRegistry_set field kind r = r\<lparr>reducers := omap_put field kind (reducers r)\<rparr>"

text \<open>An empty \<^verbatim>\<open>std::function\<close> is \<open>None\<close>; setting it does nothing.\<close>

definition ReducerRegistry_setCustom ::
  "string \<Rightarrow> ReducerFunction option \<Rightarrow> ReducerRegistry \<Rightarrow> ReducerRegistry" where
  "ReducerRegistry_setCustom field reducer r =
     (case reducer of None \<Rightarrow> r
      | Some f \<Rightarrow> r\<lparr>customReducers := omap_put field f (customReducers r)\<rparr>)"

definition reducerFor :: "ReducerRegistry \<Rightarrow> string \<Rightarrow> ReducerKind" where
  "reducerFor r field =
     (case map_of (reducers r) field of None \<Rightarrow> Overwrite | Some k \<Rightarrow> k)"

definition customReducerFor :: "ReducerRegistry \<Rightarrow> string \<Rightarrow> ReducerFunction option" where
  "customReducerFor r field = map_of (customReducers r) field"

section \<open>Merging one field\<close>

definition applyAppend :: "json \<Rightarrow> string \<Rightarrow> json \<Rightarrow> json result" where
  "applyAppend state field value =
     (let target = (if is_null (jat state field) then JArr [] else jat state field) in
      if \<not> is_array target
      then err InvalidArgument (''append reducer target must be an array: '' @ field)
      else Inr (jput state field
                 (JArr (jelems target @ (if is_array value then jelems value else [value])))))"

definition applyMergeObject :: "json \<Rightarrow> string \<Rightarrow> json \<Rightarrow> json result" where
  "applyMergeObject state field value =
     (if \<not> is_object value
      then err InvalidArgument (''merge_object reducer update must be an object: '' @ field)
      else
        let target = (if is_null (jat state field) then JObj [] else jat state field) in
        if \<not> is_object target
        then err InvalidArgument (''merge_object reducer target must be an object: '' @ field)
        else Inr (jput state field (fold (\<lambda>(k, x) t. jput t k x) (jitems value) target)))"

definition messagesFromAddMessagesValue :: "json \<Rightarrow> BaseMessage list result" where
  "messagesFromAddMessagesValue v =
     (if is_array v then messagesFromJson v
      else if is_object v then rbind (baseMessageFromJson v) (\<lambda>m. Inr [m])
      else err InvalidArgument ''add_messages reducer value must be a message or message array'')"

text \<open>The two loops of \<^verbatim>\<open>applyAddMessages\<close>, with the index of ids.\<close>

fun indexMessages :: "nat \<Rightarrow> BaseMessage list \<Rightarrow> (string \<rightharpoonup> nat) \<Rightarrow> (string \<rightharpoonup> nat)" where
  "indexMessages index [] indexById = indexById"
| "indexMessages index (m # ms) indexById =
     indexMessages (Suc index) ms
       (if msg_id m \<noteq> [] then indexById(msg_id m \<mapsto> index) else indexById)"

definition addMessageStep ::
  "BaseMessage \<Rightarrow> BaseMessage list \<times> (string \<rightharpoonup> nat) \<Rightarrow> BaseMessage list \<times> (string \<rightharpoonup> nat)" where
  "addMessageStep m acc =
     (case acc of (left, indexById) \<Rightarrow>
        if msg_id m \<noteq> [] then
          (case indexById (msg_id m) of
             Some i \<Rightarrow> (left[i := m], indexById)
           | None \<Rightarrow> (left @ [m], indexById(msg_id m \<mapsto> length left)))
        else (left @ [m], indexById))"

definition addMessagesIndexed :: "BaseMessage list \<Rightarrow> BaseMessage list \<Rightarrow> BaseMessage list" where
  "addMessagesIndexed left right =
     fst (fold addMessageStep right (left, indexMessages 0 left (\<lambda>_. None)))"

definition applyAddMessages :: "json \<Rightarrow> string \<Rightarrow> json \<Rightarrow> json result" where
  "applyAddMessages state field value =
     rbind (if jhas state field \<and> \<not> is_null (jat state field)
            then messagesFromAddMessagesValue (jat state field) else Inr []) (\<lambda>left.
     rbind (messagesFromAddMessagesValue value) (\<lambda>right.
     Inr (jput state field (messagesToJson (addMessagesIndexed left right)))))"

section \<open>Merging an update\<close>

definition applyUpdateField ::
  "ReducerRegistry \<Rightarrow> json \<Rightarrow> string \<times> json \<Rightarrow> json result" where
  "applyUpdateField r merged kv =
     (case kv of (key, value) \<Rightarrow>
        if isOverwriteJson value
        then rbind (overwriteFromJson value) (\<lambda>x. Inr (jput merged key x))
        else case customReducerFor r key of
          Some custom \<Rightarrow>
            rbind (custom (if jhas merged key then jat merged key else JNull) value)
              (\<lambda>x. Inr (jput merged key x))
        | None \<Rightarrow>
            (case reducerFor r key of
               Overwrite \<Rightarrow> Inr (jput merged key value)
             | Append \<Rightarrow> applyAppend merged key value
             | AddMessages \<Rightarrow> applyAddMessages merged key value
             | MergeObject \<Rightarrow> applyMergeObject merged key value))"

definition applyStateUpdate :: "json \<Rightarrow> json \<Rightarrow> ReducerRegistry \<Rightarrow> json result" where
  "applyStateUpdate state update r =
     rbind (foldM_result (applyUpdateField r) state (jitems update)) State_fromJsonValue"

section \<open>What a merge does to a field\<close>

text \<open>The value of one field after a merge, from its value before (null when absent).\<close>

definition mergedFields :: "json \<Rightarrow> json \<Rightarrow> json" where
  "mergedFields target value = fold (\<lambda>(k, x) t. jput t k x) (jitems value) target"

definition reduceField :: "ReducerRegistry \<Rightarrow> string \<Rightarrow> json \<Rightarrow> json \<Rightarrow> json result" where
  "reduceField r key current value =
     (if isOverwriteJson value then overwriteFromJson value
      else case customReducerFor r key of
        Some custom \<Rightarrow> custom current value
      | None \<Rightarrow>
          (case reducerFor r key of
             Overwrite \<Rightarrow> Inr value
           | Append \<Rightarrow>
               if is_null current \<or> is_array current
               then Inr (JArr (jelems current @ (if is_array value then jelems value else [value])))
               else err InvalidArgument (''append reducer target must be an array: '' @ key)
           | AddMessages \<Rightarrow>
               rbind (if is_null current then Inr [] else messagesFromAddMessagesValue current)
                 (\<lambda>left. rbind (messagesFromAddMessagesValue value)
                   (\<lambda>right. Inr (messagesToJson (addMessagesIndexed left right))))
           | MergeObject \<Rightarrow>
               if \<not> is_object value
               then err InvalidArgument (''merge_object reducer update must be an object: '' @ key)
               else if is_null current \<or> is_object current
               then Inr (mergedFields (if is_null current then JObj [] else current) value)
               else err InvalidArgument (''merge_object reducer target must be an object: '' @ key)))"

lemma is_null_iff: "is_null v \<longleftrightarrow> v = JNull"
  by (cases v) auto

lemma jat_absent: "\<not> jhas v k \<Longrightarrow> jat v k = JNull"
  by (simp add: jhas_def jat_def)

lemma applyUpdateField_reduce:
  "applyUpdateField r merged (k, v) =
     rbind (reduceField r k (jat merged k) v) (\<lambda>x. Inr (jput merged k x))"
proof -
  have app: "applyAppend merged k v =
      rbind (if is_null (jat merged k) \<or> is_array (jat merged k)
             then Inr (JArr (jelems (jat merged k) @ (if is_array v then jelems v else [v])))
             else err InvalidArgument (''append reducer target must be an array: '' @ k))
        (\<lambda>x. Inr (jput merged k x))"
    by (cases "jat merged k") (auto simp: applyAppend_def)
  have mrg: "applyMergeObject merged k v =
      rbind (if \<not> is_object v
             then err InvalidArgument (''merge_object reducer update must be an object: '' @ k)
             else if is_null (jat merged k) \<or> is_object (jat merged k)
             then Inr (mergedFields (if is_null (jat merged k) then JObj [] else jat merged k) v)
             else err InvalidArgument (''merge_object reducer target must be an object: '' @ k))
        (\<lambda>x. Inr (jput merged k x))"
    by (cases "jat merged k") (auto simp: applyMergeObject_def mergedFields_def)
  have "(if jhas merged k \<and> \<not> is_null (jat merged k)
         then messagesFromAddMessagesValue (jat merged k) else Inr []) =
        (if is_null (jat merged k) then Inr [] else messagesFromAddMessagesValue (jat merged k))"
    using jat_absent [of merged k] by auto
  then have adm: "applyAddMessages merged k v =
      rbind (rbind (if is_null (jat merged k) then Inr []
                    else messagesFromAddMessagesValue (jat merged k))
               (\<lambda>left. rbind (messagesFromAddMessagesValue v)
                 (\<lambda>right. Inr (messagesToJson (addMessagesIndexed left right)))))
        (\<lambda>x. Inr (jput merged k x))"
    by (simp add: applyAddMessages_def
        split: sum.split) (cases "messagesFromAddMessagesValue v";
        cases "messagesFromAddMessagesValue (jat merged k)"; simp)
  have cur: "(if jhas merged k then jat merged k else JNull) = jat merged k"
    using jat_absent [of merged k] by auto
  show ?thesis
    unfolding applyUpdateField_def reduceField_def cur app mrg adm prod.case
    by (simp split: option.split ReducerKind.split)
qed

lemma applyUpdateField_Inr:
  "applyUpdateField r m (k, v) = Inr m' \<longleftrightarrow>
     (\<exists>x. reduceField r k (jat m k) v = Inr x \<and> m' = jput m k x)"
  by (auto simp: applyUpdateField_reduce result_simps)

lemma applyUpdateField_object:
  "is_object m \<Longrightarrow> applyUpdateField r m kv = Inr m' \<Longrightarrow> is_object m'"
  by (cases kv) (auto simp: applyUpdateField_Inr)

text \<open>Each field of the update is merged with the field of the state it names, and with nothing else.\<close>

lemma foldM_applyUpdateField:
  assumes "is_object m" and "distinct (map fst kvs)"
    and "foldM_result (applyUpdateField r) m kvs = Inr m'"
  shows "is_object m' \<and>
    (\<forall>k. case map_of kvs k of
           None \<Rightarrow> jget m' k = jget m k
         | Some v \<Rightarrow> (\<exists>x. reduceField r k (jat m k) v = Inr x \<and> jget m' k = Some x))"
  using assms
proof (induction kvs arbitrary: m)
  case (Cons kv kvs)
  obtain k v where kv: "kv = (k, v)" by (cases kv)
  from Cons.prems(3) obtain x where
    x: "reduceField r k (jat m k) v = Inr x"
    and rest: "foldM_result (applyUpdateField r) (jput m k x) kvs = Inr m'"
    by (auto simp: kv result_simps applyUpdateField_Inr)
  have d: "distinct (map fst kvs)" "map_of kvs k = None"
    using Cons.prems(2) by (auto simp: kv map_of_eq_None_iff)
  note IH = Cons.IH [OF is_object_jput [OF Cons.prems(1)] d(1) rest]
  have "case map_of (kv # kvs) j of
           None \<Rightarrow> jget m' j = jget m j
         | Some v \<Rightarrow> (\<exists>x. reduceField r j (jat m j) v = Inr x \<and> jget m' j = Some x)" for j
    using IH [THEN conjunct2, THEN spec, of j] x d(2) Cons.prems(1)
    by (cases "j = k") (auto simp: kv split: option.splits)
  with IH show ?case by simp
qed simp

lemma foldM_applyUpdateField_fails:
  assumes "is_object m" and "distinct (map fst kvs)" and "(k, v) \<in> set kvs"
    and "reduceField r k (jat m k) v = Inl e"
  shows "\<exists>e'. foldM_result (applyUpdateField r) m kvs = Inl e'"
proof (cases "foldM_result (applyUpdateField r) m kvs")
  case (Inr m')
  from assms(2,3) have "map_of kvs k = Some v" by simp
  with foldM_applyUpdateField [OF assms(1,2) Inr] assms(4) show ?thesis
    by (auto dest!: spec [of _ k])
qed simp

lemma state_ok_json: "state_ok s \<Longrightarrow> is_object s"
  by (simp add: state_ok_def)

lemma applyStateUpdate_Inr:
  assumes "is_object s" and "json_wf u" and "applyStateUpdate s u r = Inr s'"
  shows "state_ok s' \<and>
    (\<forall>k. case jget u k of
           None \<Rightarrow> jget s' k = jget s k
         | Some v \<Rightarrow> (\<exists>x. reduceField r k (jat s k) v = Inr x \<and> jget s' k = Some x))"
proof -
  from assms(2) have "distinct (map fst (jitems u))"
    by (cases u) (auto simp: omap_wf_def)
  moreover from assms(3) have "foldM_result (applyUpdateField r) s (jitems u) = Inr s'"
    and "state_ok s'"
    by (auto simp: applyStateUpdate_def result_simps State_fromJsonValue_Inr)
  ultimately show ?thesis
    using foldM_applyUpdateField [OF assms(1)] by (auto simp: jget_def)
qed

lemma applyStateUpdate_state_ok: "applyStateUpdate s u r = Inr s' \<Longrightarrow> state_ok s'"
  by (auto simp: applyStateUpdate_def result_simps State_fromJsonValue_Inr)

lemma applyStateUpdate_empty: "state_ok s \<Longrightarrow> applyStateUpdate s (JObj []) r = Inr s"
  by (simp add: applyStateUpdate_def State_fromJsonValue_Inr)

section \<open>The messages reducer\<close>

text \<open>The reference: replace the last message with the id, or append.\<close>

fun lastIdIndex :: "string \<Rightarrow> BaseMessage list \<Rightarrow> nat option" where
  "lastIdIndex k [] = None"
| "lastIdIndex k (m # ms) =
     (case lastIdIndex k ms of
        Some i \<Rightarrow> Some (Suc i)
      | None \<Rightarrow> if msg_id m = k then Some 0 else None)"

definition upsertMessage :: "BaseMessage \<Rightarrow> BaseMessage list \<Rightarrow> BaseMessage list" where
  "upsertMessage m ms =
     (if msg_id m = [] then ms @ [m]
      else case lastIdIndex (msg_id m) ms of Some i \<Rightarrow> ms[i := m] | None \<Rightarrow> ms @ [m])"

lemma lastIdIndex_Some:
  "lastIdIndex k ms = Some i \<Longrightarrow> i < length ms \<and> msg_id (ms ! i) = k"
  by (induction ms arbitrary: i) (auto split: option.splits if_splits)

lemma lastIdIndex_None: "lastIdIndex k ms = None \<longleftrightarrow> k \<notin> msg_id ` set ms"
  by (induction ms) (auto split: option.splits)

lemma lastIdIndex_ids: "map msg_id ms = map msg_id ns \<Longrightarrow> lastIdIndex k ms = lastIdIndex k ns"
proof (induction ms arbitrary: ns)
  case (Cons m ms)
  then obtain n ns' where ns: "ns = n # ns'" by (cases ns) auto
  with Cons have "lastIdIndex k ms = lastIdIndex k ns'" "msg_id m = msg_id n" by auto
  then show ?case by (simp add: ns)
qed simp

lemma map_id_update:
  assumes "lastIdIndex (msg_id m) ms = Some i"
  shows "map msg_id (ms[i := m]) = map msg_id ms"
proof -
  have "map msg_id ms ! i = msg_id m" using lastIdIndex_Some [OF assms] by simp
  then show ?thesis using list_update_id [of "map msg_id ms" i] by (simp add: map_update)
qed

lemma lastIdIndex_snoc:
  "lastIdIndex k (ms @ [m]) = (if msg_id m = k then Some (length ms) else lastIdIndex k ms)"
  by (induction ms) (auto split: option.splits)

lemma indexMessages_eq:
  "k \<noteq> [] \<Longrightarrow> indexMessages n ms f k =
     (case lastIdIndex k ms of Some i \<Rightarrow> Some (n + i) | None \<Rightarrow> f k)"
  by (induction n ms f rule: indexMessages.induct) (auto split: option.splits)

lemma fold_addMessageStep:
  assumes "\<forall>k. k \<noteq> [] \<longrightarrow> f k = lastIdIndex k left"
  shows "fst (fold addMessageStep right (left, f)) = fold upsertMessage right left"
  using assms
proof (induction right arbitrary: left f)
  case (Cons m ms)
  obtain left' f' where step: "addMessageStep m (left, f) = (left', f')"
    by (cases "addMessageStep m (left, f)")
  have "left' = upsertMessage m left"
    using step Cons.prems
    by (auto simp: addMessageStep_def upsertMessage_def split: if_splits option.splits)
  moreover have "\<forall>k. k \<noteq> [] \<longrightarrow> f' k = lastIdIndex k left'"
  proof (intro allI impI)
    fix k :: string
    assume "k \<noteq> []"
    have upd: "lastIdIndex k (left[i := m]) = lastIdIndex k left"
      if "lastIdIndex (msg_id m) left = Some i" for i
      by (rule lastIdIndex_ids) (rule map_id_update [OF that])
    show "f' k = lastIdIndex k left'"
      using step Cons.prems \<open>k \<noteq> []\<close> upd
      by (auto simp: addMessageStep_def lastIdIndex_snoc split: if_splits option.splits)
  qed
  ultimately show ?case using Cons.IH by (simp add: step)
qed simp

lemma addMessagesIndexed_eq: "addMessagesIndexed left right = fold upsertMessage right left"
  unfolding addMessagesIndexed_def
  by (rule fold_addMessageStep) (auto simp: indexMessages_eq split: option.split)

text \<open>Replacing keeps the ids in place, so ids stay unique and nothing is lost.\<close>

lemma map_id_upsert:
  "map msg_id (upsertMessage m ms) =
     (if msg_id m \<noteq> [] \<and> msg_id m \<in> msg_id ` set ms then map msg_id ms
      else map msg_id ms @ [msg_id m])"
proof (cases "lastIdIndex (msg_id m) ms")
  case None
  then have "msg_id m \<notin> msg_id ` set ms" by (simp add: lastIdIndex_None)
  with None show ?thesis by (simp add: upsertMessage_def)
next
  case (Some i)
  then have "msg_id m \<in> msg_id ` set ms"
    using lastIdIndex_None [of "msg_id m" ms] by auto
  with Some map_id_update [OF Some] show ?thesis by (auto simp: upsertMessage_def)
qed

definition ids_unique :: "BaseMessage list \<Rightarrow> bool" where
  "ids_unique ms \<longleftrightarrow> distinct (filter (\<lambda>i. i \<noteq> []) (map msg_id ms))"

lemma ids_unique_upsert: "ids_unique ms \<Longrightarrow> ids_unique (upsertMessage m ms)"
  by (auto simp: ids_unique_def map_id_upsert)

lemma ids_unique_fold: "ids_unique left \<Longrightarrow> ids_unique (fold upsertMessage right left)"
  by (induction right arbitrary: left) (auto simp: ids_unique_upsert)

lemma upsert_mem: "m \<in> set (upsertMessage m ms)"
  by (auto simp: upsertMessage_def split: option.split dest!: lastIdIndex_Some
      intro: set_update_memI)

lemma upsert_keeps: "x \<in> set ms \<Longrightarrow> msg_id x = [] \<or> msg_id x \<noteq> msg_id m \<Longrightarrow> x \<in> set (upsertMessage m ms)"
proof (cases "lastIdIndex (msg_id m) ms")
  case (Some i)
  assume x: "x \<in> set ms" "msg_id x = [] \<or> msg_id x \<noteq> msg_id m"
  then obtain j where j: "j < length ms" "ms ! j = x" by (auto simp: in_set_conv_nth)
  show ?thesis
  proof (cases "msg_id m = []")
    case False
    with lastIdIndex_Some [OF Some] x(2) j have "i \<noteq> j" by auto
    then have "ms[i := m] ! j = x" "j < length (ms[i := m])" using j by simp_all
    then have "x \<in> set (ms[i := m])" by (metis nth_mem)
    with Some False show ?thesis by (simp add: upsertMessage_def)
  qed (simp add: upsertMessage_def x(1))
qed (simp add: upsertMessage_def)

lemma fold_upsert_keeps:
  "x \<in> set left \<Longrightarrow> msg_id x = [] \<or> msg_id x \<notin> msg_id ` set right \<Longrightarrow>
   x \<in> set (fold upsertMessage right left)"
  by (induction right arbitrary: left) (auto simp: upsert_keeps)

lemma upsert_twice: "ids_unique ms \<Longrightarrow> m \<in> set ms \<Longrightarrow> msg_id m \<noteq> [] \<Longrightarrow> upsertMessage m ms = ms"
proof -
  assume u: "ids_unique ms" and m: "m \<in> set ms" "msg_id m \<noteq> []"
  then obtain i where i: "lastIdIndex (msg_id m) ms = Some i"
    using lastIdIndex_None by (metis image_eqI not_None_eq)
  note li = lastIdIndex_Some [OF i]
  obtain j where j: "j < length ms" "ms ! j = m" using m(1) by (auto simp: in_set_conv_nth)
  have "i = j"
  proof (rule ccontr)
    assume "i \<noteq> j"
    have "\<not> distinct (filter (\<lambda>i. i \<noteq> []) (map msg_id ms))"
    proof -
      define a b where "a = min i j" and "b = max i j"
      have ab: "a < b" "b < length ms" "msg_id (ms ! a) = msg_id m" "msg_id (ms ! b) = msg_id m"
        using li j \<open>i \<noteq> j\<close> by (auto simp: a_def b_def min_def max_def)
      then have "map msg_id ms = map msg_id (take b ms) @ msg_id m # map msg_id (drop (Suc b) ms)"
        by (metis id_take_nth_drop list.map(2) map_append)
      moreover have "ms ! a \<in> set (take b ms)"
        using ab by (auto simp: in_set_conv_nth intro!: exI [of _ a])
      then have "msg_id m \<in> set (map msg_id (take b ms))"
        using ab(3) by (metis image_eqI list.set_map)
      ultimately show ?thesis using m(2) by auto
    qed
    with u show False by (simp add: ids_unique_def)
  qed
  with j have "ms[i := m] = ms" by (metis list_update_id)
  with m i show ?thesis by (simp add: upsertMessage_def)
qed

end
