(* ===== verification/State_Graph.thy ===== *)
theory State_Graph
  imports Interrupts Reducer
begin

text \<open>
  The graph builder: \<^verbatim>\<open>src/src/langgraph/graph/state_graph.cpp\<close> with the types of
  \<^verbatim>\<open>state_graph_types.hpp\<close> and \<^verbatim>\<open>state_graph_common.hh\<close>.  A builder method takes the graph
  and returns the status and the graph after.  Node handlers, routers and error handlers are
  functions of the application: they get the state and the data of their \<^verbatim>\<open>Runtime\<close>, and a
  handler returns its result with the interrupts it requested, or throws.  A schema is the
  check that \<^verbatim>\<open>SchemaValidator\<close> runs for it.  The lemmas show the invariant of the builder, that a
  failing method leaves the graph as it was, that the depth-first search computes
  reachability, and that \<^verbatim>\<open>validate\<close> accepts exactly the graphs described by
  \<open>graph_valid\<close>.
\<close>

section \<open>Types\<close>

definition START :: string where
  "START = ''__start__''"

definition END :: string where
  "END = ''__end__''"

lemma START_END [simp]: "START \<noteq> END" "END \<noteq> START" "START \<noteq> []" "END \<noteq> []"
  by (simp_all add: START_def END_def)

datatype CommandGraph = Current | Parent

record Command =
  cmd_graph :: CommandGraph
  cmd_update :: json
  cmd_resume :: "json option"
  cmd_goto :: "string list"

record NodeOutput =
  no_update :: json
  no_interrupt :: "Interrupt option"
  no_command :: "Command option"

record Runtime =
  rt_runId :: string
  rt_threadId :: string
  rt_ns :: string
  rt_taskId :: string
  rt_step :: "64 word"
  rt_nodeId :: string
  rt_resumeValue :: "json option"
  rt_attempt :: nat

datatype 'a outcome = Returned "'a result" "json list" | Threw string | ThrewUnknown

type_synonym NodeHandler = "json \<Rightarrow> Runtime \<Rightarrow> json outcome"
type_synonym NodeOutputHandler = "json \<Rightarrow> Runtime \<Rightarrow> NodeOutput outcome"
type_synonym NodeErrorHandler = "status \<Rightarrow> json \<Rightarrow> Runtime \<Rightarrow> NodeOutput outcome"
type_synonym RouterHandler = "json \<Rightarrow> Runtime \<Rightarrow> string result"
type_synonym MultiRouterHandler = "json \<Rightarrow> Runtime \<Rightarrow> string list result"
type_synonym SendRouterHandler = "json \<Rightarrow> Runtime \<Rightarrow> (string \<times> json) list result"

record RouteTarget =
  tg_node :: string
  tg_arg :: "json option"

type_synonym RouteHandler = "json \<Rightarrow> Runtime \<Rightarrow> RouteTarget list result"

text \<open>The double of the backoff factor appears as the function that scales a delay by it.\<close>

record NodeRetryPolicy =
  maxAttempts :: nat
  initialInterval :: int
  backoff :: "int \<Rightarrow> int"

record NodeOptions =
  retry :: NodeRetryPolicy
  timeout :: "int option"
  errorHandler :: "NodeErrorHandler option"

type_synonym JsonSchema = "json \<Rightarrow> status"

record StateSchemaOptions =
  inputSchema :: "JsonSchema option"
  stateSchema :: "JsonSchema option"
  outputSchema :: "JsonSchema option"

record NodeSpec =
  ns_handler :: NodeOutputHandler
  ns_options :: NodeOptions

record StateGraph =
  sg_nodes :: "(string, NodeSpec) omap"
  sg_edges :: "(string, string list) omap"
  sg_routers :: "(string, RouteHandler) omap"
  sg_routerDestinations :: "(string, string list) omap"
  sg_commandDestinations :: "(string, string list) omap"
  sg_nodeDefaults :: NodeOptions
  sg_schemas :: StateSchemaOptions

definition defaultNodeOptions :: NodeOptions where
  "defaultNodeOptions = \<lparr>retry = \<lparr>maxAttempts = 1, initialInterval = 0, backoff = (\<lambda>d. 2 * d)\<rparr>,
     timeout = None, errorHandler = None\<rparr>"

definition emptyGraph :: StateGraph where
  "emptyGraph = \<lparr>sg_nodes = [], sg_edges = [], sg_routers = [], sg_routerDestinations = [],
     sg_commandDestinations = [], sg_nodeDefaults = defaultNodeOptions,
     sg_schemas = \<lparr>inputSchema = None, stateSchema = None, outputSchema = None\<rparr>\<rparr>"

section \<open>Commands and outputs\<close>

definition Command_resume :: "json \<Rightarrow> json \<Rightarrow> Command" where
  "Command_resume value update =
     \<lparr>cmd_graph = Current, cmd_update = update, cmd_resume = Some value, cmd_goto = []\<rparr>"

definition Command_gotoNodes :: "string list \<Rightarrow> json \<Rightarrow> Command" where
  "Command_gotoNodes targets update =
     \<lparr>cmd_graph = Current, cmd_update = update, cmd_resume = None, cmd_goto = targets\<rparr>"

definition Command_gotoParentNodes :: "string list \<Rightarrow> json \<Rightarrow> Command" where
  "Command_gotoParentNodes targets update =
     \<lparr>cmd_graph = Parent, cmd_update = update, cmd_resume = None, cmd_goto = targets\<rparr>"

definition NodeOutput_update :: "json \<Rightarrow> NodeOutput" where
  "NodeOutput_update u = \<lparr>no_update = u, no_interrupt = None, no_command = None\<rparr>"

definition NodeOutput_command :: "Command \<Rightarrow> NodeOutput" where
  "NodeOutput_command c = \<lparr>no_update = cmd_update c, no_interrupt = None, no_command = Some c\<rparr>"

definition NodeOutput_interrupt :: "Interrupt \<Rightarrow> json \<Rightarrow> NodeOutput" where
  "NodeOutput_interrupt i u = \<lparr>no_update = u, no_interrupt = Some i, no_command = None\<rparr>"

section \<open>Builder methods\<close>

definition validateUserNodeId :: "string \<Rightarrow> unit result" where
  "validateUserNodeId nid =
     (if nid = [] then err InvalidArgument ''node id cannot be empty''
      else if nid = START \<or> nid = END then err InvalidArgument ''node id is reserved''
      else if CHR ''|'' \<in> set nid
      then err InvalidArgument ''node id contains reserved namespace separator''
      else if CHR '':'' \<in> set nid
      then err InvalidArgument ''node id contains reserved namespace task separator''
      else Inr ())"

definition validateTargetNodeId :: "string \<Rightarrow> unit result" where
  "validateTargetNodeId nid =
     (if nid = [] then err InvalidArgument ''target node id cannot be empty''
      else if nid = START then err InvalidArgument ''edge target cannot be START''
      else Inr ())"

definition hasNodeOrEnd :: "StateGraph \<Rightarrow> string \<Rightarrow> bool" where
  "hasNodeOrEnd g nid \<longleftrightarrow> nid = END \<or> omap_has nid (sg_nodes g)"

definition setNodeDefaults :: "NodeOptions \<Rightarrow> StateGraph \<Rightarrow> StateGraph" where
  "setNodeDefaults opts g = g\<lparr>sg_nodeDefaults := opts\<rparr>"

definition setSchemas :: "StateSchemaOptions \<Rightarrow> StateGraph \<Rightarrow> StateGraph" where
  "setSchemas schemas g = g\<lparr>sg_schemas := schemas\<rparr>"

definition setInputSchema :: "JsonSchema \<Rightarrow> StateGraph \<Rightarrow> StateGraph" where
  "setInputSchema sch g = g\<lparr>sg_schemas := (sg_schemas g)\<lparr>inputSchema := Some sch\<rparr>\<rparr>"

definition setStateSchema :: "JsonSchema \<Rightarrow> StateGraph \<Rightarrow> StateGraph" where
  "setStateSchema sch g = g\<lparr>sg_schemas := (sg_schemas g)\<lparr>stateSchema := Some sch\<rparr>\<rparr>"

definition setOutputSchema :: "JsonSchema \<Rightarrow> StateGraph \<Rightarrow> StateGraph" where
  "setOutputSchema sch g = g\<lparr>sg_schemas := (sg_schemas g)\<lparr>outputSchema := Some sch\<rparr>\<rparr>"

definition addNodeOutput ::
  "string \<Rightarrow> NodeOutputHandler option \<Rightarrow> NodeOptions \<Rightarrow> (StateGraph, unit) sres" where
  "addNodeOutput nid handler opts g =
     (case validateUserNodeId nid of
        Inl e \<Rightarrow> (Inl e, g)
      | Inr _ \<Rightarrow>
          (case handler of
             None \<Rightarrow> (err InvalidArgument ''node handler cannot be empty'', g)
           | Some h \<Rightarrow>
               if omap_has nid (sg_nodes g)
               then (err AlreadyExists (''node already exists: '' @ nid), g)
               else (Inr (), g\<lparr>sg_nodes :=
                       omap_emplace nid \<lparr>ns_handler = h, ns_options = opts\<rparr> (sg_nodes g)\<rparr>)))"

text \<open>A handler that returns an update becomes a handler that returns an output.\<close>

definition updateHandler :: "NodeHandler \<Rightarrow> NodeOutputHandler" where
  "updateHandler h st rt =
     (case h st rt of
        Returned (Inl e) reqs \<Rightarrow> Returned (Inl e) reqs
      | Returned (Inr u) reqs \<Rightarrow> Returned (Inr (NodeOutput_update u)) reqs
      | Threw what \<Rightarrow> Threw what
      | ThrewUnknown \<Rightarrow> ThrewUnknown)"

definition addNode :: "string \<Rightarrow> NodeHandler option \<Rightarrow> NodeOptions \<Rightarrow> (StateGraph, unit) sres" where
  "addNode nid handler opts g =
     (case handler of
        None \<Rightarrow> (err InvalidArgument ''node handler cannot be empty'', g)
      | Some h \<Rightarrow> addNodeOutput nid (Some (updateHandler h)) opts g)"

definition setNodeOptions :: "string \<Rightarrow> NodeOptions \<Rightarrow> (StateGraph, unit) sres" where
  "setNodeOptions nid opts g =
     (case validateUserNodeId nid of
        Inl e \<Rightarrow> (Inl e, g)
      | Inr _ \<Rightarrow>
          (case map_of (sg_nodes g) nid of
             None \<Rightarrow> (err NotFound (''node not found: '' @ nid), g)
           | Some spec \<Rightarrow>
               (Inr (), g\<lparr>sg_nodes := omap_put nid (spec\<lparr>ns_options := opts\<rparr>) (sg_nodes g)\<rparr>)))"

definition edgesFrom :: "StateGraph \<Rightarrow> string \<Rightarrow> string list" where
  "edgesFrom g source = (case map_of (sg_edges g) source of None \<Rightarrow> [] | Some ts \<Rightarrow> ts)"

definition addEdge :: "string \<Rightarrow> string \<Rightarrow> (StateGraph, unit) sres" where
  "addEdge source target g =
     (if source = [] then (err InvalidArgument ''edge source cannot be empty'', g)
      else if source = END then (err InvalidArgument ''edge source cannot be END'', g)
      else case (if source \<noteq> START then validateUserNodeId source else Inr ()) of
        Inl e \<Rightarrow> (Inl e, g)
      | Inr _ \<Rightarrow>
          (case validateTargetNodeId target of
             Inl e \<Rightarrow> (Inl e, g)
           | Inr _ \<Rightarrow>
               if target \<in> set (edgesFrom g source)
               then (err AlreadyExists ''edge already exists'', g)
               else (Inr (), g\<lparr>sg_edges :=
                       omap_put source (edgesFrom g source @ [target]) (sg_edges g)\<rparr>)))"

text \<open>
  The methods that work on a copy of the graph and replace the graph only when every step
  succeeded.
\<close>

definition transactional :: "(StateGraph, unit) sres \<Rightarrow> (StateGraph, unit) sres" where
  "transactional m g = (case m g of (Inl e, _) \<Rightarrow> (Inl e, g) | (Inr _, candidate) \<Rightarrow> (Inr (), candidate))"

definition addEdges :: "string list \<Rightarrow> string \<Rightarrow> (StateGraph, unit) sres" where
  "addEdges sources target g =
     (if sources = [] then (err InvalidArgument ''edge sources cannot be empty'', g)
      else transactional (sfold (\<lambda>source _. addEdge source target) sources ()) g)"

definition sequenceStep ::
  "string \<times> NodeOutputHandler option \<Rightarrow> string option \<Rightarrow> (StateGraph, string option) sres" where
  "sequenceStep node previous g =
     (case node of (nid, handler) \<Rightarrow>
        sbind (addNodeOutput nid handler (sg_nodeDefaults g)) (\<lambda>_.
        sbind (case previous of None \<Rightarrow> sret () | Some p \<Rightarrow> addEdge p nid) (\<lambda>_.
        sret (Some nid))) g)"

definition addSequenceOutput ::
  "(string \<times> NodeOutputHandler option) list \<Rightarrow> (StateGraph, unit) sres" where
  "addSequenceOutput nodes g =
     (if nodes = [] then (err InvalidArgument ''sequence requires at least one node'', g)
      else transactional (sbind (sfold sequenceStep nodes None) (\<lambda>_. sret ())) g)"

definition addSequence :: "(string \<times> NodeHandler option) list \<Rightarrow> (StateGraph, unit) sres" where
  "addSequence nodes g =
     (if nodes = [] then (err InvalidArgument ''sequence requires at least one node'', g)
      else if \<exists>(nid, h) \<in> set nodes. h = None
      then (err InvalidArgument ''node handler cannot be empty'', g)
      else addSequenceOutput (map (\<lambda>(nid, h). (nid, map_option updateHandler h)) nodes) g)"

definition setEntryPoint :: "string \<Rightarrow> (StateGraph, unit) sres" where
  "setEntryPoint target = addEdge START target"

definition setFinishPoint :: "string \<Rightarrow> (StateGraph, unit) sres" where
  "setFinishPoint source = addEdge source END"

definition registerRoute ::
  "string \<Rightarrow> RouteHandler option \<Rightarrow> string list \<Rightarrow> (StateGraph, unit) sres" where
  "registerRoute source router destinations g =
     (if source = [] then (err InvalidArgument ''router source cannot be empty'', g)
      else case (if source \<noteq> START then validateUserNodeId source else Inr ()) of
        Inl e \<Rightarrow> (Inl e, g)
      | Inr _ \<Rightarrow>
          (case router of
             None \<Rightarrow> (err InvalidArgument ''router handler cannot be empty'', g)
           | Some r \<Rightarrow>
               if omap_has source (sg_routers g)
               then (err AlreadyExists (''conditional edges already exist: '' @ source), g)
               else case mapM_result validateTargetNodeId destinations of
                 Inl e \<Rightarrow> (Inl e, g)
               | Inr _ \<Rightarrow>
                   (Inr (), g\<lparr>sg_routers := omap_emplace source r (sg_routers g),
                              sg_routerDestinations := omap_emplace source (oset_of destinations)
                                (sg_routerDestinations g)\<rparr>)))"

definition routeOne :: "RouterHandler \<Rightarrow> RouteHandler" where
  "routeOne r st rt = rbind (r st rt) (\<lambda>n. Inr [\<lparr>tg_node = n, tg_arg = None\<rparr>])"

definition routeMany :: "MultiRouterHandler \<Rightarrow> RouteHandler" where
  "routeMany r st rt = rbind (r st rt) (\<lambda>ns. Inr (map (\<lambda>n. \<lparr>tg_node = n, tg_arg = None\<rparr>) ns))"

definition routeSends :: "SendRouterHandler \<Rightarrow> RouteHandler" where
  "routeSends r st rt =
     rbind (r st rt) (\<lambda>sends. Inr (map (\<lambda>(n, arg). \<lparr>tg_node = n, tg_arg = Some arg\<rparr>) sends))"

definition addConditionalEdges ::
  "string \<Rightarrow> RouterHandler option \<Rightarrow> string list \<Rightarrow> (StateGraph, unit) sres" where
  "addConditionalEdges source router destinations g =
     (case router of
        None \<Rightarrow> (err InvalidArgument ''router handler cannot be empty'', g)
      | Some r \<Rightarrow> registerRoute source (Some (routeOne r)) destinations g)"

definition addConditionalEdgesMulti ::
  "string \<Rightarrow> MultiRouterHandler option \<Rightarrow> string list \<Rightarrow> (StateGraph, unit) sres" where
  "addConditionalEdgesMulti source router destinations g =
     (case router of
        None \<Rightarrow> (err InvalidArgument ''router handler cannot be empty'', g)
      | Some r \<Rightarrow> registerRoute source (Some (routeMany r)) destinations g)"

definition addConditionalEdgesSend ::
  "string \<Rightarrow> SendRouterHandler option \<Rightarrow> string list \<Rightarrow> (StateGraph, unit) sres" where
  "addConditionalEdgesSend source router destinations g =
     (case router of
        None \<Rightarrow> (err InvalidArgument ''router handler cannot be empty'', g)
      | Some r \<Rightarrow> registerRoute source (Some (routeSends r)) destinations g)"

definition setConditionalEntryPoint ::
  "RouterHandler option \<Rightarrow> string list \<Rightarrow> (StateGraph, unit) sres" where
  "setConditionalEntryPoint router destinations = addConditionalEdges START router destinations"

definition addCommandRoute :: "string \<Rightarrow> string list \<Rightarrow> (StateGraph, unit) sres" where
  "addCommandRoute source destinations g =
     (case validateUserNodeId source of
        Inl e \<Rightarrow> (Inl e, g)
      | Inr _ \<Rightarrow>
          if omap_has source (sg_commandDestinations g)
          then (err AlreadyExists (''command destinations already exist: '' @ source), g)
          else case mapM_result validateTargetNodeId destinations of
            Inl e \<Rightarrow> (Inl e, g)
          | Inr _ \<Rightarrow>
              (Inr (), g\<lparr>sg_commandDestinations := omap_emplace source (oset_of destinations)
                           (sg_commandDestinations g)\<rparr>))"

section \<open>Validation\<close>

type_synonym adjacency = "(string, string list) omap"

text \<open>The depth-first search; the top of the stack is the head of the list.\<close>

function reachLoop :: "adjacency \<Rightarrow> string list \<Rightarrow> string list \<Rightarrow> string list" where
  "reachLoop adj visited [] = visited"
| "reachLoop adj visited (node # stack) =
     (if node \<in> set visited then reachLoop adj visited stack
      else
        let visited' = oset_insert node visited in
        case map_of adj node of
          None \<Rightarrow> reachLoop adj visited' stack
        | Some targets \<Rightarrow>
            reachLoop adj visited' (rev (filter (\<lambda>t. t \<notin> set visited') targets) @ stack))"
  by pat_completeness auto
termination
proof (relation "measures [\<lambda>(adj, visited, stack). card (fst ` set adj - set visited),
    \<lambda>(adj, visited, stack). length stack]", goal_cases)
  case (3 adj visited node stack visited')
  have "fst ` set adj - set visited' \<subseteq> fst ` set adj - set visited" using 3 by auto
  then have "card (fst ` set adj - set visited') \<le> card (fst ` set adj - set visited)"
    by (intro card_mono) auto
  then show ?case by (auto simp: le_eq_less_or_eq)
next
  case (4 adj visited node stack visited' targets)
  then have "node \<in> fst ` set adj" by (metis domI dom_map_of_conv_image_fst)
  then have "fst ` set adj - set visited' \<subset> fst ` set adj - set visited" using 4 by auto
  then have "card (fst ` set adj - set visited') < card (fst ` set adj - set visited)"
    by (intro psubset_card_mono) auto
  then show ?case by simp
qed auto

definition reachableFrom :: "adjacency \<Rightarrow> string \<Rightarrow> string list" where
  "reachableFrom adj start = reachLoop adj [] [start]"

definition adjOf :: "adjacency \<Rightarrow> string \<Rightarrow> string list" where
  "adjOf adj a = (case map_of adj a of None \<Rightarrow> [] | Some ts \<Rightarrow> ts)"

definition openRouteTargets :: "StateGraph \<Rightarrow> string list" where
  "openRouteTargets g = omap_keys (sg_nodes g) @ [END]"

definition validateEdgeEntry :: "StateGraph \<Rightarrow> adjacency \<Rightarrow> string \<times> string list \<Rightarrow> adjacency result" where
  "validateEdgeEntry g adj entry =
     (case entry of (source, targets) \<Rightarrow>
        if source \<noteq> START \<and> \<not> omap_has source (sg_nodes g)
        then err FailedPrecondition (''edge source is unknown: '' @ source)
        else if omap_has source (sg_routers g)
        then err FailedPrecondition
          (''node cannot have both normal and conditional edges: '' @ source)
        else if omap_has source (sg_commandDestinations g)
        then err FailedPrecondition
          (''node cannot have both normal and command routing edges: '' @ source)
        else case List.find (\<lambda>t. \<not> hasNodeOrEnd g t) targets of
          Some t \<Rightarrow> err FailedPrecondition (''edge target is unknown: '' @ t)
        | None \<Rightarrow> Inr (omap_put source targets adj))"

definition validateRouterEntry :: "StateGraph \<Rightarrow> adjacency \<Rightarrow> string \<times> RouteHandler \<Rightarrow> adjacency result" where
  "validateRouterEntry g adj entry =
     (case entry of (source, _) \<Rightarrow>
        if source \<noteq> START \<and> \<not> omap_has source (sg_nodes g)
        then err FailedPrecondition (''router source is unknown: '' @ source)
        else if omap_has source (sg_commandDestinations g)
        then err FailedPrecondition
          (''node cannot have both conditional and command routing edges: '' @ source)
        else
          let destinations = adjOf (sg_routerDestinations g) source in
          if destinations = [] then Inr (omap_put source (openRouteTargets g) adj)
          else case List.find (\<lambda>t. \<not> hasNodeOrEnd g t) destinations of
            Some t \<Rightarrow> err FailedPrecondition (''router target is unknown: '' @ t)
          | None \<Rightarrow> Inr (omap_put source (adjOf adj source @ destinations) adj))"

definition validateCommandEntry :: "StateGraph \<Rightarrow> adjacency \<Rightarrow> string \<times> string list \<Rightarrow> adjacency result" where
  "validateCommandEntry g adj entry =
     (case entry of (source, destinations) \<Rightarrow>
        if \<not> omap_has source (sg_nodes g)
        then err FailedPrecondition (''command source is unknown: '' @ source)
        else if destinations = [] then Inr (omap_put source (openRouteTargets g) adj)
        else case List.find (\<lambda>t. \<not> hasNodeOrEnd g t) destinations of
          Some t \<Rightarrow> err FailedPrecondition (''command target is unknown: '' @ t)
        | None \<Rightarrow> Inr (omap_put source (adjOf adj source @ destinations) adj))"

text \<open>A node without any outgoing declaration ends the run.\<close>

definition implicitEnd :: "StateGraph \<Rightarrow> string \<Rightarrow> bool" where
  "implicitEnd g node \<longleftrightarrow> \<not> omap_has node (sg_edges g) \<and> \<not> omap_has node (sg_routers g) \<and>
     \<not> omap_has node (sg_commandDestinations g)"

definition addImplicitEnd :: "StateGraph \<Rightarrow> string \<Rightarrow> adjacency \<Rightarrow> adjacency" where
  "addImplicitEnd g node adj =
     (if implicitEnd g node then omap_put node (adjOf adj node @ [END]) adj else adj)"

definition initialAdjacency :: "StateGraph \<Rightarrow> adjacency" where
  "initialAdjacency g =
     fold (\<lambda>n adj. omap_emplace n [] adj) (omap_keys (sg_nodes g))
       (omap_emplace END [] (omap_emplace START [] []))"

definition buildAdjacency :: "StateGraph \<Rightarrow> adjacency result" where
  "buildAdjacency g =
     rbind (foldM_result (validateEdgeEntry g) (initialAdjacency g) (sg_edges g)) (\<lambda>adj.
     rbind (foldM_result (validateRouterEntry g) adj (sg_routers g)) (\<lambda>adj.
     rbind (foldM_result (validateCommandEntry g) adj (sg_commandDestinations g)) (\<lambda>adj.
     Inr (fold (addImplicitEnd g) (omap_keys (sg_nodes g)) adj))))"

definition reverseEntry :: "string \<times> string list \<Rightarrow> adjacency \<Rightarrow> adjacency" where
  "reverseEntry entry rev' =
     (case entry of (node, targets) \<Rightarrow>
        fold (\<lambda>t r. omap_put t (adjOf r t @ [node]) r) targets (omap_emplace node [] rev'))"

definition reverseAdjacency :: "adjacency \<Rightarrow> adjacency" where
  "reverseAdjacency adj = fold reverseEntry adj []"

definition validate :: "StateGraph \<Rightarrow> unit result" where
  "validate g =
     (if edgesFrom g START = [] \<and> \<not> omap_has START (sg_routers g)
      then err FailedPrecondition ''graph must have an edge from START''
      else rbind (buildAdjacency g) (\<lambda>adj.
        let reachable = reachableFrom adj START in
        if END \<notin> set reachable
        then err FailedPrecondition ''END is not reachable from START''
        else case List.find (\<lambda>n. n \<notin> set reachable) (omap_keys (sg_nodes g)) of
          Some n \<Rightarrow> err FailedPrecondition (''node is not reachable from START: '' @ n)
        | None \<Rightarrow>
            let canReachEnd = reachableFrom (reverseAdjacency adj) END in
            (case List.find (\<lambda>n. n \<noteq> END \<and> n \<notin> set canReachEnd) reachable of
               Some n \<Rightarrow> err FailedPrecondition (''reachable node cannot reach END: '' @ n)
             | None \<Rightarrow> Inr ())))"

text \<open>A compiled graph is the validated declaration.\<close>

definition compile :: "StateGraph \<Rightarrow> StateGraph result" where
  "compile g = rbind (validate g) (\<lambda>_. Inr g)"

section \<open>The search computes reachability\<close>

definition step_rel :: "adjacency \<Rightarrow> string \<Rightarrow> string \<Rightarrow> bool" where
  "step_rel adj a b \<longleftrightarrow> b \<in> set (adjOf adj a)"

lemma reachLoop_sound:
  assumes "n \<in> set (reachLoop adj visited stack)"
  shows "n \<in> set visited \<or> (\<exists>m \<in> set stack. (step_rel adj)\<^sup>*\<^sup>* m n)"
  using assms
proof (induction adj visited stack rule: reachLoop.induct)
  case (2 adj visited node stack)
  show ?case
  proof (cases "node \<in> set visited")
    case True
    with 2 show ?thesis by auto
  next
    case False
    show ?thesis
    proof (cases "map_of adj node")
      case None
      with 2 False show ?thesis by auto
    next
      case (Some targets)
      let ?st = "rev (filter (\<lambda>t. t \<notin> set (oset_insert node visited)) targets) @ stack"
      from 2(3) [OF False refl Some] 2(4) False Some
      consider "n \<in> set (oset_insert node visited)" | m where "m \<in> set ?st" "(step_rel adj)\<^sup>*\<^sup>* m n"
        by auto
      then show ?thesis
      proof cases
        case 1
        then show ?thesis by auto
      next
        case (2 m)
        then show ?thesis
        proof (cases "m \<in> set stack")
          case False
          with 2 have "step_rel adj node m" using Some by (auto simp: step_rel_def adjOf_def)
          from this 2(2) have "(step_rel adj)\<^sup>*\<^sup>* node n"
            by (rule converse_rtranclp_into_rtranclp)
          then show ?thesis by auto
        qed (use 2 in auto)
      qed
    qed
  qed
qed simp

lemma reachLoop_closed:
  assumes "\<forall>a \<in> set visited. \<forall>b. step_rel adj a b \<longrightarrow> b \<in> set visited \<union> set stack"
  shows "set visited \<union> set stack \<subseteq> set (reachLoop adj visited stack) \<and>
    (\<forall>a \<in> set (reachLoop adj visited stack). \<forall>b. step_rel adj a b \<longrightarrow>
       b \<in> set (reachLoop adj visited stack))"
  using assms
proof (induction adj visited stack rule: reachLoop.induct)
  case (2 adj visited node stack)
  show ?case
  proof (cases "node \<in> set visited")
    case True
    with 2(1) [OF True] 2(4) show ?thesis by auto
  next
    case False
    let ?v = "oset_insert node visited"
    show ?thesis
    proof (cases "map_of adj node")
      case None
      then have "\<not> step_rel adj node b" for b by (simp add: step_rel_def adjOf_def)
      then have "\<forall>a \<in> set ?v. \<forall>b. step_rel adj a b \<longrightarrow> b \<in> set ?v \<union> set stack"
        using 2(4) by auto
      with 2(2) [OF False refl None] False None show ?thesis by simp
    next
      case (Some targets)
      let ?st = "rev (filter (\<lambda>t. t \<notin> set ?v) targets) @ stack"
      have succ: "step_rel adj node b \<longleftrightarrow> b \<in> set targets" for b
        using Some by (simp add: step_rel_def adjOf_def)
      have "\<forall>a \<in> set ?v. \<forall>b. step_rel adj a b \<longrightarrow> b \<in> set ?v \<union> set ?st"
        using 2(4) succ by auto
      from 2(3) [OF False refl Some this] False Some show ?thesis by auto
    qed
  qed
qed simp

lemma reachableFrom_iff: "n \<in> set (reachableFrom adj start) \<longleftrightarrow> (step_rel adj)\<^sup>*\<^sup>* start n"
proof
  assume "n \<in> set (reachableFrom adj start)"
  then show "(step_rel adj)\<^sup>*\<^sup>* start n"
    using reachLoop_sound [of n adj "[]" "[start]"] by (simp add: reachableFrom_def)
next
  assume r: "(step_rel adj)\<^sup>*\<^sup>* start n"
  have c: "start \<in> set (reachableFrom adj start)"
    "\<forall>a \<in> set (reachableFrom adj start). \<forall>b. step_rel adj a b \<longrightarrow> b \<in> set (reachableFrom adj start)"
    using reachLoop_closed [of "[]" adj "[start]"] by (auto simp: reachableFrom_def)
  from r show "n \<in> set (reachableFrom adj start)"
    by (induction rule: rtranclp_induct) (use c in auto)
qed

section \<open>What validation accepts\<close>

text \<open>From \<open>a\<close> the run can go on to \<open>b\<close>.\<close>

definition flow :: "StateGraph \<Rightarrow> string \<Rightarrow> string \<Rightarrow> bool" where
  "flow g a b \<longleftrightarrow>
     b \<in> set (edgesFrom g a) \<or>
     (omap_has a (sg_routers g) \<and>
       (let ds = adjOf (sg_routerDestinations g) a in
        if ds = [] then b \<in> set (openRouteTargets g) else b \<in> set ds)) \<or>
     (\<exists>ds. map_of (sg_commandDestinations g) a = Some ds \<and>
       (if ds = [] then b \<in> set (openRouteTargets g) else b \<in> set ds)) \<or>
     (omap_has a (sg_nodes g) \<and> implicitEnd g a \<and> b = END)"

definition edge_ok :: "StateGraph \<Rightarrow> string \<Rightarrow> string list \<Rightarrow> bool" where
  "edge_ok g a ts \<longleftrightarrow> (a = START \<or> omap_has a (sg_nodes g)) \<and> \<not> omap_has a (sg_routers g) \<and>
     \<not> omap_has a (sg_commandDestinations g) \<and> (\<forall>t \<in> set ts. hasNodeOrEnd g t)"

definition router_ok :: "StateGraph \<Rightarrow> string \<Rightarrow> bool" where
  "router_ok g a \<longleftrightarrow> (a = START \<or> omap_has a (sg_nodes g)) \<and>
     \<not> omap_has a (sg_commandDestinations g) \<and>
     (\<forall>t \<in> set (adjOf (sg_routerDestinations g) a). hasNodeOrEnd g t)"

definition command_ok :: "StateGraph \<Rightarrow> string \<Rightarrow> string list \<Rightarrow> bool" where
  "command_ok g a ds \<longleftrightarrow> omap_has a (sg_nodes g) \<and> (\<forall>t \<in> set ds. hasNodeOrEnd g t)"

definition declarations_ok :: "StateGraph \<Rightarrow> bool" where
  "declarations_ok g \<longleftrightarrow>
     (\<forall>(a, ts) \<in> set (sg_edges g). edge_ok g a ts) \<and>
     (\<forall>(a, r) \<in> set (sg_routers g). router_ok g a) \<and>
     (\<forall>(a, ds) \<in> set (sg_commandDestinations g). command_ok g a ds)"

definition graph_valid :: "StateGraph \<Rightarrow> bool" where
  "graph_valid g \<longleftrightarrow>
     (edgesFrom g START \<noteq> [] \<or> omap_has START (sg_routers g)) \<and> declarations_ok g \<and>
     (flow g)\<^sup>*\<^sup>* START END \<and> (\<forall>n. omap_has n (sg_nodes g) \<longrightarrow> (flow g)\<^sup>*\<^sup>* START n) \<and>
     (\<forall>n. (flow g)\<^sup>*\<^sup>* START n \<longrightarrow> (flow g)\<^sup>*\<^sup>* n END)"

definition sg_maps_wf :: "StateGraph \<Rightarrow> bool" where
  "sg_maps_wf g \<longleftrightarrow> omap_wf (sg_nodes g) \<and> omap_wf (sg_edges g) \<and> omap_wf (sg_routers g) \<and>
     omap_wf (sg_routerDestinations g) \<and> omap_wf (sg_commandDestinations g) \<and>
     \<not> omap_has START (sg_nodes g) \<and> \<not> omap_has END (sg_nodes g)"

lemma adjOf_put [simp]: "adjOf (omap_put k ts adj) a = (if a = k then ts else adjOf adj a)"
  by (simp add: adjOf_def)

lemma adjOf_emplace_empty [simp]: "adjOf (omap_emplace k [] adj) a = adjOf adj a"
  by (auto simp: adjOf_def omap_emplace_def omap_has_def)

lemma adjOf_initial [simp]: "adjOf (initialAdjacency g) a = []"
proof -
  have "adjOf (fold (\<lambda>n adj. omap_emplace n [] adj) ns adj) a = adjOf adj a" for ns adj
    by (induction ns arbitrary: adj) auto
  then show ?thesis by (simp add: initialAdjacency_def) (simp add: adjOf_def)
qed

lemma omap_wf_initial [simp]: "omap_wf (initialAdjacency g)"
proof -
  have "omap_wf adj \<Longrightarrow> omap_wf (fold (\<lambda>n adj. omap_emplace n [] adj) ns adj)" for ns and adj :: adjacency
    by (induction ns arbitrary: adj) auto
  then show ?thesis by (simp add: initialAdjacency_def)
qed

text \<open>The loops of validation: one entry per source, checked and then recorded.\<close>

lemma foldM_entries:
  assumes ok: "\<And>adj k v. ok k v \<Longrightarrow> step adj (k, v) = Inr (omap_put k (h k v (adjOf adj k)) adj)"
    and bad: "\<And>adj k v. \<not> ok k v \<Longrightarrow> \<exists>e. step adj (k, v) = Inl e"
    and dist: "distinct (map fst kvs)"
  shows "(\<exists>adj'. foldM_result step adj kvs = Inr adj') \<longleftrightarrow> (\<forall>(k, v) \<in> set kvs. ok k v)"
    and "foldM_result step adj kvs = Inr adj' \<Longrightarrow> (omap_wf adj \<longrightarrow> omap_wf adj') \<and>
      (\<forall>a. adjOf adj' a = (case map_of kvs a of None \<Rightarrow> adjOf adj a | Some v \<Rightarrow> h a v (adjOf adj a)))"
proof -
  show "(\<exists>adj'. foldM_result step adj kvs = Inr adj') \<longleftrightarrow> (\<forall>(k, v) \<in> set kvs. ok k v)"
  proof (induction kvs arbitrary: adj)
    case (Cons kv kvs)
    obtain k v where kv: "kv = (k, v)" by (cases kv)
    show ?case
    proof (cases "ok k v")
      case True
      then show ?thesis using Cons by (simp add: kv ok)
    next
      case False
      then obtain e where "step adj (k, v) = Inl e" using bad by blast
      with False show ?thesis by (auto simp: kv)
    qed
  qed simp
  show "foldM_result step adj kvs = Inr adj' \<Longrightarrow> (omap_wf adj \<longrightarrow> omap_wf adj') \<and>
      (\<forall>a. adjOf adj' a = (case map_of kvs a of None \<Rightarrow> adjOf adj a | Some v \<Rightarrow> h a v (adjOf adj a)))"
    using dist
  proof (induction kvs arbitrary: adj)
    case (Cons kv kvs)
    obtain k v where kv: "kv = (k, v)" by (cases kv)
    have "ok k v" using Cons.prems(1) bad [of k v adj] by (cases "ok k v") (auto simp: kv)
    then have rest: "foldM_result step (omap_put k (h k v (adjOf adj k)) adj) kvs = Inr adj'"
      using Cons.prems(1) by (simp add: kv ok)
    have d: "distinct (map fst kvs)" "map_of kvs k = None"
      using Cons.prems(2) by (auto simp: kv map_of_eq_None_iff)
    from Cons.IH [OF rest d(1)] d(2) show ?case by (auto simp: kv split: option.splits)
  qed simp
qed

lemma find_unknown_None: "List.find (\<lambda>t. \<not> hasNodeOrEnd g t) ts = None \<longleftrightarrow> (\<forall>t \<in> set ts. hasNodeOrEnd g t)"
  by (auto simp: find_None_iff)

lemma find_unknown_ok:
  "(\<forall>t \<in> set ts. hasNodeOrEnd g t) \<Longrightarrow> List.find (\<lambda>t. \<not> hasNodeOrEnd g t) ts = None"
  by (simp add: find_unknown_None)

lemma find_unknown_bad:
  "\<not> (\<forall>t \<in> set ts. hasNodeOrEnd g t) \<Longrightarrow> \<exists>t. List.find (\<lambda>t. \<not> hasNodeOrEnd g t) ts = Some t"
  using find_unknown_None by blast

definition routerTargets :: "StateGraph \<Rightarrow> string \<Rightarrow> string list \<Rightarrow> string list" where
  "routerTargets g a old =
     (let ds = adjOf (sg_routerDestinations g) a in
      if ds = [] then openRouteTargets g else old @ ds)"

definition commandTargets :: "StateGraph \<Rightarrow> string list \<Rightarrow> string list \<Rightarrow> string list" where
  "commandTargets g ds old = (if ds = [] then openRouteTargets g else old @ ds)"

lemma validateEdgeEntry_cases:
  "edge_ok g a ts \<Longrightarrow> validateEdgeEntry g adj (a, ts) = Inr (omap_put a ts adj)"
  "\<not> edge_ok g a ts \<Longrightarrow> \<exists>e. validateEdgeEntry g adj (a, ts) = Inl e"
  by (auto simp: validateEdgeEntry_def edge_ok_def find_unknown_ok dest!: find_unknown_bad)
    (use find_unknown_bad in fastforce)+

lemma validateRouterEntry_cases:
  "router_ok g a \<Longrightarrow>
     validateRouterEntry g adj (a, r) = Inr (omap_put a (routerTargets g a (adjOf adj a)) adj)"
  "\<not> router_ok g a \<Longrightarrow> \<exists>e. validateRouterEntry g adj (a, r) = Inl e"
  by (auto simp: validateRouterEntry_def router_ok_def routerTargets_def Let_def find_unknown_ok)
    (use find_unknown_bad in fastforce)+

lemma validateCommandEntry_cases:
  "command_ok g a ds \<Longrightarrow>
     validateCommandEntry g adj (a, ds) = Inr (omap_put a (commandTargets g ds (adjOf adj a)) adj)"
  "\<not> command_ok g a ds \<Longrightarrow> \<exists>e. validateCommandEntry g adj (a, ds) = Inl e"
  by (auto simp: validateCommandEntry_def command_ok_def commandTargets_def find_unknown_ok)
    (use find_unknown_bad in fastforce)+

lemma edge_fold:
  assumes "distinct (map fst kvs)"
  shows "(\<exists>adj'. foldM_result (validateEdgeEntry g) adj kvs = Inr adj') \<longleftrightarrow> (\<forall>(k, v) \<in> set kvs. edge_ok g k v)"
    and "foldM_result (validateEdgeEntry g) adj kvs = Inr adj' \<Longrightarrow> (omap_wf adj \<longrightarrow> omap_wf adj') \<and>
      (\<forall>a. adjOf adj' a = (case map_of kvs a of None \<Rightarrow> adjOf adj a | Some v \<Rightarrow> v))"
  using foldM_entries [of "edge_ok g" "validateEdgeEntry g" "\<lambda>a ts old. ts", OF validateEdgeEntry_cases assms] by blast+

lemma router_fold:
  assumes "distinct (map fst kvs)"
  shows "(\<exists>adj'. foldM_result (validateRouterEntry g) adj kvs = Inr adj') \<longleftrightarrow> (\<forall>(k, v) \<in> set kvs. router_ok g k)"
    and "foldM_result (validateRouterEntry g) adj kvs = Inr adj' \<Longrightarrow> (omap_wf adj \<longrightarrow> omap_wf adj') \<and>
      (\<forall>a. adjOf adj' a = (case map_of kvs a of None \<Rightarrow> adjOf adj a | Some v \<Rightarrow> routerTargets g a (adjOf adj a)))"
  using foldM_entries [of "\<lambda>a r. router_ok g a" "validateRouterEntry g" "\<lambda>a r old. routerTargets g a old", OF validateRouterEntry_cases assms] by blast+

lemma command_fold:
  assumes "distinct (map fst kvs)"
  shows "(\<exists>adj'. foldM_result (validateCommandEntry g) adj kvs = Inr adj') \<longleftrightarrow> (\<forall>(k, v) \<in> set kvs. command_ok g k v)"
    and "foldM_result (validateCommandEntry g) adj kvs = Inr adj' \<Longrightarrow> (omap_wf adj \<longrightarrow> omap_wf adj') \<and>
      (\<forall>a. adjOf adj' a = (case map_of kvs a of None \<Rightarrow> adjOf adj a | Some v \<Rightarrow> commandTargets g v (adjOf adj a)))"
  using foldM_entries [of "command_ok g" "validateCommandEntry g" "\<lambda>a ds old. commandTargets g ds old", OF validateCommandEntry_cases assms] by blast+

lemma fold_addImplicitEnd:
  "distinct ns \<Longrightarrow> (omap_wf adj \<longrightarrow> omap_wf (fold (addImplicitEnd g) ns adj)) \<and>
   (\<forall>a. adjOf (fold (addImplicitEnd g) ns adj) a =
      (if a \<in> set ns \<and> implicitEnd g a then adjOf adj a @ [END] else adjOf adj a))"
  by (induction ns arbitrary: adj) (auto simp: addImplicitEnd_def)

lemma omap_has_iff_map_of: "omap_has k m \<longleftrightarrow> (\<exists>v. map_of m k = Some v)"
  by (simp add: omap_has_def)

lemma buildAdjacency_ok:
  assumes "sg_maps_wf g"
  shows "(\<exists>adj. buildAdjacency g = Inr adj) \<longleftrightarrow> declarations_ok g"
    and "buildAdjacency g = Inr adj \<Longrightarrow> omap_wf adj \<and> (\<forall>a b. step_rel adj a b \<longleftrightarrow> flow g a b)"
proof -
  have d: "distinct (map fst (sg_edges g))" "distinct (map fst (sg_routers g))"
    "distinct (map fst (sg_commandDestinations g))" "distinct (map fst (sg_nodes g))"
    using assms by (auto simp: sg_maps_wf_def omap_wf_distinct)
  show "(\<exists>adj. buildAdjacency g = Inr adj) \<longleftrightarrow> declarations_ok g"
    using edge_fold(1) [OF d(1), of g "initialAdjacency g"] router_fold(1) [OF d(2), of g]
      command_fold(1) [OF d(3), of g]
    by (fastforce simp: buildAdjacency_def result_simps declarations_ok_def)
  assume "buildAdjacency g = Inr adj"
  then obtain a1 a2 a3 where
    f: "foldM_result (validateEdgeEntry g) (initialAdjacency g) (sg_edges g) = Inr a1"
    "foldM_result (validateRouterEntry g) a1 (sg_routers g) = Inr a2"
    "foldM_result (validateCommandEntry g) a2 (sg_commandDestinations g) = Inr a3"
    "adj = fold (addImplicitEnd g) (map fst (sg_nodes g)) a3"
    by (auto simp: buildAdjacency_def result_simps)
  have dec: "declarations_ok g"
    using edge_fold(1) [OF d(1), of g "initialAdjacency g"] router_fold(1) [OF d(2), of g a1]
      command_fold(1) [OF d(3), of g a2] f unfolding declarations_ok_def by blast
  note A1 = edge_fold(2) [OF d(1) f(1)] and A2 = router_fold(2) [OF d(2) f(2)]
    and A3 = command_fold(2) [OF d(3) f(3)] and A4 = fold_addImplicitEnd [OF d(4), of a3 g]
  have wf: "omap_wf adj" using A1 A2 A3 A4 f(4) by simp
  have "step_rel adj a b \<longleftrightarrow> flow g a b" for a b
  proof -
    have conflicts: "map_of (sg_edges g) a \<noteq> None \<Longrightarrow>
        map_of (sg_routers g) a = None \<and> map_of (sg_commandDestinations g) a = None"
      "map_of (sg_routers g) a \<noteq> None \<Longrightarrow> map_of (sg_commandDestinations g) a = None"
      using dec
      by (auto simp: declarations_ok_def edge_ok_def router_ok_def omap_has_def
          dest!: map_of_SomeD)
    have node: "a \<in> set (map fst (sg_nodes g)) \<longleftrightarrow> omap_has a (sg_nodes g)"
      by (simp add: omap_has_iff)
    show ?thesis
      using A1 A2 A3 A4 conflicts f(4) node
      by (cases "map_of (sg_edges g) a"; cases "map_of (sg_routers g) a";
          cases "map_of (sg_commandDestinations g) a")
        (auto simp: step_rel_def flow_def edgesFrom_def routerTargets_def commandTargets_def
          Let_def implicitEnd_def omap_has_def)
  qed
  with wf show "omap_wf adj \<and> (\<forall>a b. step_rel adj a b \<longleftrightarrow> flow g a b)" by blast
qed

lemma adjOf_reverseEntry:
  "set (adjOf (reverseEntry (n, ts) r) b) = set (adjOf r b) \<union> (if b \<in> set ts then {n} else {})"
proof -
  have "set (adjOf (fold (\<lambda>t r. omap_put t (adjOf r t @ [n]) r) ts r) b) =
      set (adjOf r b) \<union> (if b \<in> set ts then {n} else {})" for r
    by (induction ts arbitrary: r) auto
  then show ?thesis by (simp add: reverseEntry_def)
qed

lemma adjOf_reverse:
  "set (adjOf (fold reverseEntry adj r) b) = set (adjOf r b) \<union> {a. \<exists>ts. (a, ts) \<in> set adj \<and> b \<in> set ts}"
proof (induction adj arbitrary: r)
  case (Cons e adj)
  then show ?case by (cases e) (auto simp: adjOf_reverseEntry split: if_splits)
qed simp

lemma step_rel_reverse: "omap_wf adj \<Longrightarrow> step_rel (reverseAdjacency adj) = (step_rel adj)\<inverse>\<inverse>"
proof (intro ext)
  fix a b
  assume "omap_wf adj"
  then have "b \<in> set (adjOf adj c) \<longleftrightarrow> (\<exists>ts. (c, ts) \<in> set adj \<and> b \<in> set ts)" for b c
    by (cases "map_of adj c") (auto simp: adjOf_def omap_wf_map_of_iff [symmetric])
  then show "step_rel (reverseAdjacency adj) a b = (step_rel adj)\<inverse>\<inverse> a b"
    by (simp add: step_rel_def reverseAdjacency_def adjOf_reverse) (simp add: adjOf_def)
qed

lemma validate_valid:
  assumes wf: "sg_maps_wf g"
  shows "validate g = Inr () \<longleftrightarrow> graph_valid g"
proof (cases "buildAdjacency g")
  case (Inl e)
  then have "\<not> declarations_ok g" using buildAdjacency_ok(1) [OF wf] by auto
  with Inl show ?thesis by (simp add: validate_def graph_valid_def)
next
  case (Inr adj)
  then have dec: "declarations_ok g" using buildAdjacency_ok(1) [OF wf] by auto
  have adj: "omap_wf adj" and rel: "step_rel adj = flow g"
    using buildAdjacency_ok(2) [OF wf Inr] by (auto intro!: ext)
  have fwd: "n \<in> set (reachableFrom adj START) \<longleftrightarrow> (flow g)\<^sup>*\<^sup>* START n" for n
    by (simp add: reachableFrom_iff rel)
  have bwd: "n \<in> set (reachableFrom (reverseAdjacency adj) END) \<longleftrightarrow> (flow g)\<^sup>*\<^sup>* n END" for n
    unfolding reachableFrom_iff step_rel_reverse [OF adj] rel rtranclp_conversep by simp
  have nodes: "(\<forall>n \<in> set (map fst (sg_nodes g)). P n) \<longleftrightarrow> (\<forall>n. omap_has n (sg_nodes g) \<longrightarrow> P n)" for P
    by (auto simp: omap_has_iff)
  have "List.find (\<lambda>n. n \<notin> set (reachableFrom adj START)) (map fst (sg_nodes g)) = None \<longleftrightarrow>
      (\<forall>n. omap_has n (sg_nodes g) \<longrightarrow> (flow g)\<^sup>*\<^sup>* START n)"
    using nodes [of "\<lambda>n. (flow g)\<^sup>*\<^sup>* START n"] by (auto simp: find_None_iff fwd)
  moreover have "List.find (\<lambda>n. n \<noteq> END \<and> n \<notin> set (reachableFrom (reverseAdjacency adj) END))
      (reachableFrom adj START) = None \<longleftrightarrow> (\<forall>n. (flow g)\<^sup>*\<^sup>* START n \<longrightarrow> (flow g)\<^sup>*\<^sup>* n END)"
    by (auto simp: find_None_iff fwd bwd)
  ultimately show ?thesis
    using dec fwd [of END]
    by (auto simp: validate_def graph_valid_def Inr Let_def split: option.splits)
qed

end
