(* ===== verification/Graph_Builder.thy ===== *)
theory Graph_Builder
  imports State_Graph
begin

text \<open>
  The contract of the builder methods of \<^verbatim>\<open>src/src/langgraph/graph/state_graph.cpp\<close>: every method
  keeps the well-formedness \<open>sg_wf\<close> of the declaration, and a method that fails leaves the
  declaration as it was.
\<close>

section \<open>Builder invariant and atomicity\<close>

text \<open>Every id in the graph has the shape its declaration requires.\<close>

definition sourceOk :: "string \<Rightarrow> bool" where
  "sourceOk a \<longleftrightarrow> a = START \<or> validateUserNodeId a = Inr ()"

definition targetsOk :: "string list \<Rightarrow> bool" where
  "targetsOk ts \<longleftrightarrow> (\<forall>t \<in> set ts. validateTargetNodeId t = Inr ())"

definition nodesOk :: "(string, NodeSpec) omap \<Rightarrow> bool" where
  "nodesOk m \<longleftrightarrow> omap_wf m \<and> (\<forall>n. omap_has n m \<longrightarrow> validateUserNodeId n = Inr ())"

definition entriesOk :: "('k \<Rightarrow> 'v \<Rightarrow> bool) \<Rightarrow> ('k::linorder, 'v) omap \<Rightarrow> bool" where
  "entriesOk P m \<longleftrightarrow> omap_wf m \<and> (\<forall>a v. map_of m a = Some v \<longrightarrow> P a v)"

definition edgesOk :: "(string, string list) omap \<Rightarrow> bool" where
  "edgesOk m \<longleftrightarrow> entriesOk (\<lambda>a ts. sourceOk a \<and> ts \<noteq> [] \<and> distinct ts \<and> targetsOk ts) m"

definition routesOk :: "(string, RouteHandler) omap \<Rightarrow> (string, string list) omap \<Rightarrow> bool" where
  "routesOk r d \<longleftrightarrow> omap_wf r \<and> (\<forall>a. omap_has a r \<longleftrightarrow> omap_has a d) \<and>
     entriesOk (\<lambda>a ds. sourceOk a \<and> targetsOk ds) d"

definition commandsOk :: "(string, string list) omap \<Rightarrow> bool" where
  "commandsOk m \<longleftrightarrow> entriesOk (\<lambda>a ds. validateUserNodeId a = Inr () \<and> targetsOk ds) m"

lemma entriesOkD: "entriesOk P m \<Longrightarrow> map_of m a = Some v \<Longrightarrow> P a v"
  unfolding entriesOk_def by blast

lemma entriesOk_wf: "entriesOk P m \<Longrightarrow> omap_wf m"
  unfolding entriesOk_def by blast

lemma entriesOk_put: "entriesOk P m \<Longrightarrow> P a v \<Longrightarrow> entriesOk P (omap_put a v m)"
  by (auto simp: entriesOk_def)

lemma entriesOk_emplace: "entriesOk P m \<Longrightarrow> P a v \<Longrightarrow> entriesOk P (omap_emplace a v m)"
  by (simp add: omap_emplace_def entriesOk_put)

definition sg_wf :: "StateGraph \<Rightarrow> bool" where
  "sg_wf g \<longleftrightarrow> nodesOk (sg_nodes g) \<and> edgesOk (sg_edges g) \<and>
     routesOk (sg_routers g) (sg_routerDestinations g) \<and> commandsOk (sg_commandDestinations g)"

definition builder :: "(StateGraph, 'a) sres \<Rightarrow> bool" where
  "builder m \<longleftrightarrow> (\<forall>g. sg_wf g \<longrightarrow> sg_wf (snd (m g)))"

definition atomic :: "(StateGraph, 'a) sres \<Rightarrow> bool" where
  "atomic m \<longleftrightarrow> (\<forall>g e g'. m g = (Inl e, g') \<longrightarrow> g' = g)"

lemma sg_wf_empty: "sg_wf emptyGraph"
  by (simp add: sg_wf_def nodesOk_def edgesOk_def routesOk_def commandsOk_def entriesOk_def
      emptyGraph_def omap_has_def)

lemma validateUserNodeId_reserved [simp]:
  "validateUserNodeId START \<noteq> Inr ()" "validateUserNodeId END \<noteq> Inr ()" "validateUserNodeId [] \<noteq> Inr ()"
  by (simp_all add: validateUserNodeId_def)

lemma sg_wf_maps:
  assumes "sg_wf g"
  shows "sg_maps_wf g"
proof -
  have "\<not> omap_has START (sg_nodes g)" "\<not> omap_has END (sg_nodes g)"
    using assms validateUserNodeId_reserved unfolding sg_wf_def nodesOk_def by blast+
  then show ?thesis
    using assms unfolding sg_wf_def nodesOk_def edgesOk_def routesOk_def commandsOk_def sg_maps_wf_def
    by (blast intro: entriesOk_wf)
qed

lemma omap_has_put [simp]: "omap_has k (omap_put j v m) \<longleftrightarrow> k = j \<or> omap_has k m"
  by (simp add: omap_has_def)

lemma map_of_emplace [simp]:
  "map_of (omap_emplace k v m) j = (if j = k \<and> \<not> omap_has k m then Some v else map_of m j)"
  by (auto simp: omap_emplace_def omap_has_def)

lemma omap_has_emplace [simp]: "omap_has k (omap_emplace j v m) \<longleftrightarrow> k = j \<or> omap_has k m"
  by (auto simp: omap_has_def)

lemma builderI: "(\<And>g r g'. sg_wf g \<Longrightarrow> m g = (r, g') \<Longrightarrow> sg_wf g') \<Longrightarrow> builder m"
  by (metis builder_def prod.collapse)

lemma builderD: "builder m \<Longrightarrow> sg_wf g \<Longrightarrow> m g = (r, g') \<Longrightarrow> sg_wf g'"
  by (metis builder_def snd_conv)

lemma builder_bind: "builder m \<Longrightarrow> (\<And>x. builder (f x)) \<Longrightarrow> builder (sbind m f)"
  by (rule builderI) (auto simp: sbind_def dest: builderD split: prod.splits sum.splits)

lemma builder_sret [simp]: "builder (sret x)"
  by (simp add: builder_def sret_def)

lemma builder_sfold: "(\<And>x acc. builder (f x acc)) \<Longrightarrow> builder (sfold f xs acc)"
  by (induction xs arbitrary: acc) (auto intro: builder_bind)

lemma builder_transactional: "builder m \<Longrightarrow> builder (transactional m)"
  by (rule builderI) (auto simp: transactional_def dest: builderD split: prod.splits sum.splits)

lemma atomic_transactional: "atomic (transactional m)"
  by (auto simp: atomic_def transactional_def split: prod.splits sum.splits)

lemma nodesOk_emplace: "nodesOk m \<Longrightarrow> validateUserNodeId n = Inr () \<Longrightarrow> nodesOk (omap_emplace n v m)"
  by (auto simp: nodesOk_def)

lemma nodesOk_put: "nodesOk m \<Longrightarrow> validateUserNodeId n = Inr () \<Longrightarrow> nodesOk (omap_put n v m)"
  by (auto simp: nodesOk_def)

lemma edgesFrom_ok:
  assumes "edgesOk (sg_edges g)"
  shows "distinct (edgesFrom g a) \<and> targetsOk (edgesFrom g a)"
proof (cases "map_of (sg_edges g) a")
  case None
  then show ?thesis by (simp add: edgesFrom_def targetsOk_def)
next
  case (Some ts)
  with entriesOkD [OF assms [unfolded edgesOk_def] this] show ?thesis by (simp add: edgesFrom_def)
qed

lemma edgesOk_add:
  assumes ok: "edgesOk (sg_edges g)" and a: "sourceOk a" and t: "validateTargetNodeId t = Inr ()"
    and new: "t \<notin> set (edgesFrom g a)"
  shows "edgesOk (omap_put a (edgesFrom g a @ [t]) (sg_edges g))"
  using ok edgesFrom_ok [OF ok, of a] a t new
  by (auto simp: edgesOk_def targetsOk_def intro!: entriesOk_put)

lemma routesOk_emplace:
  "routesOk r d \<Longrightarrow> sourceOk a \<Longrightarrow> targetsOk ds \<Longrightarrow>
   routesOk (omap_emplace a h r) (omap_emplace a (oset_of ds) d)"
  by (auto simp: routesOk_def targetsOk_def intro!: entriesOk_emplace)

lemma commandsOk_emplace:
  "commandsOk m \<Longrightarrow> validateUserNodeId a = Inr () \<Longrightarrow> targetsOk ds \<Longrightarrow>
   commandsOk (omap_emplace a (oset_of ds) m)"
  by (auto simp: commandsOk_def targetsOk_def intro!: entriesOk_emplace)

lemma mapM_validateTarget: "mapM_result validateTargetNodeId ds = Inr us \<Longrightarrow> targetsOk ds"
  by (induction ds arbitrary: us) (auto simp: result_simps targetsOk_def)

lemma builder_addNodeOutput: "builder (addNodeOutput nid h opts)"
  by (rule builderI)
    (auto simp: addNodeOutput_def sg_wf_def intro!: nodesOk_emplace split: sum.splits option.splits if_splits)

lemma builder_addNode: "builder (addNode nid h opts)"
  by (rule builderI) (auto simp: addNode_def dest: builderD [OF builder_addNodeOutput] split: option.splits)

lemma builder_setNodeOptions: "builder (setNodeOptions nid opts)"
  by (rule builderI)
    (auto simp: setNodeOptions_def sg_wf_def intro!: nodesOk_put split: sum.splits option.splits if_splits)

lemma builder_addEdge: "builder (addEdge source target)"
  by (rule builderI)
    (auto simp: addEdge_def sg_wf_def sourceOk_def intro!: edgesOk_add split: sum.splits if_splits)

lemma builder_registerRoute: "builder (registerRoute source router ds)"
  by (rule builderI)
    (auto simp: registerRoute_def sg_wf_def sourceOk_def intro!: routesOk_emplace mapM_validateTarget
      split: sum.splits if_splits option.splits)

lemma builder_addCommandRoute: "builder (addCommandRoute source ds)"
  by (rule builderI)
    (auto simp: addCommandRoute_def sg_wf_def intro!: commandsOk_emplace mapM_validateTarget
      split: sum.splits if_splits)

lemma builder_conditional:
  "builder (addConditionalEdges source r1 ds)" "builder (addConditionalEdgesMulti source r2 ds)"
  "builder (addConditionalEdgesSend source r3 ds)"
  by (rule builderI; auto simp: addConditionalEdges_def addConditionalEdgesMulti_def
      addConditionalEdgesSend_def dest: builderD [OF builder_registerRoute] split: option.splits)+

lemma builder_sequenceStep: "builder (sequenceStep node previous)"
proof (rule builderI)
  fix g r g'
  assume wf: "sg_wf g" and s: "sequenceStep node previous g = (r, g')"
  obtain nid h where node: "node = (nid, h)" by (cases node)
  have "builder (sbind (addNodeOutput nid h (sg_nodeDefaults g)) (\<lambda>_.
        sbind (case previous of None \<Rightarrow> sret () | Some p \<Rightarrow> addEdge p nid) (\<lambda>_. sret (Some nid))))"
    by (intro builder_bind builder_addNodeOutput) (auto simp: builder_addEdge split: option.split)
  from builderD [OF this wf s [unfolded sequenceStep_def node prod.case]] show "sg_wf g'" .
qed

lemma builder_addEdges: "builder (addEdges sources target)"
proof (rule builderI)
  fix g r g'
  have "builder (transactional (sfold (\<lambda>source _. addEdge source target) sources ()))"
    by (intro builder_transactional builder_sfold builder_addEdge)
  then show "sg_wf g \<Longrightarrow> addEdges sources target g = (r, g') \<Longrightarrow> sg_wf g'"
    by (auto simp: addEdges_def dest: builderD split: if_splits)
qed

lemma builder_addSequenceOutput: "builder (addSequenceOutput nodes)"
proof (rule builderI)
  fix g r g'
  have "builder (transactional (sbind (sfold sequenceStep nodes None) (\<lambda>_. sret ())))"
    by (intro builder_transactional builder_bind builder_sfold builder_sequenceStep builder_sret)
  then show "sg_wf g \<Longrightarrow> addSequenceOutput nodes g = (r, g') \<Longrightarrow> sg_wf g'"
    by (auto simp: addSequenceOutput_def dest: builderD split: if_splits)
qed

lemma builder_addSequence: "builder (addSequence nodes)"
  by (rule builderI) (auto simp: addSequence_def dest: builderD [OF builder_addSequenceOutput] split: if_splits)

lemma builder_atomic:
  "atomic (addNodeOutput nid h opts)" "atomic (addNode nid uh opts)" "atomic (setNodeOptions nid opts)"
  "atomic (addEdge source target)" "atomic (addEdges sources target)"
  "atomic (addSequenceOutput nodes)" "atomic (addSequence unodes)"
  "atomic (registerRoute source router ds)" "atomic (addCommandRoute source ds)"
proof -
  show "atomic (addNodeOutput nid h opts)" "atomic (addNode nid uh opts)"
    "atomic (setNodeOptions nid opts)" "atomic (addEdge source target)"
    "atomic (registerRoute source router ds)" "atomic (addCommandRoute source ds)"
    by (auto simp: atomic_def addNodeOutput_def addNode_def setNodeOptions_def addEdge_def
        registerRoute_def addCommandRoute_def split: sum.splits if_splits option.splits)
  show "atomic (addEdges sources target)"
    using atomic_transactional by (auto simp: atomic_def addEdges_def split: if_splits)
  show "atomic (addSequenceOutput nodes)"
    using atomic_transactional by (auto simp: atomic_def addSequenceOutput_def split: if_splits)
  show "atomic (addSequence unodes)"
    using atomic_transactional
    by (auto simp: atomic_def addSequence_def addSequenceOutput_def split: if_splits)
qed

end
