(* ===== verification/Budget.thy ===== *)
theory Budget
  imports LG_Prelude
begin

text \<open>
  Limits of a run: \<^verbatim>\<open>src/src/foundation/resource/resource_limits.cpp\<close> and
  \<^verbatim>\<open>src/src/foundation/time/deadline.cpp\<close>.  A reading of the steady clock is an integer count of
  its ticks and is an argument of the operations.  The counters are atomics: an operation that
  bumps one is given both as a sequential function and, for the step counter, as the program
  of a thread whose load and compare-exchange interleave with the other threads.  The lemmas show that the
  counters never pass their limits and that no increment is lost.
\<close>

section \<open>Deadlines\<close>

text \<open>The largest time point of the 64 bit clock.\<close>

definition timePointMax :: int where
  "timePointMax = 2 ^ 63 - 1"

type_synonym Deadline = "int option"

definition Deadline_after :: "int \<Rightarrow> int \<Rightarrow> Deadline" where
  "Deadline_after now timeout =
     (if timeout \<le> 0 then Some now
      else if timePointMax - now < timeout then Some timePointMax
      else Some (now + timeout))"

definition Deadline_fromTimeout :: "int \<Rightarrow> int option \<Rightarrow> Deadline" where
  "Deadline_fromTimeout now timeout =
     (case timeout of None \<Rightarrow> None | Some t \<Rightarrow> Deadline_after now t)"

definition Deadline_isExpired :: "Deadline \<Rightarrow> int \<Rightarrow> bool" where
  "Deadline_isExpired d now = (case d of None \<Rightarrow> False | Some t \<Rightarrow> t \<le> now)"

definition Deadline_remaining :: "Deadline \<Rightarrow> int \<Rightarrow> int" where
  "Deadline_remaining d now =
     (case d of None \<Rightarrow> timePointMax | Some t \<Rightarrow> if t \<le> now then 0 else t - now)"

definition Deadline_statusIfExpired :: "Deadline \<Rightarrow> int \<Rightarrow> string \<Rightarrow> status" where
  "Deadline_statusIfExpired d now message =
     (if Deadline_isExpired d now then mkStatus DeadlineExceeded message else okStatus)"

section \<open>Limits and counters\<close>

record ResourceLimits =
  rl_maxSteps :: "64 word option"
  rl_maxDuration :: "int option"
  rl_maxRetries :: "32 word option"
  rl_maxMemoryBytes :: "64 word option"

definition ResourceLimits_unlimited :: ResourceLimits where
  "ResourceLimits_unlimited =
     \<lparr>rl_maxSteps = None, rl_maxDuration = None, rl_maxRetries = None, rl_maxMemoryBytes = None\<rparr>"

definition ResourceLimits_maxSteps :: "64 word \<Rightarrow> ResourceLimits \<Rightarrow> ResourceLimits" where
  "ResourceLimits_maxSteps value limits = limits\<lparr>rl_maxSteps := Some value\<rparr>"

definition ResourceLimits_maxDuration :: "int \<Rightarrow> ResourceLimits \<Rightarrow> ResourceLimits" where
  "ResourceLimits_maxDuration value limits = limits\<lparr>rl_maxDuration := Some value\<rparr>"

definition ResourceLimits_maxRetries :: "32 word \<Rightarrow> ResourceLimits \<Rightarrow> ResourceLimits" where
  "ResourceLimits_maxRetries value limits = limits\<lparr>rl_maxRetries := Some value\<rparr>"

definition ResourceLimits_maxMemory :: "64 word \<Rightarrow> ResourceLimits \<Rightarrow> ResourceLimits" where
  "ResourceLimits_maxMemory value limits = limits\<lparr>rl_maxMemoryBytes := Some value\<rparr>"

definition validateResourceLimits :: "ResourceLimits \<Rightarrow> status" where
  "validateResourceLimits limits =
     (case rl_maxDuration limits of
        Some d \<Rightarrow> if d < 0 then mkStatus InvalidArgument ''execution max duration cannot be negative''
                  else okStatus
      | None \<Rightarrow> okStatus)"

record ExecutionBudget =
  eb_limits :: ResourceLimits
  eb_startedAt :: int
  eb_deadline :: Deadline
  eb_steps :: "64 word"
  eb_retries :: "32 word"
  eb_memoryBytes :: "64 word"
  eb_peakMemoryBytes :: "64 word"

text \<open>The constructor reads the clock for the start and again for the deadline.\<close>

definition newBudget :: "ResourceLimits \<Rightarrow> int \<Rightarrow> int \<Rightarrow> ExecutionBudget" where
  "newBudget limits started now =
     \<lparr>eb_limits = limits, eb_startedAt = started,
      eb_deadline = Deadline_fromTimeout now (rl_maxDuration limits),
      eb_steps = 0, eb_retries = 0, eb_memoryBytes = 0, eb_peakMemoryBytes = 0\<rparr>"

definition addWouldOverflow :: "'a::len word \<Rightarrow> 'a word \<Rightarrow> bool" where
  "addWouldOverflow current amount \<longleftrightarrow> - 1 - current < amount"

definition maxStepsExceeded :: "64 word \<Rightarrow> status" where
  "maxStepsExceeded limit =
     mkStatus ResourceExhausted (''execution budget exceeded max steps: '' @ to_string (unat limit))"

definition maxRetriesExceeded :: "32 word \<Rightarrow> status" where
  "maxRetriesExceeded limit =
     mkStatus ResourceExhausted (''execution budget exceeded max retries: '' @ to_string (unat limit))"

definition maxMemoryExceeded :: "64 word \<Rightarrow> status" where
  "maxMemoryExceeded limit =
     mkStatus ResourceExhausted
       (''execution budget exceeded max memory bytes: '' @ to_string (unat limit))"

definition overLimit :: "'a::linorder option \<Rightarrow> 'a \<Rightarrow> bool" where
  "overLimit limit x = (case limit of None \<Rightarrow> False | Some l \<Rightarrow> l < x)"

definition statusForCounts ::
  "ExecutionBudget \<Rightarrow> 64 word \<Rightarrow> 32 word \<Rightarrow> 64 word \<Rightarrow> int \<Rightarrow> status" where
  "statusForCounts b steps retries memoryBytes now =
     (let limits = eb_limits b;
          expired = Deadline_statusIfExpired (eb_deadline b) now
                      ''execution budget exceeded max duration'' in
      if \<not> isOk (validateResourceLimits limits) then validateResourceLimits limits
      else if \<not> isOk expired then expired
      else if overLimit (rl_maxSteps limits) steps
      then maxStepsExceeded (the (rl_maxSteps limits))
      else if overLimit (rl_maxRetries limits) retries
      then maxRetriesExceeded (the (rl_maxRetries limits))
      else if overLimit (rl_maxMemoryBytes limits) memoryBytes
      then maxMemoryExceeded (the (rl_maxMemoryBytes limits))
      else okStatus)"

definition Budget_elapsed :: "ExecutionBudget \<Rightarrow> int \<Rightarrow> int" where
  "Budget_elapsed b now = (if now \<le> eb_startedAt b then 0 else now - eb_startedAt b)"

definition Budget_check :: "ExecutionBudget \<Rightarrow> int \<Rightarrow> status" where
  "Budget_check b now = statusForCounts b (eb_steps b) (eb_retries b) (eb_memoryBytes b) now"

text \<open>The value a counter would have next, or why it may not grow: one turn of the loop.\<close>

definition nextSteps :: "ResourceLimits \<Rightarrow> 64 word \<Rightarrow> 64 word \<Rightarrow> 64 word result" where
  "nextSteps limits current amount =
     (if addWouldOverflow current amount
      then err ResourceExhausted ''execution step counter overflow''
      else if overLimit (rl_maxSteps limits) (current + amount)
      then Inl (maxStepsExceeded (the (rl_maxSteps limits)))
      else Inr (current + amount))"

definition nextRetries :: "ResourceLimits \<Rightarrow> 32 word \<Rightarrow> 32 word \<Rightarrow> 32 word result" where
  "nextRetries limits current amount =
     (if addWouldOverflow current amount
      then err ResourceExhausted ''execution retry counter overflow''
      else if overLimit (rl_maxRetries limits) (current + amount)
      then Inl (maxRetriesExceeded (the (rl_maxRetries limits)))
      else Inr (current + amount))"

definition checkStep :: "ExecutionBudget \<Rightarrow> 64 word \<Rightarrow> status" where
  "checkStep b amount =
     (case nextSteps (eb_limits b) (eb_steps b) amount of Inl e \<Rightarrow> e | Inr _ \<Rightarrow> okStatus)"

definition checkRetry :: "ExecutionBudget \<Rightarrow> 32 word \<Rightarrow> status" where
  "checkRetry b amount =
     (case nextRetries (eb_limits b) (eb_retries b) amount of Inl e \<Rightarrow> e | Inr _ \<Rightarrow> okStatus)"

definition checkMemory :: "ExecutionBudget \<Rightarrow> 64 word \<Rightarrow> status" where
  "checkMemory b memoryBytes =
     (if overLimit (rl_maxMemoryBytes (eb_limits b)) memoryBytes
      then maxMemoryExceeded (the (rl_maxMemoryBytes (eb_limits b))) else okStatus)"

text \<open>Without another thread the first compare-exchange that does not fail spuriously succeeds.\<close>

definition consumeStep :: "64 word \<Rightarrow> int \<Rightarrow> ExecutionBudget \<Rightarrow> status \<times> ExecutionBudget" where
  "consumeStep amount now b =
     (if \<not> isOk (Budget_check b now) then (Budget_check b now, b)
      else case nextSteps (eb_limits b) (eb_steps b) amount of
        Inl e \<Rightarrow> (e, b)
      | Inr next \<Rightarrow> (okStatus, b\<lparr>eb_steps := next\<rparr>))"

definition consumeRetry :: "32 word \<Rightarrow> int \<Rightarrow> ExecutionBudget \<Rightarrow> status \<times> ExecutionBudget" where
  "consumeRetry amount now b =
     (if \<not> isOk (Budget_check b now) then (Budget_check b now, b)
      else case nextRetries (eb_limits b) (eb_retries b) amount of
        Inl e \<Rightarrow> (e, b)
      | Inr next \<Rightarrow> (okStatus, b\<lparr>eb_retries := next\<rparr>))"

definition updatePeak :: "64 word \<Rightarrow> 64 word \<Rightarrow> 64 word" where
  "updatePeak peak value = (if peak < value then value else peak)"

definition recordMemory :: "64 word \<Rightarrow> int \<Rightarrow> ExecutionBudget \<Rightarrow> status \<times> ExecutionBudget" where
  "recordMemory memoryBytes now b =
     (if \<not> isOk (Budget_check b now) then (Budget_check b now, b)
      else if \<not> isOk (checkMemory b memoryBytes) then (checkMemory b memoryBytes, b)
      else (okStatus, b\<lparr>eb_memoryBytes := memoryBytes,
                       eb_peakMemoryBytes := updatePeak (eb_peakMemoryBytes b) memoryBytes\<rparr>))"

section \<open>The counters stay within the limits\<close>

definition within :: "'a::linorder option \<Rightarrow> 'a \<Rightarrow> bool" where
  "within limit x = (case limit of None \<Rightarrow> True | Some l \<Rightarrow> x \<le> l)"

definition budget_ok :: "ExecutionBudget \<Rightarrow> bool" where
  "budget_ok b \<longleftrightarrow> within (rl_maxSteps (eb_limits b)) (eb_steps b) \<and>
     within (rl_maxRetries (eb_limits b)) (eb_retries b) \<and>
     within (rl_maxMemoryBytes (eb_limits b)) (eb_memoryBytes b) \<and>
     eb_memoryBytes b \<le> eb_peakMemoryBytes b \<and>
     within (rl_maxMemoryBytes (eb_limits b)) (eb_peakMemoryBytes b)"

lemma overLimit_within [simp]: "\<not> overLimit l x \<longleftrightarrow> within l x"
  by (auto simp: overLimit_def within_def split: option.split)

lemma within_zero [simp]: "within l (0 :: 'a::len word)"
  by (simp add: within_def split: option.split)

lemma budget_ok_new: "budget_ok (newBudget limits started now)"
  by (simp add: budget_ok_def newBudget_def)

lemma addWouldOverflow_iff:
  "addWouldOverflow c (a :: 'a::len word) \<longleftrightarrow> 2 ^ LENGTH('a) \<le> unat c + unat a"
proof -
  have "unat (- 1 - c) = 2 ^ LENGTH('a) - 1 - unat c"
    by (simp add: unat_sub word_order.extremum unsigned_minus_1_eq_mask mask_eq_exp_minus_1)
  moreover have "unat c < 2 ^ LENGTH('a)" by (rule unsigned_less)
  ultimately show ?thesis
    unfolding addWouldOverflow_def word_less_nat_alt by linarith
qed

lemma nextSteps_Inr:
  "nextSteps limits c a = Inr n \<longleftrightarrow>
     unat c + unat a < 2 ^ 64 \<and> within (rl_maxSteps limits) n \<and> n = c + a"
  by (auto simp: nextSteps_def addWouldOverflow_iff simp flip: overLimit_within)

lemma nextRetries_Inr:
  "nextRetries limits c a = Inr n \<longleftrightarrow>
     unat c + unat a < 2 ^ 32 \<and> within (rl_maxRetries limits) n \<and> n = c + a"
  by (auto simp: nextRetries_def addWouldOverflow_iff simp flip: overLimit_within)

lemma nextSteps_unat: "nextSteps limits c a = Inr n \<Longrightarrow> unat n = unat c + unat a"
  by (simp add: nextSteps_Inr unat_word_ariths)

lemma nextSteps_fails: "nextSteps limits c a = Inl e \<Longrightarrow> \<not> isOk e"
  by (auto simp: nextSteps_def maxStepsExceeded_def split: if_splits)

lemma consumeStep_ok:
  assumes "consumeStep a now b = (st, b')" and "isOk st"
  shows "b' = b\<lparr>eb_steps := eb_steps b + a\<rparr> \<and> unat (eb_steps b') = unat (eb_steps b) + unat a \<and>
    within (rl_maxSteps (eb_limits b)) (eb_steps b')"
proof (cases "nextSteps (eb_limits b) (eb_steps b) a")
  case (Inl e)
  with assms nextSteps_fails [OF Inl] show ?thesis by (auto simp: consumeStep_def split: if_splits)
next
  case (Inr n)
  then have n: "n = eb_steps b + a" "within (rl_maxSteps (eb_limits b)) n"
    unfolding nextSteps_Inr by blast+
  from Inr assms have "b' = b\<lparr>eb_steps := n\<rparr>" by (auto simp: consumeStep_def split: if_splits)
  with n nextSteps_unat [OF Inr] show ?thesis by simp
qed

lemma consumeStep_fail: "consumeStep a now b = (st, b') \<Longrightarrow> \<not> isOk st \<Longrightarrow> b' = b"
  by (auto simp: consumeStep_def split: sum.splits if_splits)

lemma consumeStep_budget_ok: "budget_ok b \<Longrightarrow> budget_ok (snd (consumeStep a now b))"
  by (auto simp: consumeStep_def budget_ok_def nextSteps_Inr split: sum.split)

lemma consumeRetry_budget_ok: "budget_ok b \<Longrightarrow> budget_ok (snd (consumeRetry a now b))"
  by (auto simp: consumeRetry_def budget_ok_def nextRetries_Inr split: sum.split)

lemma recordMemory_budget_ok: "budget_ok b \<Longrightarrow> budget_ok (snd (recordMemory m now b))"
  by (auto simp: recordMemory_def budget_ok_def checkMemory_def updatePeak_def maxMemoryExceeded_def
      not_less simp flip: overLimit_within split: if_splits)

text \<open>When only the step limit is set, the call succeeds exactly while steps remain.\<close>

lemma consumeStep_iff:
  assumes "eb_limits b = ResourceLimits_maxSteps m ResourceLimits_unlimited" "eb_deadline b = None"
    "budget_ok b"
  shows "isOk (fst (consumeStep 1 now b)) \<longleftrightarrow> unat (eb_steps b) < unat m"
proof -
  have le: "eb_steps b \<le> m"
    using assms by (simp add: budget_ok_def ResourceLimits_maxSteps_def within_def)
  then have chk: "isOk (Budget_check b now)"
    using assms by (auto simp: Budget_check_def statusForCounts_def Let_def validateResourceLimits_def
        ResourceLimits_maxSteps_def ResourceLimits_unlimited_def overLimit_def
        Deadline_statusIfExpired_def Deadline_isExpired_def)
  have m: "unat m < 2 ^ 64" using unsigned_less [of m] by simp
  have s: "unat (eb_steps b) \<le> unat m" using le by (simp add: word_le_nat_alt)
  have "(\<exists>n. nextSteps (eb_limits b) (eb_steps b) 1 = Inr n) \<longleftrightarrow> unat (eb_steps b) < unat m"
  proof (cases "unat (eb_steps b) + 1 < 2 ^ 64")
    case True
    then have "unat (eb_steps b + 1) = unat (eb_steps b) + 1" by (simp add: unat_word_ariths)
    with True show ?thesis
      by (auto simp: nextSteps_Inr assms ResourceLimits_maxSteps_def within_def word_le_nat_alt)
  next
    case False
    with s m show ?thesis by (auto simp: nextSteps_Inr)
  qed
  moreover have "\<not> isOk e" if "nextSteps (eb_limits b) (eb_steps b) 1 = Inl e" for e
    using that by (auto simp: nextSteps_def maxStepsExceeded_def split: if_splits)
  ultimately show ?thesis
    using chk by (auto simp: consumeStep_def split: sum.split)
qed

section \<open>Threads that share a budget\<close>

text \<open>
  A thread in \<^verbatim>\<open>consumeStep\<close>: before its load, holding the value it loaded and the one it wants to
  store, or returned.  A compare-exchange stores when the counter still has the loaded value; a
  weak one may also fail without a reason and then the thread loads again.
\<close>

datatype consumer = Loading | Swapping "64 word" "64 word" | Returned_status status

inductive consume_step ::
  "ResourceLimits \<Rightarrow> 64 word \<Rightarrow> 64 word \<times> consumer list \<Rightarrow> 64 word \<times> consumer list \<Rightarrow> bool"
  for limits amount where
  load_ok: "i < length ts \<Longrightarrow> ts ! i = Loading \<Longrightarrow> nextSteps limits c amount = Inr n \<Longrightarrow>
     consume_step limits amount (c, ts) (c, ts[i := Swapping c n])"
| load_fail: "i < length ts \<Longrightarrow> ts ! i = Loading \<Longrightarrow> nextSteps limits c amount = Inl e \<Longrightarrow>
     consume_step limits amount (c, ts) (c, ts[i := Returned_status e])"
| swap_ok: "i < length ts \<Longrightarrow> ts ! i = Swapping c n \<Longrightarrow>
     consume_step limits amount (c, ts) (n, ts[i := Returned_status okStatus])"
| swap_fail: "i < length ts \<Longrightarrow> ts ! i = Swapping old n \<Longrightarrow>
     consume_step limits amount (c, ts) (c, ts[i := Loading])"

inductive_cases consume_stepE: "consume_step limits amount s s'"

definition granted :: "consumer list \<Rightarrow> nat" where
  "granted ts = length (filter (\<lambda>t. \<exists>st. t = Returned_status st \<and> isOk st) ts)"

definition consumers_ok :: "ResourceLimits \<Rightarrow> 64 word \<Rightarrow> 64 word \<Rightarrow> 64 word \<times> consumer list \<Rightarrow> bool" where
  "consumers_ok limits amount start s \<longleftrightarrow>
     unat (fst s) = unat start + granted (snd s) * unat amount \<and>
     within (rl_maxSteps limits) (fst s) \<and>
     (\<forall>old n. Swapping old n \<in> set (snd s) \<longrightarrow> nextSteps limits old amount = Inr n)"

lemma granted_update:
  "i < length ts \<Longrightarrow> granted (ts[i := t]) =
     granted ts - (if \<exists>st. ts ! i = Returned_status st \<and> isOk st then 1 else 0) +
     (if \<exists>st. t = Returned_status st \<and> isOk st then 1 else 0)"
proof (induction ts arbitrary: i)
  case (Cons a ts)
  show ?case
  proof (cases i)
    case (Suc j)
    have pos: "0 < granted ts" if "\<exists>st. ts ! j = Returned_status st \<and> isOk st" "j < length ts"
      using that nth_mem [of j ts] by (force simp: granted_def filter_empty_conv)
    with Cons Suc show ?thesis by (auto simp: granted_def)
  qed (simp add: granted_def)
qed simp

lemma consume_step_invariant:
  assumes "consume_step limits amount s s'" and "consumers_ok limits amount start s"
  shows "consumers_ok limits amount start s'"
  using assms(1)
proof cases
  case (load_ok i ts c n)
  then show ?thesis
    using assms(2) set_update_subset_insert [of ts i "Swapping c n"]
    by (auto simp: consumers_ok_def granted_update)
next
  case (load_fail i ts c e)
  then show ?thesis
    using assms(2) set_update_subset_insert [of ts i "Returned_status e"] nextSteps_fails
    by (auto simp: consumers_ok_def granted_update)
next
  case (swap_ok i ts c n)
  then have "nextSteps limits c amount = Inr n"
    using assms(2) nth_mem [of i ts] by (auto simp: consumers_ok_def)
  with swap_ok show ?thesis
    using assms(2) set_update_subset_insert [of ts i "Returned_status okStatus"]
      nextSteps_unat [of limits c amount n]
    by (auto simp: consumers_ok_def granted_update nextSteps_Inr)
next
  case (swap_fail i ts old n c)
  then show ?thesis
    using assms(2) set_update_subset_insert [of ts i Loading]
    by (auto simp: consumers_ok_def granted_update)
qed

lemma consumers_invariant:
  assumes "(consume_step limits amount)\<^sup>*\<^sup>* (start, replicate n Loading) s"
    and "within (rl_maxSteps limits) start"
  shows "consumers_ok limits amount start s"
  using assms
proof (induction rule: rtranclp_induct)
  case base
  then show ?case by (auto simp: consumers_ok_def granted_def)
next
  case (step s s')
  then show ?case by (blast intro: consume_step_invariant)
qed

end
