(* ===== verification/Tasks.thy ===== *)
theory Tasks
  imports State_Graph
begin

text \<open>
  The lists of pending tasks that a run passes from one super-step to the next: the helpers of
  \<^verbatim>\<open>src/src/langgraph/graph/graph_run.cpp\<close> (repeated in \<^verbatim>\<open>compiled_state_graph.cpp\<close>) that
  append, normalize and annotate tasks, and the namespace path of
  \<^verbatim>\<open>graph_namespace.cpp\<close>.  The lemmas show that a normalized list has no END and no repeated
  plain task, that normalizing twice changes nothing, and that annotated tasks have
  distinct ids.
\<close>

section \<open>Appending tasks\<close>

definition endTarget :: "string \<Rightarrow> bool" where
  "endTarget node \<longleftrightarrow> node = [] \<or> node = END"

definition samePlainTask :: "CheckpointTask \<Rightarrow> CheckpointTask \<Rightarrow> bool" where
  "samePlainTask task existing \<longleftrightarrow>
     ct_state existing = None \<and> ct_order existing = None \<and> ct_nodeId existing = ct_nodeId task"

definition appendPlainTask :: "CheckpointTask list \<Rightarrow> CheckpointTask \<Rightarrow> CheckpointTask list" where
  "appendPlainTask tasks task =
     (if endTarget (ct_nodeId task) then tasks
      else if ct_order task \<noteq> None then tasks @ [task]
      else if \<exists>existing \<in> set tasks. samePlainTask task existing then tasks
      else tasks @ [task])"

definition appendPlainNode :: "CheckpointTask list \<Rightarrow> string \<Rightarrow> CheckpointTask list" where
  "appendPlainNode tasks node = appendPlainTask tasks (plainTask node)"

definition appendSendTask :: "CheckpointTask list \<Rightarrow> CheckpointTask \<Rightarrow> CheckpointTask list" where
  "appendSendTask tasks task = (if endTarget (ct_nodeId task) then tasks else tasks @ [task])"

definition appendTask :: "CheckpointTask list \<Rightarrow> CheckpointTask \<Rightarrow> CheckpointTask list" where
  "appendTask tasks task =
     (if ct_state task \<noteq> None then appendSendTask tasks task else appendPlainTask tasks task)"

definition normalizeNextTasks :: "CheckpointTask list \<Rightarrow> CheckpointTask list" where
  "normalizeNextTasks tasks = foldl appendTask [] tasks"

definition nodeIdsFromTasks :: "CheckpointTask list \<Rightarrow> string list" where
  "nodeIdsFromTasks tasks = filter (\<lambda>n. \<not> endTarget n) (map ct_nodeId tasks)"

definition isTerminalNextTasks :: "CheckpointTask list \<Rightarrow> bool" where
  "isTerminalNextTasks tasks \<longleftrightarrow> (\<forall>task \<in> set tasks. endTarget (ct_nodeId task))"

definition nextTasksFromTargets :: "string list \<Rightarrow> CheckpointTask list" where
  "nextTasksFromTargets targets = foldl appendPlainNode [] targets"

definition nextTasksFromCheckpoint :: "Checkpoint \<Rightarrow> CheckpointTask list" where
  "nextTasksFromCheckpoint c =
     (if cp_nextTasks c \<noteq> [] then cp_nextTasks c else nextTasksFromTargets (cp_nextNodes c))"

text \<open>The \<open>i\<close>-th task of a step gets the namespace, the order and the id it does not have yet.\<close>

definition annotateTask :: "string \<Rightarrow> string \<Rightarrow> 64 word \<Rightarrow> nat \<times> CheckpointTask \<Rightarrow> CheckpointTask" where
  "annotateTask runId ns taskStep it =
     (case it of (i, t) \<Rightarrow>
        if endTarget (ct_nodeId t) then t
        else t\<lparr>ct_ns := (if ct_ns t = [] then ns else ct_ns t),
               ct_order := (if ct_order t = None then Some (of_nat i) else ct_order t),
               ct_taskId := (if ct_taskId t = []
                 then runId @ '':'' @ to_string (unat taskStep) @ '':'' @ to_string i @ '':'' @ ct_nodeId t
                 else ct_taskId t)\<rparr>)"

definition annotateTasks ::
  "string \<Rightarrow> string \<Rightarrow> CheckpointTask list \<Rightarrow> 64 word \<Rightarrow> CheckpointTask list" where
  "annotateTasks runId ns tasks taskStep = map (annotateTask runId ns taskStep) (enumerate 0 tasks)"

text \<open>The path of a namespace: its non-empty segments.\<close>

function namespaceSegments :: "string \<Rightarrow> string list" where
  "namespaceSegments s =
     (if s = [] then []
      else
        let segment = takeWhile (\<lambda>c. c \<noteq> CHR ''|'') s;
            rest = dropWhile (\<lambda>c. c \<noteq> CHR ''|'') s in
        (if segment = [] then [] else [segment]) @
        (if rest = [] then [] else namespaceSegments (tl rest)))"
  by pat_completeness auto
termination
proof (relation "measure length", goal_cases)
  case (2 s segment rest)
  then have "length rest \<le> length s" "rest \<noteq> []" "s \<noteq> []" by (auto simp: length_dropWhile_le)
  then have "length (tl rest) < length s" by (cases rest) auto
  then show ?case by simp
qed simp

declare namespaceSegments.simps [simp del]

definition namespacePathFromString :: "string \<Rightarrow> json" where
  "namespacePathFromString nameSpace = JArr (map JStr (namespaceSegments nameSpace))"

section \<open>Normalized lists\<close>

definition duplicates :: "CheckpointTask \<Rightarrow> CheckpointTask \<Rightarrow> bool" where
  "duplicates a b \<longleftrightarrow> ct_state b = None \<and> ct_order b = None \<and> samePlainTask b a"

definition tasks_normal :: "CheckpointTask list \<Rightarrow> bool" where
  "tasks_normal ts \<longleftrightarrow> (\<forall>t \<in> set ts. \<not> endTarget (ct_nodeId t)) \<and> sorted_wrt (\<lambda>a b. \<not> duplicates a b) ts"

lemma appendTask_cases:
  "appendTask ts t =
     (if endTarget (ct_nodeId t) \<or> (\<exists>a \<in> set ts. duplicates a t) then ts else ts @ [t])"
  by (auto simp: appendTask_def appendSendTask_def appendPlainTask_def duplicates_def)

lemma appendTask_normal: "tasks_normal ts \<Longrightarrow> tasks_normal (appendTask ts t)"
  by (auto simp: appendTask_cases tasks_normal_def sorted_wrt_append)

lemma foldl_appendTask_normal: "tasks_normal ts \<Longrightarrow> tasks_normal (foldl appendTask ts us)"
  by (induction us arbitrary: ts) (auto simp: appendTask_normal)

lemma normalizeNextTasks_normal: "tasks_normal (normalizeNextTasks ts)"
  unfolding normalizeNextTasks_def by (rule foldl_appendTask_normal) (simp add: tasks_normal_def)

lemma foldl_appendTask_id: "tasks_normal (us @ ts) \<Longrightarrow> foldl appendTask us ts = us @ ts"
proof (induction ts arbitrary: us)
  case (Cons t ts)
  then have "\<not> endTarget (ct_nodeId t)" "\<forall>a \<in> set us. \<not> duplicates a t"
    by (auto simp: tasks_normal_def sorted_wrt_append)
  then have "appendTask us t = us @ [t]" by (auto simp: appendTask_cases)
  with Cons.IH [of "us @ [t]"] Cons.prems show ?case by simp
qed simp

lemma normalizeNextTasks_id: "tasks_normal ts \<Longrightarrow> normalizeNextTasks ts = ts"
  using foldl_appendTask_id [of "[]" ts] by (simp add: normalizeNextTasks_def)

lemma normalizeNextTasks_subset: "set (normalizeNextTasks ts) \<subseteq> set ts"
proof -
  have "set (foldl appendTask us ts) \<subseteq> set us \<union> set ts" for us
  proof (induction ts arbitrary: us)
    case (Cons t ts)
    have "set (appendTask us t) \<subseteq> set us \<union> {t}" by (auto simp: appendTask_cases)
    with Cons.IH [of "appendTask us t"] show ?case by auto
  qed simp
  from this [of "[]"] show ?thesis by (simp add: normalizeNextTasks_def)
qed

text \<open>Nothing that should run is lost: a dropped task is END or repeats a kept one.\<close>

lemma foldl_appendTask_keeps:
  "t \<in> set us \<union> set ts \<Longrightarrow> \<not> endTarget (ct_nodeId t) \<Longrightarrow>
   t \<in> set (foldl appendTask us ts) \<or> (\<exists>a \<in> set (foldl appendTask us ts). duplicates a t)"
proof (induction ts arbitrary: us)
  case (Cons u ts)
  have keep: "a \<in> set (foldl appendTask us ts)" if "a \<in> set us" for a us
    using that
  proof (induction ts arbitrary: us)
    case (Cons b bs)
    then show ?case using Cons.IH [of "appendTask us b"] by (simp add: appendTask_cases)
  qed simp
  show ?case
  proof (cases "t \<in> set (appendTask us u) \<union> set ts")
    case True
    with Cons show ?thesis by simp
  next
    case False
    with Cons.prems obtain a where "a \<in> set us" "duplicates a t"
      by (auto simp: appendTask_cases split: if_splits)
    moreover from this(1) have "a \<in> set (appendTask us u)" by (simp add: appendTask_cases)
    ultimately show ?thesis using keep [of a "appendTask us u"] by auto
  qed
qed auto

lemma normalizeNextTasks_complete:
  "t \<in> set ts \<Longrightarrow> \<not> endTarget (ct_nodeId t) \<Longrightarrow>
   t \<in> set (normalizeNextTasks ts) \<or> (\<exists>a \<in> set (normalizeNextTasks ts). duplicates a t)"
  using foldl_appendTask_keeps [of t "[]" ts] by (simp add: normalizeNextTasks_def)

lemma isTerminal_normalize: "isTerminalNextTasks ts \<longleftrightarrow> normalizeNextTasks ts = []"
proof
  assume "isTerminalNextTasks ts"
  then have "set (normalizeNextTasks ts) = {}"
    using normalizeNextTasks_subset [of ts] normalizeNextTasks_normal [of ts]
    unfolding isTerminalNextTasks_def tasks_normal_def by (meson equals0I subsetD)
  then show "normalizeNextTasks ts = []" by simp
next
  assume "normalizeNextTasks ts = []"
  then show "isTerminalNextTasks ts"
    using normalizeNextTasks_complete [of _ ts] by (auto simp: isTerminalNextTasks_def)
qed

lemma nextTasksFromTargets_normal: "tasks_normal (nextTasksFromTargets targets)"
proof -
  have "tasks_normal ts \<Longrightarrow> tasks_normal (foldl appendPlainNode ts targets)" for ts
  proof (induction targets arbitrary: ts)
    case (Cons n targets)
    have "appendPlainNode ts n = appendTask ts (plainTask n)"
      by (simp add: appendPlainNode_def appendTask_def plainTask_def)
    with Cons show ?case by (simp add: appendTask_normal)
  qed simp
  from this [of "[]"] show ?thesis by (simp add: nextTasksFromTargets_def tasks_normal_def)
qed

section \<open>Annotated lists\<close>

lemma length_annotateTasks [simp]: "length (annotateTasks r n ts k) = length ts"
  by (simp add: annotateTasks_def)

lemma nth_annotateTasks: "i < length ts \<Longrightarrow> annotateTasks r n ts k ! i = annotateTask r n k (i, ts ! i)"
  by (simp add: annotateTasks_def nth_enumerate_eq)

lemma ct_nodeId_annotateTask [simp]: "ct_nodeId (annotateTask r n k (i, t)) = ct_nodeId t"
  by (simp add: annotateTask_def)

lemma annotateTasks_nodes: "map ct_nodeId (annotateTasks r n ts k) = map ct_nodeId ts"
  by (rule nth_equalityI) (simp_all add: nth_annotateTasks)

lemma fresh_id_inject:
  assumes "r @ '':'' @ k @ '':'' @ to_string i @ '':'' @ a = r @ '':'' @ k @ '':'' @ to_string j @ '':'' @ b"
  shows "i = j"
proof -
  have "to_string i @ CHR '':'' # a = to_string j @ CHR '':'' # b" using assms by simp
  then have "to_string i = to_string j"
    using append_sep_eq [of "to_string i" "CHR '':''" a "to_string j" b]
      to_string_not_mem [OF non_digits(1)] by simp
  then show ?thesis by simp
qed

text \<open>Tasks that had no id get distinct ids.\<close>

lemma annotateTasks_distinct:
  assumes "\<forall>t \<in> set ts. \<not> endTarget (ct_nodeId t) \<and> ct_taskId t = []"
  shows "distinct (map ct_taskId (annotateTasks r n ts k))"
  unfolding distinct_conv_nth
proof (intro allI impI)
  fix i j
  assume ij: "i < length (map ct_taskId (annotateTasks r n ts k))"
    "j < length (map ct_taskId (annotateTasks r n ts k))" "i \<noteq> j"
  have ids: "ct_taskId (annotateTasks r n ts k ! l) =
      r @ '':'' @ to_string (unat k) @ '':'' @ to_string l @ '':'' @ ct_nodeId (ts ! l)"
    if "l < length ts" for l
    using assms that nth_mem [OF that] by (simp add: nth_annotateTasks annotateTask_def)
  have "ct_taskId (annotateTasks r n ts k ! i) \<noteq> ct_taskId (annotateTasks r n ts k ! j)"
  proof
    assume "ct_taskId (annotateTasks r n ts k ! i) = ct_taskId (annotateTasks r n ts k ! j)"
    then have "i = j"
      using ij(1,2) by (intro fresh_id_inject [of r "to_string (unat k)"]) (simp only: ids length_map length_annotateTasks)
    with ij(3) show False ..
  qed
  then show "map ct_taskId (annotateTasks r n ts k) ! i \<noteq> map ct_taskId (annotateTasks r n ts k) ! j"
    using ij by simp
qed

text \<open>Annotating twice is annotating once, so a task keeps its id and order over a resume.\<close>

lemma annotateTask_again:
  "annotateTask r' n' k' (j, annotateTask r n k (i, t)) =
     (if n = [] \<and> ct_ns t = [] \<and> \<not> endTarget (ct_nodeId t) then (annotateTask r n k (i, t))\<lparr>ct_ns := n'\<rparr>
      else annotateTask r n k (i, t))"
  by (auto simp: annotateTask_def)

end
