(* ===== verification/Graph_Run.thy ===== *)
theory Graph_Run
  imports Tasks Budget
begin

text \<open>
  One run of a compiled graph: the methods of \<^verbatim>\<open>GraphRun\<close> in
  \<^verbatim>\<open>src/src/langgraph/graph/graph_run.cpp\<close> up to the super-step loop, which is in \<open>Run_Loop\<close>.
  The members that change (\<^verbatim>\<open>result_\<close>, \<^verbatim>\<open>parentCheckpointId_\<close>, \<^verbatim>\<open>resumeValuesByTask_\<close>), the budget
  and the state of the checkpointer are the record \<open>run_state\<close>; what a run only reads is
  \<open>run_cfg\<close>.  What the process and its threads decide is read from \<open>run_env\<close> and from the options:
  clocks, counters and callbacks at the tick of the run, the fate of a task by its step, index
  and attempt.
\<close>

section \<open>Options and results\<close>

datatype Durability = Sync | Async | Exit

datatype RunStatus = Completed | Paused | RunFailedStatus | RunCancelled | MaxStepsExceeded

record RunResult =
  rr_state :: json
  rr_runId :: string
  rr_threadId :: string
  rr_ns :: string
  rr_status :: RunStatus
  rr_step :: "64 word"
  rr_events :: "RuntimeEvent list"
  rr_parentCommand :: "Command option"

text \<open>
  The store is handed through to the handlers and not read by the run.  A cancellation token is
  the status of its check at a tick; a callback and a sink answer an event at a tick.
\<close>

record 's RunOptions =
  opt_runId :: string
  opt_threadId :: string
  opt_ns :: string
  opt_durability :: Durability
  opt_reducers :: ReducerRegistry
  opt_limits :: ResourceLimits
  opt_cancellation :: "nat \<Rightarrow> status"
  opt_checkpointer :: "'s saver_ops option"
  opt_eventSink :: "(nat \<Rightarrow> RuntimeEvent \<Rightarrow> status) option"
  opt_executor :: bool
  opt_maxConcurrency :: nat
  opt_eventCallback :: "(nat \<Rightarrow> RuntimeEvent \<Rightarrow> status) option"
  opt_eventTypes :: "RuntimeEventType list"
  opt_command :: "Command option"
  opt_tags :: "string list"
  opt_metadata :: json
  opt_configurable :: json
  opt_callbacks :: json
  opt_runName :: string
  opt_collectEvents :: bool

definition defaultRunOptions :: "'s RunOptions" where
  "defaultRunOptions =
     \<lparr>opt_runId = [], opt_threadId = [], opt_ns = [], opt_durability = Async,
      opt_reducers = emptyRegistry,
      opt_limits = ResourceLimits_maxSteps 100 ResourceLimits_unlimited,
      opt_cancellation = (\<lambda>_. okStatus), opt_checkpointer = None, opt_eventSink = None,
      opt_executor = False, opt_maxConcurrency = 0, opt_eventCallback = None, opt_eventTypes = [],
      opt_command = None, opt_tags = [], opt_metadata = JObj [], opt_configurable = JObj [],
      opt_callbacks = JNull, opt_runName = [], opt_collectEvents = False\<rparr>"

text \<open>
  What one attempt of a task meets: the token before the attempt, whether the deadline of the
  attempt passed while the handler ran, and the token during the wait before the next attempt.
\<close>

record attempt_env =
  ae_cancel :: status
  ae_timedOut :: bool
  ae_wait :: status

text \<open>
  \<open>rv_counter\<close> is the process-wide counter of \<^verbatim>\<open>generatedId\<close>, \<open>rv_execute\<close> the answer of the executor
  to a submitted task, \<open>rv_future\<close> the exception its future holds, if any.
\<close>

record run_env =
  rv_env :: env
  rv_counter :: "nat \<Rightarrow> nat"
  rv_clock :: "nat \<Rightarrow> int"
  rv_hardware :: nat
  rv_execute :: "64 word \<Rightarrow> nat \<Rightarrow> status"
  rv_future :: "64 word \<Rightarrow> nat \<Rightarrow> string option option"
  rv_attempt :: "64 word \<Rightarrow> nat \<Rightarrow> nat \<Rightarrow> attempt_env"

record 's run_cfg =
  rc_graph :: StateGraph
  rc_next :: "string \<Rightarrow> json \<Rightarrow> Runtime \<Rightarrow> CheckpointTask list result"
  rc_options :: "'s RunOptions"
  rc_writeInitial :: bool
  rc_allowParent :: bool
  rc_env :: run_env

record 's run_state =
  rs_result :: RunResult
  rs_parent :: "string option"
  rs_saver :: 's
  rs_tick :: nat
  rs_resume :: "(nat, json) omap"
  rs_budget :: ExecutionBudget

record NodeExecution =
  ne_task :: CheckpointTask
  ne_output :: "NodeOutput option"
  ne_status :: status

abbreviation setResult :: "(RunResult \<Rightarrow> RunResult) \<Rightarrow> 's run_state \<Rightarrow> 's run_state" where
  "setResult f s \<equiv> s\<lparr>rs_result := f (rs_result s)\<rparr>"

abbreviation tickOn :: "'s run_state \<Rightarrow> 's run_state" where
  "tickOn s \<equiv> s\<lparr>rs_tick := Suc (rs_tick s)\<rparr>"

section \<open>Helpers\<close>

definition generatedId :: "run_env \<Rightarrow> nat \<Rightarrow> string \<Rightarrow> string" where
  "generatedId ev tick pre = pre @ ''-'' @ to_string (rv_counter ev tick)"

definition mergeJsonObject :: "json \<Rightarrow> json \<Rightarrow> json" where
  "mergeJsonObject target source =
     (let target = (if is_object target then target else JObj []) in
      if \<not> is_object source then target else mergeFields target source)"

definition tagsToJson :: "string list \<Rightarrow> json" where
  "tagsToJson tags = JArr (map JStr tags)"

definition validateRunOptionsConfig :: "'s RunOptions \<Rightarrow> status" where
  "validateRunOptionsConfig opts =
     (if \<not> is_object (opt_metadata opts)
      then mkStatus InvalidArgument ''RunOptions metadata must be an object''
      else if \<not> is_object (opt_configurable opts)
      then mkStatus InvalidArgument ''RunOptions configurable must be an object''
      else okStatus)"

definition mergeEventTags :: "json \<Rightarrow> string list \<Rightarrow> json" where
  "mergeEventTags payload tags =
     (if tags = [] then payload
      else jput payload ''tags'' (JArr (map JStr tags @
             (if jhas payload ''tags'' \<and> is_array (jat payload ''tags'')
              then filter is_string (jelems (jat payload ''tags'')) else []))))"

definition mergeEventMetadata :: "json \<Rightarrow> json \<Rightarrow> json" where
  "mergeEventMetadata payload metadata =
     (if \<not> is_object metadata \<or> jempty metadata then payload
      else jput payload ''metadata''
             (if jhas payload ''metadata'' \<and> is_object (jat payload ''metadata'')
              then mergeJsonObject metadata (jat payload ''metadata'') else metadata))"

text \<open>Nanoseconds to milliseconds, rounded towards zero.\<close>

definition unixMillis :: "int \<Rightarrow> int" where
  "unixMillis t = sgn t * (\<bar>t\<bar> div 1000000)"

definition stateUpdatePayload :: "json \<Rightarrow> json" where
  "stateUpdatePayload update = obj [(''update'', update)]"

definition runnableConfig :: "string \<Rightarrow> string \<Rightarrow> string \<Rightarrow> json" where
  "runnableConfig threadId checkpointId ns =
     (let c = JObj [];
          c = jputIf (threadId \<noteq> []) ''thread_id'' (JStr threadId) c;
          c = jputIf (checkpointId \<noteq> []) ''checkpoint_id'' (JStr checkpointId) c;
          c = jput c ''checkpoint_ns'' (JStr ns) in
      obj [(''configurable'', c)])"

definition checkpointTaskJson :: "CheckpointTask \<Rightarrow> json" where
  "checkpointTaskJson task =
     (let out = obj [(''id'', JStr (ct_taskId task)), (''name'', JStr (ct_nodeId task))];
          out = jputOpt ''error'' JStr (ct_error task) out;
          out = jputIf (\<not> jempty (ct_interrupts task)) ''interrupts'' (ct_interrupts task) out in
      jput out ''state'' (case ct_state task of None \<Rightarrow> JNull | Some st \<Rightarrow> st))"

definition checkpointPayload :: "Checkpoint \<Rightarrow> json" where
  "checkpointPayload c =
     (let metadata = jput (cp_metadata c) ''step'' (JUint (cp_step c));
          metadata = jput metadata ''created_at_ms'' (JInt (of_int (unixMillis (cp_createdAt c)))) in
      obj [(''values'', cp_state c),
           (''next'', JArr (map JStr (cp_nextNodes c))),
           (''tasks'', JArr (map checkpointTaskJson (cp_nextTasks c))),
           (''config'', runnableConfig (cp_threadId c) (cp_checkpointId c) (cp_ns c)),
           (''parent_config'', case cp_parent c of None \<Rightarrow> JNull
              | Some p \<Rightarrow> runnableConfig (cp_threadId c) p (cp_ns c)),
           (''metadata'', metadata)])"

definition taskRuntimePayload :: "CheckpointTask \<Rightarrow> 64 word \<Rightarrow> json" where
  "taskRuntimePayload task step =
     (let d = obj [(''id'', JStr (ct_taskId task)), (''task_id'', JStr (ct_taskId task)),
                   (''name'', JStr (ct_nodeId task)), (''node'', JStr (ct_nodeId task)),
                   (''node_id'', JStr (ct_nodeId task)), (''step'', JUint step)];
          d = jputIf (ct_ns task \<noteq> []) ''checkpoint_ns'' (JStr (ct_ns task)) d;
          d = jputIf (ct_ns task \<noteq> []) ''ns'' (JStr (ct_ns task)) d;
          d = jputIf (ct_ns task \<noteq> []) ''namespace'' (namespacePathFromString (ct_ns task)) d;
          d = jputOpt ''order'' JUint (ct_order task) d;
          d = jputOpt ''error'' JStr (ct_error task) d;
          d = jputIf (\<not> jempty (ct_interrupts task)) ''interrupts'' (ct_interrupts task) d;
          d = jputIf (\<not> jempty (ct_metadata task)) ''metadata'' (ct_metadata task) d in
      jputOpt ''state'' id (ct_state task) d)"

fun durabilityModeName :: "Durability \<Rightarrow> string" where
  "durabilityModeName Sync = ''sync''"
| "durabilityModeName Async = ''async''"
| "durabilityModeName Exit = ''exit''"

definition exceptionStatus :: "string \<Rightarrow> string \<Rightarrow> status" where
  "exceptionStatus action what = mkStatus Internal (action @ '' threw: '' @ what)"

definition unknownExceptionStatus :: "string \<Rightarrow> status" where
  "unknownExceptionStatus action = mkStatus Internal (action @ '' threw an unknown exception'')"

text \<open>Writes are ordered by their order; a write without one comes last.\<close>

definition writeOrderKey :: "CheckpointWrite \<Rightarrow> 64 word" where
  "writeOrderKey w = (case cw_order w of None \<Rightarrow> - 1 | Some n \<Rightarrow> n)"

definition writeOrderLess :: "CheckpointWrite \<Rightarrow> CheckpointWrite \<Rightarrow> bool" where
  "writeOrderLess l r \<longleftrightarrow> writeOrderKey l < writeOrderKey r"

definition fanOutConcurrency :: "nat \<Rightarrow> nat \<Rightarrow> bool \<Rightarrow> nat \<Rightarrow> nat" where
  "fanOutConcurrency taskCount maxConcurrency boundByHardware hardware =
     (if taskCount \<le> 1 then taskCount
      else if maxConcurrency \<noteq> 0 then min maxConcurrency taskCount
      else if \<not> boundByHardware then taskCount
      else min taskCount (if hardware = 0 then 4 else hardware))"

fun contains :: "string \<Rightarrow> string \<Rightarrow> bool" where
  "contains needle [] = (needle = [])"
| "contains needle (c # s) = (prefix needle (c # s) \<or> contains needle s)"

definition runStatusFromStatus :: "status \<Rightarrow> RunStatus" where
  "runStatusFromStatus st =
     (if st_code st = Cancelled then RunCancelled
      else if st_code st = ResourceExhausted \<and> contains ''max steps'' (st_message st)
      then MaxStepsExceeded
      else RunFailedStatus)"

fun runErrorStatusName :: "RunStatus \<Rightarrow> string" where
  "runErrorStatusName RunCancelled = ''cancelled''"
| "runErrorStatusName MaxStepsExceeded = ''max_steps_exceeded''"
| "runErrorStatusName _ = ''failed''"

definition withRunErrorMetadata ::
  "json \<Rightarrow> status \<Rightarrow> string \<Rightarrow> 64 word \<Rightarrow> RunStatus \<Rightarrow> json result" where
  "withRunErrorMetadata st status node step runStatus =
     State_fromJsonValue (jput st kRunErrorStateKey
       (obj [(''code'', JStr (statusCodeName (st_code status))),
             (''message'', JStr (statusToString status)), (''node'', JStr node),
             (''step'', JUint step), (''status'', JStr (runErrorStatusName runStatus))]))"

definition withoutRunErrorMetadata :: "json \<Rightarrow> json result" where
  "withoutRunErrorMetadata st = State_fromJsonValue (jerase st kRunErrorStateKey)"

definition validateStateSchema :: "json \<Rightarrow> JsonSchema option \<Rightarrow> string \<Rightarrow> unit result" where
  "validateStateSchema st schema label =
     (case schema of
        None \<Rightarrow> Inr ()
      | Some check \<Rightarrow>
          if isOk (check st) then Inr ()
          else errorResult (mkStatus (st_code (check st))
                 (label @ '' schema validation failed: '' @ statusToString (check st))))"

section \<open>Events\<close>

text \<open>The ids, namespace, tags and metadata of the run are added to an event before it goes out.\<close>

definition fillEvent :: "'s run_cfg \<Rightarrow> RunResult \<Rightarrow> RuntimeEvent \<Rightarrow> RuntimeEvent" where
  "fillEvent cfg r e =
     (let p = re_payload e;
          p = jputIf (rr_ns r \<noteq> [] \<and> is_object p \<and> \<not> jhas p ''ns'') ''ns'' (JStr (rr_ns r)) p;
          p = jputIf (rr_ns r \<noteq> [] \<and> is_object p \<and> \<not> jhas p ''checkpoint_ns'')
                ''checkpoint_ns'' (JStr (rr_ns r)) p;
          p = (if is_object p
               then mergeEventMetadata (mergeEventTags p (opt_tags (rc_options cfg)))
                      (opt_metadata (rc_options cfg))
               else p) in
      e\<lparr>re_runId := (if re_runId e = [] then rr_runId r else re_runId e),
        re_threadId := (if re_threadId e = [] then rr_threadId r else re_threadId e),
        re_payload := p\<rparr>)"

text \<open>A status that is not ok is the error of the result.\<close>

definition statusResult :: "status \<Rightarrow> unit result" where
  "statusResult st = (if isOk st then Inr () else Inl st)"

definition deliverEvent :: "'s run_cfg \<Rightarrow> nat \<Rightarrow> RuntimeEvent \<Rightarrow> unit result" where
  "deliverEvent cfg tick e =
     rbind (case opt_eventCallback (rc_options cfg) of
              None \<Rightarrow> Inr () | Some f \<Rightarrow> statusResult (f tick e)) (\<lambda>_.
     case opt_eventSink (rc_options cfg) of
       None \<Rightarrow> Inr () | Some f \<Rightarrow> statusResult (f tick e))"

definition publish :: "'s run_cfg \<Rightarrow> RuntimeEvent \<Rightarrow> ('s run_state, unit) sres" where
  "publish cfg event s =
     (let opts = rc_options cfg; ev = rv_env (rc_env cfg);
          e = fillEvent cfg (rs_result s) event; s1 = tickOn s in
      if opt_eventTypes opts \<noteq> [] \<and> re_type e \<notin> set (opt_eventTypes opts) then (Inr (), s1)
      else case ensureRuntimeEventIdentity ev (rs_tick s) e of (st, e1) \<Rightarrow>
        if \<not> isOk st then (Inl st, s1)
        else if \<not> isOk (validateRuntimeEvent ev e1 defaultEventLimits)
        then (Inl (validateRuntimeEvent ev e1 defaultEventLimits), s1)
        else (deliverEvent cfg (rs_tick s) e1,
              if opt_collectEvents opts then setResult (\<lambda>r. r\<lparr>rr_events := rr_events r @ [e1]\<rparr>) s1
              else s1))"

definition emit ::
  "'s run_cfg \<Rightarrow> RuntimeEventType \<Rightarrow> 64 word \<Rightarrow> string \<Rightarrow> json \<Rightarrow> string \<Rightarrow> ('s run_state, unit) sres" where
  "emit cfg type step node payload message s =
     publish cfg ((RuntimeEvent_create (rv_env (rc_env cfg)) (rs_tick s) type)
       \<lparr>re_step := step, re_node := node, re_payload := payload, re_message := message\<rparr>) (tickOn s)"

section \<open>Checkpoints\<close>

definition onSaver :: "('s, 'a) sres \<Rightarrow> ('s run_state, 'a) sres" where
  "onSaver m s = (case m (rs_saver s) of (r, sv) \<Rightarrow> (r, s\<lparr>rs_saver := sv\<rparr>))"

definition checkpointIdFor :: "string \<Rightarrow> 64 word \<Rightarrow> string \<Rightarrow> nat \<Rightarrow> string" where
  "checkpointIdFor runId step source pending =
     (if source = ''task_writes''
      then runId @ ''-step-'' @ to_string (unat step) @ ''-writes-'' @ to_string pending
      else runId @ ''-step-'' @ to_string (unat step))"

definition checkpointFor ::
  "'s run_cfg \<Rightarrow> 's run_state \<Rightarrow> 64 word \<Rightarrow> CheckpointTask list \<Rightarrow> CheckpointWrite list \<Rightarrow>
   CheckpointWrite list \<Rightarrow> string \<Rightarrow> Checkpoint" where
  "checkpointFor cfg s step next writes pending source =
     (let r = rs_result s;
          next = annotateTasks (rr_runId r) (rr_ns r) (normalizeNextTasks next) step in
      \<lparr>cp_threadId = rr_threadId r,
       cp_checkpointId = checkpointIdFor (rr_runId r) step source (length pending),
       cp_ns = rr_ns r, cp_parent = rs_parent s, cp_step = step, cp_state = rr_state r,
       cp_nextNodes = nodeIdsFromTasks next, cp_nextTasks = next, cp_writes = writes,
       cp_pendingWrites = pending, cp_channelVersions = JObj [], cp_versionsSeen = JObj [],
       cp_updatedChannels = [],
       cp_metadata = obj [(''source'', JStr source),
         (''durability'', JStr (durabilityModeName (opt_durability (rc_options cfg))))],
       cp_createdAt = ev_now (rv_env (rc_env cfg)) (rs_tick s)\<rparr>)"

definition storeCheckpoint :: "'s saver_ops \<Rightarrow> Checkpoint \<Rightarrow> string \<Rightarrow> ('s, unit) sres" where
  "storeCheckpoint ops c source =
     sbind (so_put ops c) (\<lambda>_.
       if cp_pendingWrites c = [] then sret ()
       else so_putWrites ops
         \<lparr>ws_threadId = cp_threadId c, ws_ns = cp_ns c, ws_checkpointId = cp_checkpointId c,
          ws_taskId = cp_checkpointId c, ws_taskPath = source, ws_writes = cp_pendingWrites c\<rparr>)"

definition shouldStore :: "'s run_cfg \<Rightarrow> string \<Rightarrow> bool \<Rightarrow> bool" where
  "shouldStore cfg source terminal \<longleftrightarrow>
     opt_durability (rc_options cfg) \<noteq> Exit \<or> source = ''initial'' \<or> terminal"

text \<open>The checkpoint is built and stored, and becomes the parent of the next one.\<close>

definition commitCheckpoint ::
  "'s run_cfg \<Rightarrow> 64 word \<Rightarrow> CheckpointTask list \<Rightarrow> CheckpointWrite list \<Rightarrow> CheckpointWrite list \<Rightarrow>
   string \<Rightarrow> bool \<Rightarrow> ('s run_state, Checkpoint) sres" where
  "commitCheckpoint cfg step next writes pending source terminal =
     sbind (sgets (\<lambda>s. checkpointFor cfg s step next writes pending source)) (\<lambda>c.
     sbind (smodify tickOn) (\<lambda>_.
     sbind (case opt_checkpointer (rc_options cfg) of
              None \<Rightarrow> sret ()
            | Some ops \<Rightarrow>
                if shouldStore cfg source terminal then onSaver (storeCheckpoint ops c source)
                else sret ()) (\<lambda>_.
     sbind (if shouldStore cfg source terminal
            then smodify (\<lambda>s. s\<lparr>rs_parent := Some (cp_checkpointId c)\<rparr>) else sret ()) (\<lambda>_.
     sret c))))"

definition putCheckpoint ::
  "'s run_cfg \<Rightarrow> 64 word \<Rightarrow> CheckpointTask list \<Rightarrow> CheckpointWrite list \<Rightarrow> CheckpointWrite list \<Rightarrow>
   string \<Rightarrow> bool \<Rightarrow> bool \<Rightarrow> ('s run_state, unit) sres" where
  "putCheckpoint cfg step next writes pending source terminal requireEvent =
     sbind (commitCheckpoint cfg step next writes pending source terminal) (\<lambda>c.
     if shouldStore cfg source terminal
     then scatch (emit cfg CheckpointCreated step [] (checkpointPayload c) [])
            (\<lambda>e. if requireEvent then slift (Inl e) else sret ())
     else sret ())"

section \<open>Failure of a run\<close>

definition runFailedPayload :: "status \<Rightarrow> 64 word \<Rightarrow> string \<Rightarrow> json" where
  "runFailedPayload status failedStep node =
     obj [(''node'', JStr node), (''step'', JUint failedStep),
          (''status'', JStr (statusCodeName (st_code status))),
          (''error'', obj [(''message'', JStr (statusToString status)),
                           (''code'', JStr (statusCodeName (st_code status)))])]"

definition failRun ::
  "'s run_cfg \<Rightarrow> status \<Rightarrow> 64 word \<Rightarrow> string \<Rightarrow> CheckpointTask list \<Rightarrow> CheckpointWrite list \<Rightarrow>
   ('s run_state, RunResult) sres" where
  "failRun cfg status failedStep node failureNext failurePending =
     sbind (smodify (setResult (\<lambda>r. r\<lparr>rr_status := runStatusFromStatus status\<rparr>))) (\<lambda>_.
     sbind (sgets rs_result) (\<lambda>r.
     sbind (slift (withRunErrorMetadata (rr_state r) status node failedStep (rr_status r))) (\<lambda>st.
     sbind (smodify (setResult (\<lambda>r. r\<lparr>rr_state := st\<rparr>))) (\<lambda>_.
     let next = normalizeNextTasks failureNext;
         next = (if next = [] \<and> node \<noteq> [] then [plainTask node] else next) in
     sbind (putCheckpoint cfg failedStep next [] failurePending ''failure'' True False) (\<lambda>_.
     sbind (signore (emit cfg RunFailed failedStep node (runFailedPayload status failedStep node)
              (statusToString status))) (\<lambda>_.
     sgets rs_result))))))"

end
