(* ===== verification/Node_Exec.thy ===== *)
theory Node_Exec
  imports Graph_Run
begin

text \<open>
  Execution of the tasks of a super-step: \<^verbatim>\<open>executeTask\<close>, \<^verbatim>\<open>dispatchExecutions\<close>,
  \<^verbatim>\<open>commandTasksAfter\<close> and \<^verbatim>\<open>writeFromExecution\<close> of
  \<^verbatim>\<open>src/src/langgraph/graph/graph_run.cpp\<close>.  Tasks of a batch run on the threads of an executor and read
  only the input state and the ids of the run, so an execution is a function of its task.  The
  lemmas show how often a handler is tried, when the error handler is used, and that the
  executions come back in the order of the tasks, whatever the concurrency.
\<close>

section \<open>One task\<close>

definition taskContext ::
  "RunResult \<Rightarrow> CheckpointTask \<Rightarrow> 64 word \<Rightarrow> json option \<Rightarrow> nat \<Rightarrow> Runtime" where
  "taskContext r task step resume attempt =
     \<lparr>rt_runId = rr_runId r, rt_threadId = rr_threadId r, rt_ns = rr_ns r, rt_taskId = ct_taskId task,
      rt_step = step, rt_nodeId = ct_nodeId task, rt_resumeValue = resume, rt_attempt = attempt\<rparr>"

text \<open>
  What a call of a handler gives: an output, or the status it failed with.  A handler that
  returned \<^verbatim>\<open>Aborted\<close> after requesting an interrupt pauses.
\<close>

definition handlerResult :: "string \<Rightarrow> NodeOutput outcome \<Rightarrow> NodeOutput result" where
  "handlerResult action called =
     (case called of
        Returned (Inr output) _ \<Rightarrow> Inr output
      | Returned (Inl st) requests \<Rightarrow>
          (case requests of
             request # _ \<Rightarrow>
               if st_code st = Aborted
               then rbind (interruptFromRuntimeRequest request)
                      (\<lambda>i. Inr (NodeOutput_interrupt i (JObj [])))
               else Inl st
           | [] \<Rightarrow> Inl st)
      | Threw what \<Rightarrow> Inl (exceptionStatus action what)
      | ThrewUnknown \<Rightarrow> Inl (unknownExceptionStatus action))"

definition kNodeTimeoutCancelReason :: string where
  "kNodeTimeoutCancelReason = ''node handler exceeded timeout''"

fun returned :: "'a outcome \<Rightarrow> bool" where
  "returned (Returned _ _) = True"
| "returned _ = False"

text \<open>An attempt: a handler that returned after its deadline failed with the timeout.\<close>

definition attemptResult :: "NodeSpec \<Rightarrow> attempt_env \<Rightarrow> json \<Rightarrow> Runtime \<Rightarrow> NodeOutput result" where
  "attemptResult spec ae input ctx =
     (let called = ns_handler spec input ctx in
      if returned called \<and> timeout (ns_options spec) \<noteq> None \<and> ae_timedOut ae
      then err DeadlineExceeded kNodeTimeoutCancelReason
      else handlerResult ''node handler'' called)"

definition failedExecution :: "CheckpointTask \<Rightarrow> status \<Rightarrow> NodeExecution" where
  "failedExecution task st = \<lparr>ne_task = task, ne_output = None, ne_status = st\<rparr>"

definition doneExecution :: "CheckpointTask \<Rightarrow> NodeOutput \<Rightarrow> NodeExecution" where
  "doneExecution task out = \<lparr>ne_task = task, ne_output = Some out, ne_status = okStatus\<rparr>"

text \<open>
  The loop over the attempts: \<open>Inr\<close> is an execution to return, \<open>Inl\<close> the status the last attempt
  left.  \<open>left\<close> counts the attempts from this one on.
\<close>

fun attemptLoop ::
  "(nat \<Rightarrow> attempt_env) \<Rightarrow> NodeSpec \<Rightarrow> CheckpointTask \<Rightarrow> json \<Rightarrow> (nat \<Rightarrow> Runtime) \<Rightarrow>
   nat \<Rightarrow> nat \<Rightarrow> int \<Rightarrow> status \<Rightarrow> status + NodeExecution" where
  "attemptLoop env spec task input ctx attempt 0 delay final = Inl final"
| "attemptLoop env spec task input ctx attempt (Suc left) delay final =
     (if \<not> isOk (ae_cancel (env attempt))
      then Inr (failedExecution task (ae_cancel (env attempt)))
      else case attemptResult spec (env attempt) input (ctx attempt) of
        Inr out \<Rightarrow> Inr (doneExecution task out)
      | Inl st \<Rightarrow>
          if left = 0 then Inl st
          else if 0 < delay then
            (if \<not> isOk (ae_wait (env attempt))
             then Inr (failedExecution task (ae_wait (env attempt)))
             else attemptLoop env spec task input ctx (Suc attempt) left
                    (backoff (retry (ns_options spec)) delay) st)
          else attemptLoop env spec task input ctx (Suc attempt) left delay st)"

definition executeTask ::
  "'s run_cfg \<Rightarrow> RunResult \<Rightarrow> (nat, json) omap \<Rightarrow> nat \<Rightarrow> CheckpointTask \<Rightarrow> json \<Rightarrow> 64 word \<Rightarrow>
   NodeExecution" where
  "executeTask cfg r resumeValues index task inputState step =
     (case map_of (sg_nodes (rc_graph cfg)) (ct_nodeId task) of
        None \<Rightarrow> failedExecution task
          (mkStatus FailedPrecondition (''node is unknown: '' @ ct_nodeId task))
      | Some spec \<Rightarrow>
          (let input = (case ct_state task of Some st \<Rightarrow> st | None \<Rightarrow> inputState);
               resume = map_of resumeValues index;
               opts = ns_options spec;
               attempts = max 1 (maxAttempts (retry opts));
               ctx = taskContext r task step resume in
           case attemptLoop (rv_attempt (rc_env cfg) step index) spec task input ctx 1 attempts
                  (initialInterval (retry opts)) (mkStatus Unknown ''node handler did not run'') of
             Inr execution \<Rightarrow> execution
           | Inl final \<Rightarrow>
               (case errorHandler opts of
                  None \<Rightarrow> failedExecution task final
                | Some h \<Rightarrow>
                    (case handlerResult ''node error handler''
                            (h final input (ctx (attempts + 1))) of
                       Inr out \<Rightarrow> doneExecution task out
                     | Inl st \<Rightarrow> failedExecution task st))))"

section \<open>The tasks of a step\<close>

text \<open>A task handed to the executor: it may be refused, and its future may hold an exception.\<close>

definition submittedExecution ::
  "'s run_cfg \<Rightarrow> RunResult \<Rightarrow> (nat, json) omap \<Rightarrow> json \<Rightarrow> 64 word \<Rightarrow> nat \<times> CheckpointTask \<Rightarrow>
   NodeExecution" where
  "submittedExecution cfg r resumeValues inputState step it =
     (case it of (i, task) \<Rightarrow>
        if \<not> isOk (rv_execute (rc_env cfg) step i)
        then failedExecution task (rv_execute (rc_env cfg) step i)
        else case rv_future (rc_env cfg) step i of
          None \<Rightarrow> executeTask cfg r resumeValues i task inputState step
        | Some (Some what) \<Rightarrow> failedExecution task (exceptionStatus ''parallel node task'' what)
        | Some None \<Rightarrow> failedExecution task (unknownExceptionStatus ''parallel node task''))"

definition batchExecutions ::
  "'s run_cfg \<Rightarrow> RunResult \<Rightarrow> (nat, json) omap \<Rightarrow> json \<Rightarrow> 64 word \<Rightarrow> (nat \<times> CheckpointTask) list \<Rightarrow>
   NodeExecution list" where
  "batchExecutions cfg r resumeValues inputState step batch =
     (case batch of
        [(i, task)] \<Rightarrow> [executeTask cfg r resumeValues i task inputState step]
      | _ \<Rightarrow> map (submittedExecution cfg r resumeValues inputState step) batch)"

text \<open>
  The tasks go out in batches of \<open>concurrency\<close> tasks.  The C++ loop would not end for a
  concurrency of zero; \<open>fanOutConcurrency\<close> is zero only when there are no tasks.
\<close>

function dispatchLoop ::
  "((nat \<times> CheckpointTask) list \<Rightarrow> NodeExecution list) \<Rightarrow> nat \<Rightarrow> (nat \<times> CheckpointTask) list \<Rightarrow>
   NodeExecution list" where
  "dispatchLoop exec concurrency tasks =
     (if tasks = [] \<or> concurrency = 0 then []
      else exec (take concurrency tasks) @ dispatchLoop exec concurrency (drop concurrency tasks))"
  by pat_completeness auto
termination
  by (relation "measure (\<lambda>(exec, concurrency, tasks). length tasks)") auto

declare dispatchLoop.simps [simp del]

definition dispatchExecutions ::
  "'s run_cfg \<Rightarrow> RunResult \<Rightarrow> (nat, json) omap \<Rightarrow> CheckpointTask list \<Rightarrow> json \<Rightarrow> 64 word \<Rightarrow>
   NodeExecution list" where
  "dispatchExecutions cfg r resumeValues activeTasks inputState step =
     (let opts = rc_options cfg;
          concurrency = fanOutConcurrency (length activeTasks) (opt_maxConcurrency opts)
                          (\<not> opt_executor opts) (rv_hardware (rc_env cfg)) in
      dispatchLoop (batchExecutions cfg r resumeValues inputState step) concurrency
        (enumerate 0 activeTasks))"

section \<open>Writes\<close>

definition commandTasksAfter :: "StateGraph \<Rightarrow> string \<Rightarrow> Command option \<Rightarrow> CheckpointTask list result" where
  "commandTasksAfter g node command =
     (case command of
        None \<Rightarrow> Inr []
      | Some c \<Rightarrow>
          if cmd_graph c = Parent then Inr []
          else foldM_result (\<lambda>tasks target.
            if \<not> hasNodeOrEnd g target
            then err FailedPrecondition (''command returned unknown node: '' @ target)
            else case map_of (sg_commandDestinations g) node of
              Some ds \<Rightarrow>
                if ds \<noteq> [] \<and> target \<notin> set ds
                then err FailedPrecondition
                  (''command returned a node outside declared destinations: '' @ target)
                else Inr (appendPlainNode tasks target)
            | None \<Rightarrow> Inr (appendPlainNode tasks target)) [] (cmd_goto c))"

definition writeFromExecution ::
  "StateGraph \<Rightarrow> string \<Rightarrow> CheckpointTask \<Rightarrow> NodeOutput \<Rightarrow> CheckpointWrite result" where
  "writeFromExecution g ns task out =
     rbind (StateUpdate_toState (no_update out)) (\<lambda>update.
     let write = \<lparr>cw_taskId = ct_taskId task, cw_taskPath = [], cw_nodeId = ct_nodeId task, cw_ns = ns,
                  cw_update = update, cw_order = ct_order task, cw_hasNextTasks = False,
                  cw_nextTasks = [], cw_metadata = obj [(''source'', JStr ''node'')]\<rparr> in
     if no_command out = None then Inr write
     else rbind (commandTasksAfter g (ct_nodeId task) (no_command out)) (\<lambda>tasks.
            Inr (write\<lparr>cw_hasNextTasks := True, cw_nextTasks := tasks\<rparr>)))"

section \<open>Retries\<close>

text \<open>A handler that fails on every attempt is tried \<open>left\<close> times and leaves its last status.\<close>

lemma attemptLoop_exhausts:
  assumes "\<And>k. a \<le> k \<Longrightarrow> k < a + left \<Longrightarrow> isOk (ae_cancel (env k)) \<and> isOk (ae_wait (env k)) \<and>
      attemptResult spec (env k) input (ctx k) = Inl (st k)"
    and "0 < left"
  shows "attemptLoop env spec task input ctx a left delay final = Inl (st (a + left - 1))"
  using assms
proof (induction left arbitrary: a delay final)
  case (Suc left)
  have a: "isOk (ae_cancel (env a))" "isOk (ae_wait (env a))"
    "attemptResult spec (env a) input (ctx a) = Inl (st a)" using Suc.prems(1) [of a] by auto
  show ?case
  proof (cases "left = 0")
    case False
    have "attemptLoop env spec task input ctx (Suc a) left d f = Inl (st (a + left))" for d f
      using Suc.IH [of "Suc a"] Suc.prems(1) False by simp
    with a False show ?thesis by simp
  qed (use a in simp)
qed simp

text \<open>The first attempt that succeeds gives the execution.\<close>

lemma attemptLoop_succeeds:
  assumes "\<And>k. a \<le> k \<Longrightarrow> k < n \<Longrightarrow> isOk (ae_cancel (env k)) \<and> isOk (ae_wait (env k)) \<and>
      (\<exists>st. attemptResult spec (env k) input (ctx k) = Inl st)"
    and "a \<le> n" and "n < a + left" and "isOk (ae_cancel (env n))"
    and "attemptResult spec (env n) input (ctx n) = Inr out"
  shows "attemptLoop env spec task input ctx a left delay final = Inr (doneExecution task out)"
  using assms
proof (induction left arbitrary: a delay final)
  case (Suc left)
  show ?case
  proof (cases "a = n")
    case False
    with Suc.prems obtain st where a: "isOk (ae_cancel (env a))" "isOk (ae_wait (env a))"
      "attemptResult spec (env a) input (ctx a) = Inl st" by (metis le_neq_implies_less order_refl)
    have "attemptLoop env spec task input ctx (Suc a) left d f = Inr (doneExecution task out)" for d f
      using Suc.IH [of "Suc a"] Suc.prems False by simp
    with a False Suc.prems show ?thesis by auto
  qed (use Suc.prems in simp)
qed simp

lemma ne_task_executions [simp]:
  "ne_task (failedExecution task st) = task" "ne_task (doneExecution task out) = task"
  "ne_status (failedExecution task st) = st" "ne_status (doneExecution task out) = okStatus"
  "ne_output (failedExecution task st) = None" "ne_output (doneExecution task out) = Some out"
  by (simp_all add: failedExecution_def doneExecution_def)

text \<open>An execution is of its task and has an output when its status is ok.\<close>

definition execution_of :: "CheckpointTask \<Rightarrow> NodeExecution \<Rightarrow> bool" where
  "execution_of task x \<longleftrightarrow> ne_task x = task \<and> (isOk (ne_status x) \<longrightarrow> ne_output x \<noteq> None)"

lemma execution_of_failed: "\<not> isOk st \<Longrightarrow> execution_of task (failedExecution task st)"
  by (simp add: execution_of_def)

lemma execution_of_done: "execution_of task (doneExecution task out)"
  by (simp add: execution_of_def)

definition faithful_statuses :: "'s run_cfg \<Rightarrow> bool" where
  "faithful_statuses cfg \<longleftrightarrow>
     (\<forall>n spec st input ctx. map_of (sg_nodes (rc_graph cfg)) n = Some spec \<longrightarrow>
        (\<forall>reqs. ns_handler spec input ctx = Returned (Inl st) reqs \<longrightarrow> \<not> isOk st) \<and>
        (\<forall>h e reqs. errorHandler (ns_options spec) = Some h \<longrightarrow>
           h e input ctx = Returned (Inl st) reqs \<longrightarrow> \<not> isOk st))"

lemma interruptFromRuntimeRequest_err:
  "interruptFromRuntimeRequest q = Inl e \<Longrightarrow> \<not> isOk e"
  by (auto simp: interruptFromRuntimeRequest_def split: if_splits)

lemma handlerResult_err:
  assumes "handlerResult action called = Inl e"
    and "\<And>st reqs. called = Returned (Inl st) reqs \<Longrightarrow> \<not> isOk st"
  shows "\<not> isOk e"
proof (cases called)
  case (Returned res reqs)
  show ?thesis
  proof (cases res)
    case (Inl st)
    with Returned assms show ?thesis
      by (auto simp: handlerResult_def result_simps interruptFromRuntimeRequest_err
          split: list.splits if_splits)
  qed (use Returned assms in \<open>simp add: handlerResult_def\<close>)
qed (use assms in \<open>auto simp: handlerResult_def exceptionStatus_def unknownExceptionStatus_def\<close>)

lemma attemptResult_err:
  assumes "attemptResult spec ae input ctx = Inl e"
    and "\<And>st reqs. ns_handler spec input ctx = Returned (Inl st) reqs \<Longrightarrow> \<not> isOk st"
  shows "\<not> isOk e"
  using assms handlerResult_err [of "''node handler''" "ns_handler spec input ctx" e]
  by (auto simp: attemptResult_def Let_def split: if_splits)

lemma attemptLoop_execution:
  assumes "\<And>k st reqs. ns_handler spec input (ctx k) = Returned (Inl st) reqs \<Longrightarrow> \<not> isOk st"
    and "\<not> isOk final"
  shows "case attemptLoop env spec task input ctx a left delay final of
      Inr x \<Rightarrow> execution_of task x | Inl st \<Rightarrow> \<not> isOk st"
  using assms(2)
proof (induction left arbitrary: a delay final)
  case (Suc left)
  show ?case
  proof (cases "attemptResult spec (env a) input (ctx a)")
    case (Inl st)
    have st: "\<not> isOk st" using attemptResult_err [OF Inl assms(1)] .
    show ?thesis
      using Inl st Suc.IH [OF st] by (auto simp: execution_of_failed)
  next
    case (Inr out)
    then show ?thesis by (auto simp: execution_of_failed execution_of_done)
  qed
qed simp

lemma executeTask_execution:
  assumes "faithful_statuses cfg"
  shows "execution_of task (executeTask cfg r rv i task input step)"
proof (cases "map_of (sg_nodes (rc_graph cfg)) (ct_nodeId task)")
  case None
  then show ?thesis by (simp add: executeTask_def execution_of_failed)
next
  case (Some spec)
  let ?in = "case ct_state task of Some st \<Rightarrow> st | None \<Rightarrow> input"
  let ?ctx = "taskContext r task step (map_of rv i)"
  let ?n = "max 1 (maxAttempts (retry (ns_options spec)))"
  let ?loop = "attemptLoop (rv_attempt (rc_env cfg) step i) spec task ?in ?ctx 1 ?n
    (initialInterval (retry (ns_options spec))) (mkStatus Unknown ''node handler did not run'')"
  have h: "\<And>k st reqs. ns_handler spec ?in (?ctx k) = Returned (Inl st) reqs \<Longrightarrow> \<not> isOk st"
    using assms Some unfolding faithful_statuses_def by blast
  have eh: "\<And>e k st reqs eh. errorHandler (ns_options spec) = Some eh \<Longrightarrow>
      eh e ?in (?ctx k) = Returned (Inl st) reqs \<Longrightarrow> \<not> isOk st"
    using assms Some unfolding faithful_statuses_def by blast
  have loop: "case ?loop of Inr x \<Rightarrow> execution_of task x | Inl st \<Rightarrow> \<not> isOk st"
    by (rule attemptLoop_execution [OF h]) simp_all
  show ?thesis
  proof (cases ?loop)
    case (Inr x)
    with loop Some show ?thesis by (simp add: executeTask_def Let_def)
  next
    case (Inl final)
    show ?thesis
    proof (cases "errorHandler (ns_options spec)")
      case None
      with Inl loop Some show ?thesis by (simp add: executeTask_def Let_def execution_of_failed)
    next
      case eh_some: (Some eh')
      show ?thesis
      proof (cases "handlerResult ''node error handler'' (eh' final ?in (?ctx (?n + 1)))")
        case (Inl st)
        have "\<not> isOk st" using handlerResult_err [OF Inl] eh [OF eh_some] by blast
        with Inl \<open>?loop = Inl final\<close> eh_some Some show ?thesis
          by (simp add: executeTask_def Let_def execution_of_failed)
      next
        case (Inr out)
        with \<open>?loop = Inl final\<close> eh_some Some show ?thesis
          by (simp add: executeTask_def Let_def execution_of_done)
      qed
    qed
  qed
qed

section \<open>Dispatch\<close>

lemma fanOutConcurrency_pos: "0 < n \<Longrightarrow> 0 < fanOutConcurrency n m b h"
  by (simp add: fanOutConcurrency_def)

lemma fanOutConcurrency_le: "fanOutConcurrency n m b h \<le> n"
  by (simp add: fanOutConcurrency_def)

text \<open>Batches that act task by task give one execution per task, in order.\<close>

lemma dispatchLoop_map:
  assumes "\<And>b. set b \<subseteq> set ts \<Longrightarrow> exec b = map f b" and "ts = [] \<or> 0 < c"
  shows "dispatchLoop exec c ts = map f ts"
  using assms
proof (induction exec c ts rule: dispatchLoop.induct)
  case (1 exec c ts)
  show ?case
  proof (cases "ts = [] \<or> c = 0")
    case True
    with 1 show ?thesis by (auto simp: dispatchLoop.simps [of exec c ts])
  next
    case False
    have "dispatchLoop exec c (drop c ts) = map f (drop c ts)"
      using 1 False set_drop_subset [of c ts] by (metis gr_zeroI order_trans)
    moreover have "exec (take c ts) = map f (take c ts)"
      using 1(2) set_take_subset [of c ts] by blast
    ultimately show ?thesis
      using False by (simp add: dispatchLoop.simps [of exec c ts] flip: map_append)
  qed
qed

lemma batchExecutions_map:
  "(\<And>i task. (i, task) \<in> set b \<Longrightarrow>
      submittedExecution cfg r rv input step (i, task) = executeTask cfg r rv i task input step) \<Longrightarrow>
   batchExecutions cfg r rv input step b = map (\<lambda>(i, task). executeTask cfg r rv i task input step) b"
  by (auto simp: batchExecutions_def split: list.split prod.split)

lemma dispatchExecutions_eq:
  assumes "\<And>i. i < length tasks \<Longrightarrow>
      isOk (rv_execute (rc_env cfg) step i) \<and> rv_future (rc_env cfg) step i = None"
  shows "dispatchExecutions cfg r rv tasks input step =
    map (\<lambda>(i, task). executeTask cfg r rv i task input step) (enumerate 0 tasks)"
proof -
  let ?c = "fanOutConcurrency (length tasks) (opt_maxConcurrency (rc_options cfg))
    (\<not> opt_executor (rc_options cfg)) (rv_hardware (rc_env cfg))"
  have "dispatchLoop (batchExecutions cfg r rv input step) ?c (enumerate 0 tasks) =
      map (\<lambda>(i, task). executeTask cfg r rv i task input step) (enumerate 0 tasks)"
  proof (rule dispatchLoop_map)
    fix b
    assume b: "set b \<subseteq> set (enumerate 0 tasks)"
    show "batchExecutions cfg r rv input step b =
        map (\<lambda>(i, task). executeTask cfg r rv i task input step) b"
    proof (rule batchExecutions_map)
      fix i task
      assume "(i, task) \<in> set b"
      with b have "i < length tasks" by (auto simp: in_set_enumerate_eq)
      with assms show "submittedExecution cfg r rv input step (i, task) =
          executeTask cfg r rv i task input step" by (simp add: submittedExecution_def)
    qed
  next
    show "enumerate 0 tasks = [] \<or> 0 < ?c"
      by (cases tasks) (auto intro: fanOutConcurrency_pos)
  qed
  then show ?thesis by (simp add: dispatchExecutions_def Let_def)
qed

text \<open>Whatever the executor does, there is one execution per task, in the order of the tasks.\<close>

lemma dispatchLoop_all2:
  assumes "\<And>b. set b \<subseteq> set ts \<Longrightarrow> list_all2 P b (exec b)" and "ts = [] \<or> 0 < c"
  shows "list_all2 P ts (dispatchLoop exec c ts)"
  using assms
proof (induction exec c ts rule: dispatchLoop.induct)
  case (1 exec c ts)
  show ?case
  proof (cases "ts = [] \<or> c = 0")
    case True
    with 1 show ?thesis by (auto simp: dispatchLoop.simps [of exec c ts])
  next
    case False
    have "list_all2 P (drop c ts) (dispatchLoop exec c (drop c ts))"
      using 1 False set_drop_subset [of c ts] by (metis gr_zeroI order_trans)
    moreover have "list_all2 P (take c ts) (exec (take c ts))"
      using 1(2) set_take_subset [of c ts] by blast
    ultimately have "list_all2 P (take c ts @ drop c ts) (exec (take c ts) @ dispatchLoop exec c (drop c ts))"
      by (rule list_all2_appendI [rotated])
    then show ?thesis using False by (simp add: dispatchLoop.simps [of exec c ts])
  qed
qed

lemma submittedExecution_of:
  "faithful_statuses cfg \<Longrightarrow> execution_of task (submittedExecution cfg r rv input step (i, task))"
  by (auto simp: submittedExecution_def executeTask_execution execution_of_failed exceptionStatus_def
      unknownExceptionStatus_def split: option.split)

lemma dispatchExecutions_tasks:
  assumes "faithful_statuses cfg"
  shows "list_all2 execution_of tasks (dispatchExecutions cfg r rv tasks input step)"
proof -
  let ?c = "fanOutConcurrency (length tasks) (opt_maxConcurrency (rc_options cfg))
    (\<not> opt_executor (rc_options cfg)) (rv_hardware (rc_env cfg))"
  let ?P = "\<lambda>it. execution_of (snd it)"
  have map2: "list_all2 ?P b (map f b)" if "\<And>it. ?P it (f it)" for f b
    using that by (simp add: list_all2_conv_all_nth)
  have "list_all2 ?P b (batchExecutions cfg r rv input step b)" for b
  proof (cases "\<exists>it. b = [it]")
    case True
    then show ?thesis
      using assms by (auto simp: batchExecutions_def executeTask_execution)
  next
    case False
    then have "batchExecutions cfg r rv input step b = map (submittedExecution cfg r rv input step) b"
      by (auto simp: batchExecutions_def split: list.split)
    then show ?thesis
      using map2 submittedExecution_of [OF assms] by (metis prod.collapse)
  qed
  moreover have "enumerate 0 tasks = [] \<or> 0 < ?c"
    by (cases tasks) (auto intro: fanOutConcurrency_pos)
  ultimately have "list_all2 ?P (enumerate 0 tasks) (dispatchExecutions cfg r rv tasks input step)"
    unfolding dispatchExecutions_def Let_def by (intro dispatchLoop_all2)
  then have "list_all2 execution_of (map snd (enumerate 0 tasks))
      (dispatchExecutions cfg r rv tasks input step)" by (simp only: list_all2_map1)
  then show ?thesis by (simp only: map_snd_enumerate)
qed

end
