(* ===== verification/Run_Loop.thy ===== *)
theory Run_Loop
  imports Node_Exec
begin

text \<open>
  \<^verbatim>\<open>GraphRun::run\<close> of \<^verbatim>\<open>src/src/langgraph/graph/graph_run.cpp\<close>: the start of a run, the resume
  command, one super-step in the order of its code, and the loop.  An early return of the
  C++ body is the left value of the computation, with the result that is returned.  The loop has
  fuel, one unit per super-step; \<open>None\<close> means that the fuel did not suffice.
\<close>

type_synonym ('s, 'a) run_body = "'s run_state \<Rightarrow> (RunResult result + 'a) \<times> 's run_state"

definition leave :: "('s run_state, RunResult) sres \<Rightarrow> ('s, 'a) run_body" where
  "leave m s = (case m s of (r, s') \<Rightarrow> (Inl r, s'))"

definition leaveStatus :: "status \<Rightarrow> ('s, 'a) run_body" where
  "leaveStatus st = slift (Inl (Inl st))"

text \<open>A failure at the current step of the result.\<close>

definition failHere ::
  "'s run_cfg \<Rightarrow> status \<Rightarrow> string \<Rightarrow> CheckpointTask list \<Rightarrow> CheckpointWrite list \<Rightarrow> ('s, 'a) run_body" where
  "failHere cfg st node next pend =
     sbind (sgets (\<lambda>s. rr_step (rs_result s))) (\<lambda>step. leave (failRun cfg st step node next pend))"

section \<open>Writes and routes\<close>

definition writePayload :: "CheckpointWrite \<Rightarrow> json \<Rightarrow> json" where
  "writePayload w update =
     (let p = stateUpdatePayload update;
          p = jputIf (cw_taskId w \<noteq> []) ''task_id'' (JStr (cw_taskId w)) p;
          p = jputIf (cw_ns w \<noteq> []) ''checkpoint_ns'' (JStr (cw_ns w)) p;
          p = jputIf (cw_ns w \<noteq> []) ''ns'' (JStr (cw_ns w)) p;
          p = jputIf (cw_ns w \<noteq> []) ''namespace'' (namespacePathFromString (cw_ns w)) p;
          p = jputOpt ''order'' JUint (cw_order w) p in
      jputIf (\<not> jempty (cw_metadata w)) ''metadata'' (cw_metadata w) p)"

definition applyWrite :: "'s run_cfg \<Rightarrow> CheckpointWrite \<Rightarrow> 64 word \<Rightarrow> ('s run_state, unit) sres" where
  "applyWrite cfg w step =
     sbind (slift (StateUpdate_fromJsonValue (cw_update w))) (\<lambda>update.
     sbind (sgets (\<lambda>s. rr_state (rs_result s))) (\<lambda>st.
     sbind (slift (applyStateUpdate st update (opt_reducers (rc_options cfg)))) (\<lambda>merged.
     sbind (smodify (setResult (\<lambda>r. r\<lparr>rr_state := merged\<rparr>))) (\<lambda>_.
     sbind (slift (validateStateSchema merged (stateSchema (sg_schemas (rc_graph cfg))) ''state'')) (\<lambda>_.
     emit cfg StateUpdated step (cw_nodeId w) (writePayload w update) [])))))"

definition routeContext :: "RunResult \<Rightarrow> 64 word \<Rightarrow> string \<Rightarrow> Runtime" where
  "routeContext r step node =
     \<lparr>rt_runId = rr_runId r, rt_threadId = rr_threadId r, rt_ns = rr_ns r, rt_taskId = [],
      rt_step = step, rt_nodeId = node, rt_resumeValue = None, rt_attempt = 1\<rparr>"

definition routeFromWrite ::
  "'s run_cfg \<Rightarrow> CheckpointWrite \<Rightarrow> CheckpointTask list \<Rightarrow> 64 word \<Rightarrow>
   ('s run_state, CheckpointTask list) sres" where
  "routeFromWrite cfg w routed step =
     (if cw_hasNextTasks w then sret (foldl appendTask routed (cw_nextTasks w))
      else sbind (sgets rs_result) (\<lambda>r.
           sbind (slift (rc_next cfg (cw_nodeId w) (rr_state r) (routeContext r step (cw_nodeId w)))) (\<lambda>tasks.
           sret (foldl appendTask routed tasks))))"

section \<open>Start\<close>

text \<open>The members of a new run; a missing run or thread id is generated.\<close>

definition initialRunState ::
  "'s run_cfg \<Rightarrow> json \<Rightarrow> 64 word \<Rightarrow> string option \<Rightarrow> 's \<Rightarrow> nat \<Rightarrow> 's run_state" where
  "initialRunState cfg st step parent sv tick =
     (let opts = rc_options cfg; ev = rc_env cfg in
      \<lparr>rs_result =
         \<lparr>rr_state = st,
          rr_runId = (if opt_runId opts = [] then generatedId ev tick ''run'' else opt_runId opts),
          rr_threadId = (if opt_threadId opts = [] then generatedId ev (Suc tick) ''thread''
                         else opt_threadId opts),
          rr_ns = opt_ns opts, rr_status = Completed, rr_step = step, rr_events = [],
          rr_parentCommand = None\<rparr>,
       rs_parent = parent, rs_saver = sv, rs_tick = tick + 2, rs_resume = [],
       rs_budget = newBudget (opt_limits opts) 0 0\<rparr>)"

text \<open>
  The checks before the run, the route from START of a new run, the start event and the
  initial checkpoint.
\<close>

definition beginRun ::
  "'s run_cfg \<Rightarrow> CheckpointTask list \<Rightarrow> CheckpointWrite list \<Rightarrow> ('s, CheckpointTask list) run_body" where
  "beginRun cfg next pend =
     sbind (sgets rs_result) (\<lambda>r.
     sbind (if rc_writeInitial cfg
            then (case validateStateSchema (rr_state r) (inputSchema (sg_schemas (rc_graph cfg))) ''input'' of
                    Inl e \<Rightarrow> leaveStatus e | Inr _ \<Rightarrow> sret ())
            else sret ()) (\<lambda>_.
     sbind (if rc_writeInitial cfg \<and> omap_has START (sg_routers (rc_graph cfg))
            then (case rc_next cfg START (rr_state r) (routeContext r (rr_step r) START) of
                    Inl e \<Rightarrow> leaveStatus e
                  | Inr tasks \<Rightarrow> sret (normalizeNextTasks tasks))
            else sret next) (\<lambda>next.
     sbind (scatch (emit cfg RunStarted (rr_step r) [] (JObj []) [])
              (\<lambda>e. failHere cfg e [] next pend)) (\<lambda>_.
     sbind (if rc_writeInitial cfg
            then scatch (putCheckpoint cfg (rr_step r) next [] [] ''initial'' False True) leaveStatus
            else sret ()) (\<lambda>_.
     sret next)))))"

section \<open>Resume command\<close>

text \<open>The tasks an interrupt can belong to: same node, same order where both have one, no value yet.\<close>

definition interruptCandidates ::
  "CheckpointTask list \<Rightarrow> (nat, json) omap \<Rightarrow> InterruptMetadata \<Rightarrow> nat list" where
  "interruptCandidates next values md =
     filter (\<lambda>i. \<not> omap_has i values \<and> ct_nodeId (next ! i) = im_node md \<and>
       (im_order md = None \<or> ct_order (next ! i) = None \<or> im_order md = ct_order (next ! i)))
       [0..<length next]"

definition resumeInterrupt ::
  "'s run_cfg \<Rightarrow> json \<Rightarrow> nat \<Rightarrow> CheckpointTask list \<Rightarrow> CheckpointWrite list \<Rightarrow> InterruptMetadata \<Rightarrow>
   unit \<Rightarrow> ('s, unit) run_body" where
  "resumeInterrupt cfg value count next pend md _ =
     sbind (sgets rs_resume) (\<lambda>values.
     case interruptCandidates next values md of
       [] \<Rightarrow> failHere cfg
         (mkStatus FailedPrecondition (''resume node is not pending: '' @ im_node md)) (im_node md) next pend
     | [i] \<Rightarrow>
         (case resumeValueForInterrupt value md count of
            Inl e \<Rightarrow> failHere cfg e (im_node md) next pend
          | Inr v \<Rightarrow> smodify (\<lambda>s. s\<lparr>rs_resume := omap_emplace i v (rs_resume s)\<rparr>))
     | _ \<Rightarrow> failHere cfg
         (mkStatus FailedPrecondition (''resume command matches multiple pending tasks: '' @ im_node md))
         (im_node md) next pend)"

definition applyResumeCommand ::
  "'s run_cfg \<Rightarrow> Command \<Rightarrow> CheckpointTask list \<Rightarrow> CheckpointWrite list \<Rightarrow> ('s, unit) run_body" where
  "applyResumeCommand cfg command next pend =
     (case cmd_resume command of
        None \<Rightarrow> failHere cfg (mkStatus InvalidArgument ''unsupported command'') [] next pend
      | Some value \<Rightarrow>
          sbind (sgets (\<lambda>s. rr_state (rs_result s))) (\<lambda>st.
          sbind (case interruptMetadataFromState st of
                   Inl e \<Rightarrow> failHere cfg e [] next pend
                 | Inr [] \<Rightarrow>
                     if length next \<noteq> 1
                     then failHere cfg (mkStatus FailedPrecondition
                       ''resume command requires a single pending node when no interrupt metadata exists'')
                       [] next pend
                     else smodify (\<lambda>s. s\<lparr>rs_resume := omap_emplace 0 value (rs_resume s)\<rparr>)
                 | Inr mds \<Rightarrow> sfold (resumeInterrupt cfg value (length mds) next pend) mds ()) (\<lambda>_.
          case withoutInterruptMetadata st of
            Inl e \<Rightarrow> failHere cfg e [] next pend
          | Inr cleaned \<Rightarrow>
              sbind (smodify (setResult (\<lambda>r. r\<lparr>rr_state := cleaned\<rparr>))) (\<lambda>_.
              case applyStateUpdate cleaned (cmd_update command) (opt_reducers (rc_options cfg)) of
                Inl e \<Rightarrow> failHere cfg e [] next pend
              | Inr resumed \<Rightarrow> smodify (setResult (\<lambda>r. r\<lparr>rr_state := resumed\<rparr>))))))"

definition prepareRun ::
  "'s run_cfg \<Rightarrow> CheckpointTask list \<Rightarrow> CheckpointWrite list \<Rightarrow> ('s, unit) run_body" where
  "prepareRun cfg next pend =
     sbind (smodify (\<lambda>s. s\<lparr>rs_resume := []\<rparr>)) (\<lambda>_.
     sbind (if rc_writeInitial cfg then sret ()
            else sbind (sgets (\<lambda>s. rr_state (rs_result s))) (\<lambda>st.
              case withoutRunErrorMetadata st of
                Inl e \<Rightarrow> failHere cfg e [] next pend
              | Inr cleaned \<Rightarrow> smodify (setResult (\<lambda>r. r\<lparr>rr_state := cleaned\<rparr>)))) (\<lambda>_.
     sbind (case opt_command (rc_options cfg) of
              None \<Rightarrow> sret () | Some command \<Rightarrow> applyResumeCommand cfg command next pend) (\<lambda>_.
     sbind (sgets (\<lambda>s. rr_state (rs_result s))) (\<lambda>st.
     case validateStateSchema st (stateSchema (sg_schemas (rc_graph cfg))) ''state'' of
       Inl e \<Rightarrow> failHere cfg e [] next pend
     | Inr _ \<Rightarrow> smodify (\<lambda>s. s\<lparr>rs_budget := newBudget (opt_limits (rc_options cfg))
                   (rv_clock (rc_env cfg) (rs_tick s)) (rv_clock (rc_env cfg) (Suc (rs_tick s))),
                 rs_tick := rs_tick s + 2\<rparr>)))))"

section \<open>One super-step\<close>

record step_ctx =
  sx_active :: "CheckpointTask list"
  sx_step :: "64 word"
  sx_failureNode :: string
  sx_input :: json

definition stepContext :: "'s run_state \<Rightarrow> CheckpointTask list \<Rightarrow> step_ctx" where
  "stepContext s next =
     (let r = rs_result s;
          active = annotateTasks (rr_runId r) (rr_ns r) (normalizeNextTasks next) (rr_step r + 1) in
      \<lparr>sx_active = active, sx_step = rr_step r + 1,
       sx_failureNode = (case active of [] \<Rightarrow> [] | t # _ \<Rightarrow> ct_nodeId t),
       sx_input = rr_state r\<rparr>)"

definition consumeBudget :: "'s run_cfg \<Rightarrow> ('s run_state, unit) sres" where
  "consumeBudget cfg s =
     (case consumeStep 1 (rv_clock (rc_env cfg) (rs_tick s)) (rs_budget s) of (st, b) \<Rightarrow>
        (statusResult st, (tickOn s)\<lparr>rs_budget := b\<rparr>))"

definition nodeStartedPayload :: "step_ctx \<Rightarrow> CheckpointTask \<Rightarrow> json" where
  "nodeStartedPayload sx task =
     (let p = taskRuntimePayload task (sx_step sx);
          p = jput p ''input'' (case ct_state task of Some st \<Rightarrow> st | None \<Rightarrow> sx_input sx) in
      jput p ''triggers'' (JArr (if sx_step sx = 1 then [JStr START] else [])))"

definition stepHead ::
  "'s run_cfg \<Rightarrow> CheckpointTask list \<Rightarrow> CheckpointWrite list \<Rightarrow> ('s, step_ctx) run_body" where
  "stepHead cfg next pend =
     sbind (sgets (\<lambda>s. stepContext s next)) (\<lambda>sx.
     sbind (sgets (\<lambda>s. statusResult (opt_cancellation (rc_options cfg) (rs_tick s)))) (\<lambda>token.
     sbind (smodify tickOn) (\<lambda>_.
     sbind (scatch (slift token)
              (\<lambda>e. leave (failRun cfg e (sx_step sx) (sx_failureNode sx) (sx_active sx) pend))) (\<lambda>_.
     sbind (scatch (consumeBudget cfg)
              (\<lambda>e. leave (failRun cfg e (sx_step sx) (sx_failureNode sx) (sx_active sx) pend))) (\<lambda>_.
     sbind (sfold (\<lambda>task _. scatch
                (emit cfg NodeStarted (sx_step sx) (ct_nodeId task) (nodeStartedPayload sx task) [])
                (\<lambda>e. leave (failRun cfg e (sx_step sx) (ct_nodeId task) (sx_active sx) pend)))
              (sx_active sx) ()) (\<lambda>_.
     sret sx))))))"

subsection \<open>Sorting out the executions\<close>

record classified =
  cl_execs :: "NodeExecution list"
  cl_failed :: "nat list"
  cl_interrupts :: "nat list"
  cl_parent :: "nat option"

text \<open>Why an output that came back with an ok status is not acceptable.\<close>

definition outputProblem :: "bool \<Rightarrow> NodeExecution \<Rightarrow> status option" where
  "outputProblem allowParent x =
     (case ne_output x of
        None \<Rightarrow> Some (mkStatus Internal ''node execution missing output'')
      | Some out \<Rightarrow>
          (case no_command out of
             None \<Rightarrow> None
           | Some c \<Rightarrow>
               if no_interrupt out \<noteq> None
               then Some (mkStatus InvalidArgument
                 ''node output cannot combine interrupt and command routing'')
               else if cmd_resume c \<noteq> None
               then Some (mkStatus InvalidArgument ''node returned unsupported resume command'')
               else if cmd_graph c = Parent \<and> \<not> allowParent
               then Some (mkStatus FailedPrecondition
                 ''node returned parent command outside a subgraph'')
               else None))"

definition isParentCommand :: "NodeExecution \<Rightarrow> bool" where
  "isParentCommand x \<longleftrightarrow>
     (case ne_output x of
        None \<Rightarrow> False
      | Some out \<Rightarrow> (case no_command out of None \<Rightarrow> False | Some c \<Rightarrow> cmd_graph c = Parent))"

definition isInterrupt :: "NodeExecution \<Rightarrow> bool" where
  "isInterrupt x \<longleftrightarrow> (case ne_output x of None \<Rightarrow> False | Some out \<Rightarrow> no_interrupt out \<noteq> None)"

definition okIndexes :: "(NodeExecution \<Rightarrow> bool) \<Rightarrow> NodeExecution list \<Rightarrow> nat list" where
  "okIndexes P xs = filter (\<lambda>i. isOk (ne_status (xs ! i)) \<and> P (xs ! i)) [0..<length xs]"

definition failIndexes :: "status \<Rightarrow> nat list \<Rightarrow> NodeExecution list \<Rightarrow> NodeExecution list" where
  "failIndexes st is xs = map (\<lambda>(i, x). if i \<in> set is then x\<lparr>ne_status := st\<rparr> else x) (enumerate 0 xs)"

definition checkOutput :: "bool \<Rightarrow> NodeExecution \<Rightarrow> NodeExecution" where
  "checkOutput allowParent x =
     (if \<not> isOk (ne_status x) then x
      else case outputProblem allowParent x of None \<Rightarrow> x | Some st \<Rightarrow> x\<lparr>ne_status := st\<rparr>)"

definition multipleParentsStatus :: status where
  "multipleParentsStatus =
     mkStatus FailedPrecondition ''multiple parent commands in one super-step are not supported''"

definition parentAndInterruptStatus :: status where
  "parentAndInterruptStatus =
     mkStatus FailedPrecondition ''parent command cannot be combined with interrupts in one super-step''"

definition classify :: "bool \<Rightarrow> NodeExecution list \<Rightarrow> classified" where
  "classify allowParent xs =
     (let failed1 = filter (\<lambda>i. \<not> isOk (ne_status (xs ! i))) [0..<length xs];
          failed2 = okIndexes (\<lambda>x. outputProblem allowParent x \<noteq> None) xs;
          xs2 = map (checkOutput allowParent) xs;
          interrupts = okIndexes isInterrupt xs2;
          parents = okIndexes isParentCommand xs2;
          failed3 = tl parents;
          xs3 = failIndexes multipleParentsStatus failed3 xs2;
          parent = (case parents of [] \<Rightarrow> None | p # _ \<Rightarrow> Some p);
          failed4 = (if interrupts = [] then [] else take 1 parents) in
      \<lparr>cl_execs = failIndexes parentAndInterruptStatus failed4 xs3,
       cl_failed = failed1 @ failed2 @ failed3 @ failed4,
       cl_interrupts = interrupts, cl_parent = parent\<rparr>)"

definition taskFailurePayload :: "CheckpointTask \<Rightarrow> 64 word \<Rightarrow> status \<Rightarrow> json" where
  "taskFailurePayload task step st =
     jput (taskRuntimePayload task step) ''error''
       (obj [(''message'', JStr (statusToString st)), (''code'', JStr (statusCodeName (st_code st)))])"

text \<open>The failure events: with the task for a failed handler, without a payload otherwise.\<close>

definition reportFailures ::
  "'s run_cfg \<Rightarrow> 64 word \<Rightarrow> NodeExecution list \<Rightarrow> classified \<Rightarrow> ('s, unit) run_body" where
  "reportFailures cfg step xs cl =
     sfold (\<lambda>i _. let x = cl_execs cl ! i in
       signore (emit cfg NodeFailed step (ct_nodeId (ne_task x))
         (if isOk (ne_status (xs ! i)) then JNull
          else taskFailurePayload (ne_task x) step (ne_status x))
         (statusToString (ne_status x)))) (cl_failed cl) ()"

definition nodeCompletedPayload :: "CheckpointTask \<Rightarrow> 64 word \<Rightarrow> NodeOutput \<Rightarrow> json" where
  "nodeCompletedPayload task step out =
     jput (jput (taskRuntimePayload task step) ''result'' (stateUpdatePayload (no_update out)))
       ''update'' (no_update out)"

definition emitCompleted ::
  "'s run_cfg \<Rightarrow> 64 word \<Rightarrow> NodeExecution \<Rightarrow> ('s run_state, unit) sres" where
  "emitCompleted cfg step x =
     emit cfg NodeCompleted step (ct_nodeId (ne_task x))
       (nodeCompletedPayload (ne_task x) step (the (ne_output x))) []"

definition executionWrite :: "'s run_cfg \<Rightarrow> NodeExecution \<Rightarrow> ('s run_state, CheckpointWrite) sres" where
  "executionWrite cfg x =
     sbind (sgets (\<lambda>s. rr_ns (rs_result s))) (\<lambda>ns.
       slift (writeFromExecution (rc_graph cfg) ns (ne_task x) (the (ne_output x))))"

subsection \<open>A step with failed tasks\<close>

text \<open>
  Without interrupts the writes of the tasks that succeeded become pending writes of the
  failure checkpoint and the failed tasks its next tasks; with interrupts all tasks of the step
  are to run again.
\<close>

definition pendingAfterFailure ::
  "'s run_cfg \<Rightarrow> 64 word \<Rightarrow> CheckpointTask list \<Rightarrow> NodeExecution \<Rightarrow> CheckpointWrite list \<Rightarrow>
   ('s, CheckpointWrite list) run_body" where
  "pendingAfterFailure cfg step failureNext x pend =
     (if \<not> isOk (ne_status x) then sret pend
      else sbind (scatch (emitCompleted cfg step x)
             (\<lambda>e. leave (failRun cfg e step (ct_nodeId (ne_task x)) failureNext pend))) (\<lambda>_.
           sbind (scatch (executionWrite cfg x) (\<lambda>e.
             sbind (signore (emit cfg NodeFailed step (ct_nodeId (ne_task x)) JNull (statusToString e))) (\<lambda>_.
             leave (failRun cfg e step (ct_nodeId (ne_task x)) (appendTask [] (ne_task x)) pend)))) (\<lambda>w.
           sret (pend @ [w]))))"

definition failedStep ::
  "'s run_cfg \<Rightarrow> step_ctx \<Rightarrow> classified \<Rightarrow> CheckpointWrite list \<Rightarrow> ('s, 'a) run_body" where
  "failedStep cfg sx cl pend =
     (let first = cl_execs cl ! hd (cl_failed cl);
          failureNext = foldl appendTask [] (map (\<lambda>i. ne_task (cl_execs cl ! i)) (cl_failed cl)) in
      if cl_interrupts cl = []
      then sbind (sfold (pendingAfterFailure cfg (sx_step sx) failureNext) (cl_execs cl) pend) (\<lambda>pend'.
             leave (failRun cfg (ne_status first) (sx_step sx) (ct_nodeId (ne_task first)) failureNext pend'))
      else leave (failRun cfg (ne_status first) (sx_step sx) (ct_nodeId (ne_task first)) (sx_active sx) pend))"

subsection \<open>A step whose tasks succeeded\<close>

definition emitAllCompleted ::
  "'s run_cfg \<Rightarrow> step_ctx \<Rightarrow> classified \<Rightarrow> CheckpointWrite list \<Rightarrow> ('s, unit) run_body" where
  "emitAllCompleted cfg sx cl pend =
     sfold (\<lambda>x _. if isInterrupt x then sret ()
       else scatch (emitCompleted cfg (sx_step sx) x)
         (\<lambda>e. leave (failRun cfg e (sx_step sx) (ct_nodeId (ne_task x)) (sx_active sx) pend)))
       (cl_execs cl) ()"

text \<open>
  The writes of the step.  With synchronous durability the writes so far are stored after every
  task but the last, with the tasks that remain.
\<close>

fun collectWrites ::
  "'s run_cfg \<Rightarrow> 64 word \<Rightarrow> bool \<Rightarrow> CheckpointWrite list \<Rightarrow> CheckpointWrite list \<Rightarrow> NodeExecution list \<Rightarrow>
   ('s, CheckpointWrite list) run_body" where
  "collectWrites cfg step persist pend writes [] = sret writes"
| "collectWrites cfg step persist pend writes (x # xs) =
     sbind (scatch (executionWrite cfg x) (\<lambda>e.
       sbind (signore (emit cfg NodeFailed step (ct_nodeId (ne_task x)) JNull (statusToString e))) (\<lambda>_.
       leave (failRun cfg e step (ct_nodeId (ne_task x)) [ne_task x] pend)))) (\<lambda>w.
     sbind (if persist \<and> xs \<noteq> []
            then scatch (putCheckpoint cfg step (foldl appendTask [] (map ne_task xs)) [] (writes @ [w])
                           ''task_writes'' False True) (\<lambda>e.
              sbind (signore (emit cfg RunFailed step (ct_nodeId (ne_task x)) JNull (statusToString e))) (\<lambda>_.
              leaveStatus e))
            else sret ()) (\<lambda>_.
     collectWrites cfg step persist pend (writes @ [w]) xs))"

definition applyWrites ::
  "'s run_cfg \<Rightarrow> step_ctx \<Rightarrow> CheckpointWrite list \<Rightarrow> CheckpointWrite list \<Rightarrow> ('s, unit) run_body" where
  "applyWrites cfg sx pend writes =
     sfold (\<lambda>w _. scatch (applyWrite cfg w (sx_step sx)) (\<lambda>e.
       sbind (signore (emit cfg NodeFailed (sx_step sx) (cw_nodeId w) JNull (statusToString e))) (\<lambda>_.
       leave (failRun cfg e (sx_step sx) (cw_nodeId w) (sx_active sx) pend)))) writes ()"

definition routeWrites ::
  "'s run_cfg \<Rightarrow> step_ctx \<Rightarrow> CheckpointWrite list \<Rightarrow> ('s, CheckpointTask list) run_body" where
  "routeWrites cfg sx writes =
     sfold (\<lambda>w routed. scatch (routeFromWrite cfg w routed (sx_step sx)) (\<lambda>e.
       sbind (signore (emit cfg NodeFailed (sx_step sx) (cw_nodeId w) JNull (statusToString e))) (\<lambda>_.
       leave (failRun cfg e (sx_step sx) (cw_nodeId w) (sx_active sx) [])))) writes []"

definition storeOrLeave ::
  "'s run_cfg \<Rightarrow> 64 word \<Rightarrow> CheckpointTask list \<Rightarrow> CheckpointWrite list \<Rightarrow> string \<Rightarrow> bool \<Rightarrow> string \<Rightarrow>
   ('s, unit) run_body" where
  "storeOrLeave cfg step next writes source terminal node =
     scatch (putCheckpoint cfg step next writes [] source terminal True) (\<lambda>e.
       sbind (signore (emit cfg RunFailed step node JNull (statusToString e))) (\<lambda>_. leaveStatus e))"

text \<open>A command for the parent graph ends the run of the subgraph.\<close>

definition finishParentCommand ::
  "'s run_cfg \<Rightarrow> step_ctx \<Rightarrow> CheckpointWrite list \<Rightarrow> NodeExecution \<Rightarrow> ('s, 'a) run_body" where
  "finishParentCommand cfg sx writes x =
     (let step = sx_step sx; node = ct_nodeId (ne_task x) in
      sbind (smodify (setResult (\<lambda>r. r\<lparr>rr_step := step,
               rr_parentCommand := no_command (the (ne_output x))\<rparr>))) (\<lambda>_.
      sbind (sgets (\<lambda>s. rr_state (rs_result s))) (\<lambda>st.
      sbind (scatch (slift (validateStateSchema st (outputSchema (sg_schemas (rc_graph cfg))) ''output''))
               (\<lambda>e. leave (failRun cfg e step node [] []))) (\<lambda>_.
      sbind (smodify (setResult (\<lambda>r. r\<lparr>rr_status := Completed\<rparr>))) (\<lambda>_.
      sbind (scatch (emit cfg RunCompleted step []
                (obj [(''state'', st), (''parent_command'', JBool True)]) [])
               (\<lambda>e. leave (failRun cfg e step node [] []))) (\<lambda>_.
      sbind (storeOrLeave cfg step [] writes ''parent_command'' True node) (\<lambda>_.
      leave (sgets rs_result))))))))"

text \<open>Interrupted tasks are kept to run again; the others are routed.\<close>

definition isInterruptedWrite :: "classified \<Rightarrow> CheckpointWrite \<Rightarrow> bool" where
  "isInterruptedWrite cl w \<longleftrightarrow>
     (\<exists>i \<in> set (cl_interrupts cl). cw_nodeId w = ct_nodeId (ne_task (cl_execs cl ! i)) \<and>
        cw_order w = ct_order (ne_task (cl_execs cl ! i)))"

definition interruptOf :: "NodeExecution \<Rightarrow> Interrupt" where
  "interruptOf x = the (no_interrupt (the (ne_output x)))"

definition pendingInterruptOf :: "NodeExecution \<Rightarrow> PendingInterrupt" where
  "pendingInterruptOf x =
     \<lparr>pi_interrupt = interruptOf x, pi_node = ct_nodeId (ne_task x), pi_order = ct_order (ne_task x)\<rparr>"

definition interruptEvent :: "run_env \<Rightarrow> nat \<Rightarrow> 64 word \<Rightarrow> NodeExecution \<Rightarrow> RuntimeEvent" where
  "interruptEvent ev tick step x =
     (let i = interruptOf x;
          p = obj [(''id'', JStr (in_id i)), (''node'', JStr (ct_nodeId (ne_task x))),
                   (''step'', JUint step), (''value'', in_value i)];
          p = jputIf (\<not> jempty (in_resumeValues i)) ''resume_values'' (in_resumeValues i) p in
      (RuntimeEvent_create (rv_env ev) tick InterruptRequested)
        \<lparr>re_step := step, re_node := ct_nodeId (ne_task x), re_name := in_id i, re_payload := p\<rparr>)"

definition publishInterrupt ::
  "'s run_cfg \<Rightarrow> 64 word \<Rightarrow> NodeExecution \<Rightarrow> ('s run_state, unit) sres" where
  "publishInterrupt cfg step x s =
     publish cfg (interruptEvent (rc_env cfg) (rs_tick s) step x) (tickOn s)"

definition pauseRun ::
  "'s run_cfg \<Rightarrow> step_ctx \<Rightarrow> classified \<Rightarrow> CheckpointWrite list \<Rightarrow> ('s, 'a) run_body" where
  "pauseRun cfg sx cl writes =
     (let step = sx_step sx; paused = map (\<lambda>i. cl_execs cl ! i) (cl_interrupts cl);
          node = ct_nodeId (ne_task (hd paused)) in
      sbind (routeWrites cfg sx (filter (\<lambda>w. \<not> isInterruptedWrite cl w) writes)) (\<lambda>routed.
      let next = foldl appendTask (foldl appendTask [] (map ne_task paused)) routed in
      sbind (smodify (setResult (\<lambda>r. r\<lparr>rr_step := step\<rparr>))) (\<lambda>_.
      sbind (sgets (\<lambda>s. rr_state (rs_result s))) (\<lambda>st.
      sbind (scatch (slift (withInterruptMetadata st (map pendingInterruptOf paused) step))
               (\<lambda>e. leave (failRun cfg e step node [] []))) (\<lambda>interrupted.
      sbind (smodify (setResult (\<lambda>r. r\<lparr>rr_state := interrupted\<rparr>))) (\<lambda>_.
      sbind (storeOrLeave cfg step next writes ''interrupt'' True node) (\<lambda>_.
      sbind (sfold (\<lambda>x _. scatch (publishInterrupt cfg step x)
               (\<lambda>e. leave (failRun cfg e step (ct_nodeId (ne_task x)) next []))) paused ()) (\<lambda>_.
      sbind (smodify (setResult (\<lambda>r. r\<lparr>rr_status := Paused\<rparr>))) (\<lambda>_.
      leave (sgets rs_result))))))))))"

text \<open>The step goes on to the routed tasks; without any the run is completed.\<close>

definition closeStep ::
  "'s run_cfg \<Rightarrow> step_ctx \<Rightarrow> CheckpointWrite list \<Rightarrow> CheckpointTask list \<Rightarrow> ('s, CheckpointTask list) run_body" where
  "closeStep cfg sx writes next =
     (let step = sx_step sx; node = sx_failureNode sx; terminal = isTerminalNextTasks next in
      sbind (if \<not> terminal then sret ()
             else
               sbind (sgets (\<lambda>s. rr_state (rs_result s))) (\<lambda>st.
               sbind (scatch (slift (validateStateSchema st (outputSchema (sg_schemas (rc_graph cfg))) ''output''))
                        (\<lambda>e. leave (failRun cfg e step node next []))) (\<lambda>_.
               sbind (smodify (setResult (\<lambda>r. r\<lparr>rr_status := Completed\<rparr>))) (\<lambda>_.
               scatch (emit cfg RunCompleted step [] (obj [(''state'', st)]) [])
                 (\<lambda>e. leave (failRun cfg e step node next [])))))) (\<lambda>_.
      sbind (storeOrLeave cfg step next writes (if terminal then ''completion'' else ''step'') terminal node)
        (\<lambda>_.
      sbind (smodify (\<lambda>s. s\<lparr>rs_resume := []\<rparr>)) (\<lambda>_.
      sret next))))"

definition advance ::
  "'s run_cfg \<Rightarrow> step_ctx \<Rightarrow> CheckpointWrite list \<Rightarrow> ('s, CheckpointTask list) run_body" where
  "advance cfg sx writes =
     sbind (routeWrites cfg sx writes) (\<lambda>next.
     sbind (smodify (setResult (\<lambda>r. r\<lparr>rr_step := sx_step sx\<rparr>))) (\<lambda>_.
     closeStep cfg sx writes next))"

definition finishStep ::
  "'s run_cfg \<Rightarrow> step_ctx \<Rightarrow> classified \<Rightarrow> CheckpointWrite list \<Rightarrow> ('s, CheckpointTask list) run_body" where
  "finishStep cfg sx cl pend =
     sbind (emitAllCompleted cfg sx cl pend) (\<lambda>_.
     sbind (collectWrites cfg (sx_step sx)
              (opt_durability (rc_options cfg) = Sync \<and> cl_interrupts cl = [] \<and> cl_parent cl = None)
              pend pend (cl_execs cl)) (\<lambda>collected.
     let writes = sort_key writeOrderKey collected in
     sbind (applyWrites cfg sx pend writes) (\<lambda>_.
     case cl_parent cl of
       Some p \<Rightarrow> finishParentCommand cfg sx writes (cl_execs cl ! p)
     | None \<Rightarrow>
         if cl_interrupts cl \<noteq> [] then pauseRun cfg sx cl writes
         else advance cfg sx writes)))"

definition superStep ::
  "'s run_cfg \<Rightarrow> CheckpointTask list \<Rightarrow> CheckpointWrite list \<Rightarrow> ('s, CheckpointTask list) run_body" where
  "superStep cfg next pend =
     sbind (stepHead cfg next pend) (\<lambda>sx.
     sbind (sgets (\<lambda>s. dispatchExecutions cfg (rs_result s) (rs_resume s) (sx_active sx)
              (sx_input sx) (sx_step sx))) (\<lambda>xs.
     let cl = classify (rc_allowParent cfg) xs in
     sbind (reportFailures cfg (sx_step sx) xs cl) (\<lambda>_.
     if cl_failed cl \<noteq> [] then failedStep cfg sx cl pend else finishStep cfg sx cl pend)))"

section \<open>The loop\<close>

text \<open>The pending writes are those of the checkpoint the run starts from, for its first step only.\<close>

fun runLoop ::
  "nat \<Rightarrow> 's run_cfg \<Rightarrow> CheckpointTask list \<Rightarrow> CheckpointWrite list \<Rightarrow> 's run_state \<Rightarrow>
   ((RunResult result + unit) \<times> 's run_state) option" where
  "runLoop 0 cfg next pend s = (if isTerminalNextTasks next then Some (Inr (), s) else None)"
| "runLoop (Suc fuel) cfg next pend s =
     (if isTerminalNextTasks next then Some (Inr (), s)
      else case superStep cfg next pend s of
        (Inl r, s') \<Rightarrow> Some (Inl r, s')
      | (Inr next', s') \<Rightarrow> runLoop fuel cfg next' [] s')"

definition finishRun :: "'s run_cfg \<Rightarrow> ('s, unit) run_body" where
  "finishRun cfg =
     sbind (sgets rs_result) (\<lambda>r.
     if rr_status r = Completed then sret ()
     else
       sbind (smodify (setResult (\<lambda>r. r\<lparr>rr_status := Completed\<rparr>))) (\<lambda>_.
       sbind (scatch (slift (validateStateSchema (rr_state r) (outputSchema (sg_schemas (rc_graph cfg))) ''output''))
                (\<lambda>e. leave (failRun cfg e (rr_step r) [] [] []))) (\<lambda>_.
       scatch (emit cfg RunCompleted (rr_step r) [] (obj [(''state'', rr_state r)]) [])
         (\<lambda>e. leave (failRun cfg e (rr_step r) [] [] [])))))"

text \<open>The value returned by a body: its early return, or the result at the end.\<close>

definition returnOf :: "(RunResult result + 'a) \<times> 's run_state \<Rightarrow> RunResult result \<times> 's run_state" where
  "returnOf x = (case x of (Inl r, s) \<Rightarrow> (r, s) | (Inr _, s) \<Rightarrow> (Inr (rs_result s), s))"

definition startRun ::
  "'s run_cfg \<Rightarrow> CheckpointTask list \<Rightarrow> CheckpointWrite list \<Rightarrow> ('s, CheckpointTask list) run_body" where
  "startRun cfg nextTasks pend =
     sbind (beginRun cfg (normalizeNextTasks nextTasks) pend) (\<lambda>next.
     sbind (prepareRun cfg next pend) (\<lambda>_. sret next))"

definition run ::
  "nat \<Rightarrow> 's run_cfg \<Rightarrow> json \<Rightarrow> CheckpointTask list \<Rightarrow> CheckpointWrite list \<Rightarrow> 64 word \<Rightarrow>
   string option \<Rightarrow> 's \<Rightarrow> nat \<Rightarrow> (RunResult result \<times> 's run_state) option" where
  "run fuel cfg st nextTasks pend step parent sv tick =
     (let s0 = initialRunState cfg st step parent sv tick;
          optionsStatus = validateRunOptionsConfig (rc_options cfg) in
      if \<not> isOk optionsStatus then Some (Inl optionsStatus, s0)
      else case startRun cfg nextTasks pend s0 of
        (Inl r, s1) \<Rightarrow> Some (r, s1)
      | (Inr next, s1) \<Rightarrow>
          (case runLoop fuel cfg next pend s1 of
             None \<Rightarrow> None
           | Some (Inl r, s2) \<Rightarrow> Some (r, s2)
           | Some (Inr _, s2) \<Rightarrow> Some (returnOf (finishRun cfg s2))))"

text \<open>The ways a run can return.\<close>

lemma run_cases:
  assumes "run fuel cfg st ts pend step parent sv tick = Some (r, s')"
  obtains
    (invalid) "\<not> isOk (validateRunOptionsConfig (rc_options cfg))"
      "r = Inl (validateRunOptionsConfig (rc_options cfg))"
      "s' = initialRunState cfg st step parent sv tick"
  | (start) "startRun cfg ts pend (initialRunState cfg st step parent sv tick) = (Inl r, s')"
  | (loop) ts1 s1 where
      "startRun cfg ts pend (initialRunState cfg st step parent sv tick) = (Inr ts1, s1)"
      "runLoop fuel cfg ts1 pend s1 = Some (Inl r, s')"
  | (finish) ts1 s1 s2 where
      "startRun cfg ts pend (initialRunState cfg st step parent sv tick) = (Inr ts1, s1)"
      "runLoop fuel cfg ts1 pend s1 = Some (Inr (), s2)"
      "returnOf (finishRun cfg s2) = (r, s')"
  using assms
  by (auto simp: run_def Let_def split: if_splits sum.splits option.splits prod.splits)

end
