(* ===== verification/Run_Frame.thy ===== *)
theory Run_Frame
  imports Run_Loop
begin

text \<open>
  What a run does to its state, in terms of the primitive changes its code makes.  A relation
  between the states before and after that is reflexive and transitive and holds of each
  primitive change holds of every part of a run: this is the locale \<open>run_frame\<close>.  Its
  interpretations give the frame facts the properties rest on: the budget is only used by the head of a
  super-step, the ids of the run never change, and the step only becomes the step that runs.
\<close>

section \<open>Rules for the combinators\<close>

named_theorems framed_intros \<open>introduction rules for framed computations\<close>

definition framed :: "('s \<Rightarrow> 's \<Rightarrow> bool) \<Rightarrow> ('s \<Rightarrow> 'a \<times> 's) \<Rightarrow> bool" where
  "framed R m \<longleftrightarrow> (\<forall>s. R s (snd (m s)))"

lemma framedD: "framed R m \<Longrightarrow> m s = (x, s') \<Longrightarrow> R s s'"
  by (metis framed_def snd_conv)

locale preorder_frame =
  fixes R :: "'s \<Rightarrow> 's \<Rightarrow> bool"
  assumes refl: "R s s" and trans: "R s t \<Longrightarrow> R t u \<Longrightarrow> R s u"
begin

lemma framed_sret [framed_intros]: "framed R (sret x)"
  by (simp add: framed_def sret_def refl)

lemma framed_sgets [framed_intros]: "framed R (sgets f)"
  by (simp add: framed_def sgets_def refl)

lemma framed_slift [framed_intros]: "framed R (slift x)"
  by (simp add: framed_def slift_def refl)

lemma framed_smodify [framed_intros]: "(\<And>s. R s (f s)) \<Longrightarrow> framed R (smodify f)"
  by (simp add: framed_def smodify_def)

lemma framed_sbind [framed_intros]:
  "framed R m \<Longrightarrow> (\<And>x. framed R (f x)) \<Longrightarrow> framed R (sbind m f)"
  by (auto simp: framed_def sbind_def split: prod.split sum.split) (metis snd_conv trans)+

lemma framed_scatch [framed_intros]:
  "framed R m \<Longrightarrow> (\<And>e. framed R (h e)) \<Longrightarrow> framed R (scatch m h)"
  by (auto simp: framed_def scatch_def split: prod.split sum.split) (metis snd_conv trans)+

lemma framed_signore [framed_intros]: "framed R m \<Longrightarrow> framed R (signore m)"
  by (simp add: framed_def signore_def)

lemma framed_sfold [framed_intros]: "(\<And>x acc. framed R (f x acc)) \<Longrightarrow> framed R (sfold f xs acc)"
  by (induction xs arbitrary: acc) (auto intro: framed_intros)

lemma framed_if [framed_intros]:
  "(b \<Longrightarrow> framed R m) \<Longrightarrow> (\<not> b \<Longrightarrow> framed R n) \<Longrightarrow> framed R (if b then m else n)"
  by simp

lemma framed_case_option [framed_intros]:
  "framed R m \<Longrightarrow> (\<And>x. framed R (f x)) \<Longrightarrow> framed R (case v of None \<Rightarrow> m | Some x \<Rightarrow> f x)"
  by (simp split: option.split)

lemma framed_case_sum [framed_intros]:
  "(\<And>x. framed R (f x)) \<Longrightarrow> (\<And>x. framed R (g x)) \<Longrightarrow> framed R (case v of Inl x \<Rightarrow> f x | Inr x \<Rightarrow> g x)"
  by (simp split: sum.split)

lemma framed_case_list [framed_intros]:
  "framed R m \<Longrightarrow> (\<And>x xs. framed R (f x xs)) \<Longrightarrow> framed R (case v of [] \<Rightarrow> m | x # xs \<Rightarrow> f x xs)"
  by (simp split: list.split)

lemma framed_Let [framed_intros]: "framed R (f x) \<Longrightarrow> framed R (let y = x in f y)"
  by simp

end

section \<open>Frame of a run\<close>

text \<open>
  \<open>steps k\<close> says that the relation allows the step of the result to become \<open>k\<close>, and
  \<open>commit\<close> that it allows a checkpoint to be stored.
\<close>

locale publish_frame = preorder_frame R
  for R :: "'s run_state \<Rightarrow> 's run_state \<Rightarrow> bool" +
  fixes cfg :: "'s run_cfg"
  assumes tick: "R s (s\<lparr>rs_tick := t\<rparr>)"
    and events: "R s (s\<lparr>rs_result := (rs_result s)\<lparr>rr_events := es\<rparr>\<rparr>)"
begin

lemma framed_publish [framed_intros]: "framed R (publish cfg e)"
proof (unfold framed_def, rule allI)
  fix s
  have "R s (snd (publish cfg e s)) \<or> snd (publish cfg e s) = tickOn s"
    using trans [OF tick [of s "Suc (rs_tick s)"] events]
    by (auto simp: publish_def Let_def split: prod.split)
  then show "R s (snd (publish cfg e s))" using tick by auto
qed

lemma framed_emit [framed_intros]: "framed R (emit cfg ty k node payload msg)"
  unfolding framed_def emit_def using framed_publish tick trans by (metis framed_def)

lemma framed_leaveStatus [framed_intros]: "framed R (leaveStatus st)"
  unfolding leaveStatus_def by (intro framed_intros)

lemma framed_emitCompleted [framed_intros]: "framed R (emitCompleted cfg k x)"
  unfolding emitCompleted_def by (intro framed_intros)

lemma framed_reportFailures [framed_intros]: "framed R (reportFailures cfg k xs cl)"
  unfolding reportFailures_def Let_def by (intro framed_intros)

lemma framed_publishInterrupt [framed_intros]: "framed R (publishInterrupt cfg k x)"
  unfolding framed_def publishInterrupt_def using framed_publish tick trans by (metis framed_def)

lemma framed_executionWrite [framed_intros]: "framed R (executionWrite cfg x)"
  unfolding executionWrite_def by (intro framed_intros)

lemma framed_routeFromWrite [framed_intros]: "framed R (routeFromWrite cfg w routed k)"
  unfolding routeFromWrite_def by (intro framed_intros)

end

locale event_frame = publish_frame R cfg
  for R :: "'s run_state \<Rightarrow> 's run_state \<Rightarrow> bool" and cfg :: "'s run_cfg" +
  assumes commit: "framed R (commitCheckpoint cfg k next writes pend source terminal)"
begin

lemma framed_putCheckpoint [framed_intros]:
  "framed R (putCheckpoint cfg k next writes pend source terminal req)"
  unfolding putCheckpoint_def by (intro framed_intros commit)

lemma framed_storeOrLeave [framed_intros]: "framed R (storeOrLeave cfg k next writes source terminal node)"
  unfolding storeOrLeave_def by (intro framed_intros)

end

locale run_frame = event_frame R cfg
  for R :: "'s run_state \<Rightarrow> 's run_state \<Rightarrow> bool" and cfg :: "'s run_cfg" +
  fixes steps :: "64 word \<Rightarrow> bool"
  assumes resume: "R s (s\<lparr>rs_resume := v\<rparr>)"
    and state: "R s (s\<lparr>rs_result := (rs_result s)\<lparr>rr_state := j\<rparr>\<rparr>)"
    and stat: "R s (s\<lparr>rs_result := (rs_result s)\<lparr>rr_status := q\<rparr>\<rparr>)"
    and parentCommand: "R s (s\<lparr>rs_result := (rs_result s)\<lparr>rr_parentCommand := c\<rparr>\<rparr>)"
    and stepno: "steps k \<Longrightarrow> R s (s\<lparr>rs_result := (rs_result s)\<lparr>rr_step := k\<rparr>\<rparr>)"
begin

lemma framed_failRun [framed_intros]: "framed R (failRun cfg st k node next pend)"
  unfolding failRun_def Let_def by (intro framed_intros state stat)

lemma framed_leave [framed_intros]: "framed R m \<Longrightarrow> framed R (leave m)"
  by (auto simp: framed_def leave_def split: prod.split) (metis snd_conv)

lemma framed_failHere [framed_intros]: "framed R (failHere cfg st node next pend)"
  unfolding failHere_def by (intro framed_intros)

lemma framed_applyWrite [framed_intros]: "framed R (applyWrite cfg w k)"
  unfolding applyWrite_def by (intro framed_intros state)

lemma framed_beginRun [framed_intros]: "framed R (beginRun cfg next pend)"
  unfolding beginRun_def by (intro framed_intros)

lemma framed_resumeInterrupt [framed_intros]:
  "framed R (resumeInterrupt cfg value count next pend md u)"
  unfolding resumeInterrupt_def by (intro framed_intros resume)

lemma framed_applyResumeCommand [framed_intros]: "framed R (applyResumeCommand cfg c next pend)"
  unfolding applyResumeCommand_def by (intro framed_intros resume state)

lemma framed_failedStep [framed_intros]: "framed R (failedStep cfg sx cl pend)"
  unfolding failedStep_def pendingAfterFailure_def Let_def by (intro framed_intros)

lemma framed_collectWrites [framed_intros]: "framed R (collectWrites cfg k persist pend writes xs)"
  by (induction xs arbitrary: writes) (auto intro!: framed_intros)

lemma framed_applyWrites [framed_intros]: "framed R (applyWrites cfg sx pend writes)"
  unfolding applyWrites_def by (intro framed_intros)

lemma framed_routeWrites [framed_intros]: "framed R (routeWrites cfg sx writes)"
  unfolding routeWrites_def by (intro framed_intros)

lemma framed_finishParentCommand:
  assumes "steps (sx_step sx)"
  shows "framed R (finishParentCommand cfg sx writes x)"
proof -
  have both: "R s (s\<lparr>rs_result := (rs_result s)\<lparr>rr_step := sx_step sx, rr_parentCommand := c\<rparr>\<rparr>)" for s c
    using trans [OF stepno [OF assms, of s] parentCommand [of _ c]] by simp
  show ?thesis
    unfolding finishParentCommand_def Let_def by (intro framed_intros stat both)
qed

lemma framed_pauseRun:
  assumes "steps (sx_step sx)"
  shows "framed R (pauseRun cfg sx cl writes)"
  unfolding pauseRun_def Let_def by (intro framed_intros stepno [OF assms] state stat)

lemma framed_closeStep [framed_intros]: "framed R (closeStep cfg sx writes next)"
  unfolding closeStep_def Let_def by (intro framed_intros stat resume)

lemma framed_advance:
  assumes "steps (sx_step sx)"
  shows "framed R (advance cfg sx writes)"
  unfolding advance_def by (intro framed_intros stepno [OF assms])

lemma framed_emitAllCompleted [framed_intros]: "framed R (emitAllCompleted cfg sx cl pend)"
  unfolding emitAllCompleted_def by (intro framed_intros)

lemma framed_finishStep:
  assumes "steps (sx_step sx)"
  shows "framed R (finishStep cfg sx cl pend)"
  unfolding finishStep_def Let_def
  by (intro framed_intros framed_finishParentCommand framed_pauseRun framed_advance assms)

lemma framed_finishRun [framed_intros]: "framed R (finishRun cfg)"
  unfolding finishRun_def by (intro framed_intros stat)

lemma framed_announceTasks [framed_intros]:
  "framed R (sfold (\<lambda>task _. scatch (emit cfg NodeStarted k (ct_nodeId task) (p task) [])
     (\<lambda>e. leave (failRun cfg e k (ct_nodeId task) active pend))) ts ())"
  by (intro framed_intros)

end

text \<open>A relation that also allows the budget to be used.\<close>

locale budget_frame = run_frame R cfg steps
  for R :: "'s run_state \<Rightarrow> 's run_state \<Rightarrow> bool" and cfg :: "'s run_cfg"
    and steps :: "64 word \<Rightarrow> bool" +
  assumes budget: "R s (s\<lparr>rs_budget := b\<rparr>)"
begin

lemma framed_consumeBudget [framed_intros]: "framed R (consumeBudget cfg)"
proof (unfold framed_def, rule allI)
  fix s
  have "R s ((tickOn s)\<lparr>rs_budget := b\<rparr>)" for b by (rule trans [OF tick budget])
  then show "R s (snd (consumeBudget cfg s))" by (simp add: consumeBudget_def split: prod.split)
qed

lemma framed_prepareRun [framed_intros]: "framed R (prepareRun cfg ts pend)"
proof -
  have "R s (s\<lparr>rs_budget := b, rs_tick := t\<rparr>)" for s b t using trans [OF budget tick] by simp
  then show ?thesis unfolding prepareRun_def by (intro framed_intros resume state)
qed

lemma framed_startRun [framed_intros]: "framed R (startRun cfg ts pend)"
  unfolding startRun_def by (intro framed_intros)

lemma framed_stepHead [framed_intros]: "framed R (stepHead cfg ts pend)"
  unfolding stepHead_def by (intro framed_intros tick)

lemma returnOf_framed: "returnOf (finishRun cfg s) = (r, s') \<Longrightarrow> R s s'"
  using framedD [OF framed_finishRun, of s] by (auto simp: returnOf_def split: prod.splits sum.splits)

end

text \<open>With every step allowed the relation holds of the whole run.\<close>

locale whole_frame = budget_frame R cfg "\<lambda>_. True"
  for R :: "'s run_state \<Rightarrow> 's run_state \<Rightarrow> bool" and cfg :: "'s run_cfg"
begin

lemma framed_superStep: "framed R (superStep cfg ts pend)"
  unfolding superStep_def Let_def by (intro framed_intros framed_finishStep TrueI)

lemma runLoop_framed: "runLoop fuel cfg ts pend s = Some (x, s') \<Longrightarrow> R s s'"
proof (induction fuel arbitrary: ts pend s)
  case 0
  then show ?case by (auto simp: refl split: if_splits)
next
  case (Suc fuel)
  show ?case
  proof (cases "isTerminalNextTasks ts")
    case True
    then show ?thesis using Suc.prems by (simp add: refl)
  next
    case False
    obtain y t where step: "superStep cfg ts pend s = (y, t)" by fastforce
    then have R: "R s t" by (rule framedD [OF framed_superStep])
    then show ?thesis
      using Suc False step by (cases y) (auto intro: trans [OF R])
  qed
qed

lemma run_framed:
  assumes "run fuel cfg st ts pend step parent sv tick = Some (r, s')"
  shows "R (initialRunState cfg st step parent sv tick) s'"
  using assms
proof (cases rule: run_cases)
  case invalid
  then show ?thesis by (simp add: refl)
next
  case start
  then show ?thesis by (rule framedD [OF framed_startRun])
next
  case (loop ts1 s1)
  then show ?thesis using framedD [OF framed_startRun] runLoop_framed trans by metis
next
  case (finish ts1 s1 s2)
  then show ?thesis using framedD [OF framed_startRun] runLoop_framed returnOf_framed trans by metis
qed

end

end
