(* ===== verification/Run_Logic.thy ===== *)
theory Run_Logic
  imports Run_Frame
begin

text \<open>
  Interpretations of the frame of a run on three relations, and a small program logic.  \<open>quiet\<close> holds
  of everything that only publishes events and stores checkpoints, \<open>counted\<close> of everything a
  super-step does after it used the budget, and \<open>sameIds\<close> of a whole run.  A triple \<open>hoare P m Q E\<close>
  says that from a state of \<open>P\<close> the computation ends with a value and a state of \<open>Q\<close>, or
  leaves with a returned result and a state of \<open>E\<close>.
\<close>

section \<open>Relations that allow a checkpoint to be stored\<close>

locale open_store = preorder_frame R
  for R :: "'s run_state \<Rightarrow> 's run_state \<Rightarrow> bool" +
  fixes cfg :: "'s run_cfg"
  assumes clock: "R s (s\<lparr>rs_tick := t\<rparr>)"
    and event: "R s (s\<lparr>rs_result := (rs_result s)\<lparr>rr_events := es\<rparr>\<rparr>)"
    and keep: "R s (s\<lparr>rs_saver := sv\<rparr>)"
    and parent: "R s (s\<lparr>rs_parent := p\<rparr>)"
begin

lemma framed_onSaver [framed_intros]: "framed R (onSaver m)"
  by (simp add: framed_def onSaver_def keep split: prod.split)

lemma framed_commitCheckpoint:
  "framed R (commitCheckpoint cfg k ts writes pend source terminal)"
  unfolding commitCheckpoint_def by (intro framed_intros clock parent)

end

sublocale open_store < event_frame R cfg
  by unfold_locales (rule clock event framed_commitCheckpoint)+

definition quiet :: "'s run_state \<Rightarrow> 's run_state \<Rightarrow> bool" where
  "quiet s s' \<longleftrightarrow>
     rr_state (rs_result s') = rr_state (rs_result s) \<and> rr_runId (rs_result s') = rr_runId (rs_result s) \<and>
     rr_threadId (rs_result s') = rr_threadId (rs_result s) \<and> rr_ns (rs_result s') = rr_ns (rs_result s) \<and>
     rr_status (rs_result s') = rr_status (rs_result s) \<and> rr_step (rs_result s') = rr_step (rs_result s) \<and>
     rr_parentCommand (rs_result s') = rr_parentCommand (rs_result s) \<and>
     rs_resume s' = rs_resume s \<and> rs_budget s' = rs_budget s"

interpretation quiet: open_store quiet cfg for cfg
  by unfold_locales (auto simp: quiet_def)

text \<open>The step of the result stays or becomes \<open>k\<close>, and the budget is not touched.\<close>

definition counted :: "64 word \<Rightarrow> 's run_state \<Rightarrow> 's run_state \<Rightarrow> bool" where
  "counted k s s' \<longleftrightarrow>
     rs_budget s' = rs_budget s \<and> rr_step (rs_result s') \<in> {rr_step (rs_result s), k}"

interpretation counted_store: open_store "counted k" cfg for k cfg
  by unfold_locales (auto simp: counted_def)

interpretation counted: run_frame "counted k" cfg "(=) k" for k cfg
  by unfold_locales (auto simp: counted_def)

text \<open>The same with the budget used.\<close>

definition stepped :: "64 word \<Rightarrow> 's run_state \<Rightarrow> 's run_state \<Rightarrow> bool" where
  "stepped k s s' \<longleftrightarrow> rr_step (rs_result s') \<in> {rr_step (rs_result s), k}"

interpretation stepped_store: open_store "stepped k" cfg for k cfg
  by unfold_locales (auto simp: stepped_def)

interpretation stepped: budget_frame "stepped k" cfg "(=) k" for k cfg
  by unfold_locales (auto simp: stepped_def)

text \<open>The ids and the namespace of a run stay the same.\<close>

definition sameIds :: "'s run_state \<Rightarrow> 's run_state \<Rightarrow> bool" where
  "sameIds s s' \<longleftrightarrow>
     rr_runId (rs_result s') = rr_runId (rs_result s) \<and>
     rr_threadId (rs_result s') = rr_threadId (rs_result s) \<and> rr_ns (rs_result s') = rr_ns (rs_result s)"

interpretation sameIds_store: open_store sameIds cfg for cfg
  by unfold_locales (auto simp: sameIds_def)

interpretation sameIds: whole_frame sameIds cfg for cfg
  by unfold_locales (auto simp: sameIds_def)

lemma initialRunState_simps:
  "rr_state (rs_result (initialRunState cfg st step parent sv tick)) = st"
  "rr_step (rs_result (initialRunState cfg st step parent sv tick)) = step"
  "rr_status (rs_result (initialRunState cfg st step parent sv tick)) = Completed"
  "rr_ns (rs_result (initialRunState cfg st step parent sv tick)) = opt_ns (rc_options cfg)"
  "rs_parent (initialRunState cfg st step parent sv tick) = parent"
  "rs_saver (initialRunState cfg st step parent sv tick) = sv"
  by (simp_all add: initialRunState_def Let_def)

section \<open>Weakest preconditions\<close>

text \<open>
  \<open>wp m Q E s\<close>: from the state \<open>s\<close> the computation ends with a value and a state of \<open>Q\<close>, or with
  an error and a state of \<open>E\<close>.
\<close>

definition wp ::
  "('s \<Rightarrow> ('e + 'a) \<times> 's) \<Rightarrow> ('a \<Rightarrow> 's \<Rightarrow> bool) \<Rightarrow> ('e \<Rightarrow> 's \<Rightarrow> bool) \<Rightarrow> 's \<Rightarrow> bool" where
  "wp m Q E s \<longleftrightarrow> (case m s of (Inl e, s') \<Rightarrow> E e s' | (Inr x, s') \<Rightarrow> Q x s')"

named_theorems wp_simps \<open>weakest preconditions of the combinators\<close>

lemma wpD_Inr: "wp m Q E s \<Longrightarrow> m s = (Inr x, s') \<Longrightarrow> Q x s'"
  by (simp add: wp_def)

lemma wpD_Inl: "wp m Q E s \<Longrightarrow> m s = (Inl e, s') \<Longrightarrow> E e s'"
  by (simp add: wp_def)

lemma wp_weaken:
  "wp m Q E s \<Longrightarrow> (\<And>x s'. Q x s' \<Longrightarrow> Q' x s') \<Longrightarrow> (\<And>e s'. E e s' \<Longrightarrow> E' e s') \<Longrightarrow> wp m Q' E' s"
  by (auto simp: wp_def split: prod.splits sum.splits)

lemma wp_sret [wp_simps]: "wp (sret x) Q E s = Q x s"
  by (simp add: wp_def sret_def)

lemma wp_sgets [wp_simps]: "wp (sgets f) Q E s = Q (f s) s"
  by (simp add: wp_def sgets_def)

lemma wp_smodify [wp_simps]: "wp (smodify f) Q E s = Q () (f s)"
  by (simp add: wp_def smodify_def)

lemma wp_slift [wp_simps]: "wp (slift r) Q E s = (case r of Inl e \<Rightarrow> E e s | Inr x \<Rightarrow> Q x s)"
  by (simp add: wp_def slift_def split: sum.split)

lemma wp_sbind [wp_simps]: "wp (sbind m f) Q E s = wp m (\<lambda>x. wp (f x) Q E) E s"
  by (simp add: wp_def sbind_def split: prod.split sum.split)

lemma wp_scatch [wp_simps]: "wp (scatch m h) Q E s = wp m Q (\<lambda>e. wp (h e) Q E) s"
  by (simp add: wp_def scatch_def split: prod.split sum.split)

lemma wp_signore [wp_simps]: "wp (signore m) Q E s = wp m (\<lambda>_. Q ()) (\<lambda>_. Q ()) s"
  by (simp add: wp_def signore_def split: prod.split sum.split)

lemma wp_leave [wp_simps]: "wp (leave m) Q E s = wp m (\<lambda>r. E (Inr r)) (\<lambda>e. E (Inl e)) s"
  by (simp add: wp_def leave_def split: prod.split sum.split)

lemma wp_leaveStatus [wp_simps]: "wp (leaveStatus st) Q E s = E (Inl st) s"
  by (simp add: leaveStatus_def wp_simps)

lemma wp_if [wp_simps]: "wp (if b then m else n) Q E s = (if b then wp m Q E s else wp n Q E s)"
  by simp

lemma wp_case_option [wp_simps]:
  "wp (case v of None \<Rightarrow> m | Some x \<Rightarrow> f x) Q E s =
   (case v of None \<Rightarrow> wp m Q E s | Some x \<Rightarrow> wp (f x) Q E s)"
  by (simp split: option.split)

lemma wp_case_sum [wp_simps]:
  "wp (case v of Inl x \<Rightarrow> f x | Inr x \<Rightarrow> g x) Q E s =
   (case v of Inl x \<Rightarrow> wp (f x) Q E s | Inr x \<Rightarrow> wp (g x) Q E s)"
  by (simp split: sum.split)

lemma wp_case_list [wp_simps]:
  "wp (case v of [] \<Rightarrow> m | x # xs \<Rightarrow> f x xs) Q E s =
   (case v of [] \<Rightarrow> wp m Q E s | x # xs \<Rightarrow> wp (f x xs) Q E s)"
  by (simp split: list.split)

text \<open>A loop with an invariant.\<close>

lemma wp_sfold:
  assumes "I acc s" and "\<And>x acc s. x \<in> set xs \<Longrightarrow> I acc s \<Longrightarrow> wp (f x acc) I E s"
    and "\<And>acc s. I acc s \<Longrightarrow> Q acc s"
  shows "wp (sfold f xs acc) Q E s"
  using assms(1,2)
proof (induction xs arbitrary: acc s)
  case Nil
  then show ?case by (simp add: wp_simps assms(3))
next
  case (Cons x xs)
  have "wp (f x acc) I E s" using Cons.prems by simp
  then show ?case
    by (simp add: wp_simps) (erule wp_weaken, auto intro!: Cons.IH Cons.prems(2))
qed

text \<open>A computation that stays in a relation.\<close>

lemma wp_framed:
  assumes "framed R m" and "\<And>x s'. R s s' \<Longrightarrow> Q x s'" and "\<And>e s'. R s s' \<Longrightarrow> E e s'"
  shows "wp m Q E s"
  using assms framedD [OF assms(1)] by (auto simp: wp_def split: prod.split sum.split)

lemmas wp_emit = wp_framed [OF quiet.framed_emit]
lemmas wp_putCheckpoint = wp_framed [OF quiet.framed_putCheckpoint]
lemmas wp_publishInterrupt = wp_framed [OF quiet.framed_publishInterrupt]
lemmas wp_emitCompleted = wp_framed [OF quiet.framed_emitCompleted]
lemmas wp_reportFailures = wp_framed [OF quiet.framed_reportFailures]
lemmas wp_executionWrite = wp_framed [OF quiet.framed_executionWrite]
lemmas wp_routeFromWrite = wp_framed [OF quiet.framed_routeFromWrite]

lemmas quiet_trans = quiet.trans

lemma wp_storeOrLeave:
  assumes "\<And>s'. quiet s s' \<Longrightarrow> Q () s'" and "\<And>st s'. quiet s s' \<Longrightarrow> E (Inl st) s'"
  shows "wp (storeOrLeave cfg k ts writes source terminal node) Q E s"
  unfolding storeOrLeave_def wp_simps
  by (rule wp_putCheckpoint) (auto intro!: assms wp_emit elim: quiet_trans)

end
