(* ===== verification/Run_Outcome.thy ===== *)
theory Run_Outcome
  imports Run_Logic
begin

text \<open>
  What the result of a run says about how it ended.  The locale \<open>run_ends\<close> carries an invariant \<open>P\<close>
  of the states of a run through every part of it to what holds when it leaves, \<open>E\<close>; the locale
  \<open>run_finishes\<close> adds the three ways a super-step ends without a failure and concludes for the
  whole run.
\<close>

section \<open>Failure\<close>

lemma runStatusFromStatus_fails:
  "runStatusFromStatus st \<in> {RunFailedStatus, RunCancelled, MaxStepsExceeded}"
  by (simp add: runStatusFromStatus_def)

text \<open>The error entry is added to the state as it is when the failure is reported.\<close>

lemma wp_failRun:
  assumes "\<And>s'. withRunErrorMetadata (rr_state (rs_result s)) st node k (runStatusFromStatus st) =
        Inr (rr_state (rs_result s')) \<Longrightarrow>
      rr_status (rs_result s') = runStatusFromStatus st \<Longrightarrow>
      rr_step (rs_result s') = rr_step (rs_result s) \<Longrightarrow> Q (rs_result s') s'"
    and "\<And>e s'. E e s'"
  shows "wp (failRun cfg st k node ts pend) Q E s"
  unfolding failRun_def Let_def wp_simps
  by (auto simp: wp_simps quiet_def split: sum.split intro!: assms wp_putCheckpoint wp_emit)

lemma wp_True: "wp m (\<lambda>_ _. True) (\<lambda>_ _. True) s"
  by (auto simp: wp_def split: prod.split sum.split)

lemma finishRun_completed: "finishRun cfg s = (Inr (), s') \<Longrightarrow> rr_status (rs_result s') = Completed"
proof (erule wpD_Inr [rotated])
  show "wp (finishRun cfg) (\<lambda>_ s'. rr_status (rs_result s') = Completed) (\<lambda>_ _. True) s"
    unfolding finishRun_def wp_simps
    by (auto simp: wp_simps quiet_def wp_True split: sum.split intro!: wp_emit)
qed

section \<open>Runs without a super-step\<close>

text \<open>
  A run whose tasks are terminal once it has begun enters no super-step: it returns at its first
  step, completed, and neither merges, stores nor checks anything more.
\<close>

definition startsTerminal ::
  "'s run_cfg \<Rightarrow> CheckpointTask list \<Rightarrow> CheckpointWrite list \<Rightarrow> 's run_state \<Rightarrow> bool" where
  "startsTerminal cfg ts pend s =
     (case startRun cfg ts pend s of (Inr next', _) \<Rightarrow> isTerminalNextTasks next' | _ \<Rightarrow> False)"

definition endsAtStart ::
  "'s run_cfg \<Rightarrow> CheckpointTask list \<Rightarrow> CheckpointWrite list \<Rightarrow> 's run_state \<Rightarrow> 64 word \<Rightarrow> RunResult \<Rightarrow> bool" where
  "endsAtStart cfg ts pend s step res \<longleftrightarrow>
     startsTerminal cfg ts pend s \<and> rr_step res = step \<and> rr_status res = Completed"

section \<open>Invariants up to the end\<close>

named_theorems ends_intros \<open>parts of a run that keep an invariant and leave properly\<close>

locale run_ends =
  fixes P :: "'s run_state \<Rightarrow> bool" and E :: "RunResult result \<Rightarrow> 's run_state \<Rightarrow> bool"
    and cfg :: "'s run_cfg"
  assumes keepTick: "P s \<Longrightarrow> P (s\<lparr>rs_tick := t\<rparr>)"
    and keepEvents: "P s \<Longrightarrow> P (s\<lparr>rs_result := (rs_result s)\<lparr>rr_events := es\<rparr>\<rparr>)"
    and keepResume: "P s \<Longrightarrow> P (s\<lparr>rs_resume := v\<rparr>)"
    and keepBudget: "P s \<Longrightarrow> P (s\<lparr>rs_budget := b\<rparr>)"
    and keepState: "P s \<Longrightarrow> P (s\<lparr>rs_result := (rs_result s)\<lparr>rr_state := j\<rparr>\<rparr>)"
    and keepStatus: "P s \<Longrightarrow> P (s\<lparr>rs_result := (rs_result s)\<lparr>rr_status := q\<rparr>\<rparr>)"
    and keepCommand: "P s \<Longrightarrow> P (s\<lparr>rs_result := (rs_result s)\<lparr>rr_parentCommand := c\<rparr>\<rparr>)"
    and keepStep: "P s \<Longrightarrow> P (s\<lparr>rs_result := (rs_result s)\<lparr>rr_step := k\<rparr>\<rparr>)"
    and keepCommit: "P s \<Longrightarrow> P (snd (commitCheckpoint cfg k ts writes pend source terminal s))"
    and fails: "P s \<Longrightarrow> wp (failRun cfg st k node ts pend) (\<lambda>r. E (Inr r)) (\<lambda>e. E (Inl e)) s"
    and status: "P s \<Longrightarrow> E (Inl st) s"
begin

definition ends :: "('s, 'a) run_body \<Rightarrow> bool" where
  "ends m \<longleftrightarrow> (\<forall>s. P s \<longrightarrow> wp m (\<lambda>_. P) E s)"

definition keeps :: "('s run_state \<Rightarrow> ('e + 'a) \<times> 's run_state) \<Rightarrow> bool" where
  "keeps m \<longleftrightarrow> framed (\<lambda>s s'. P s \<longrightarrow> P s') m"

end

sublocale run_ends < invariant: whole_frame "\<lambda>s s'. P s \<longrightarrow> P s'" cfg
  by unfold_locales
    (auto intro: keepTick keepEvents keepResume keepBudget keepState keepStatus keepCommand keepStep
      simp: framed_def keepCommit)

context run_ends
begin

lemma endsD: "ends m \<Longrightarrow> P s \<Longrightarrow> wp m (\<lambda>_. P) E s"
  by (simp add: ends_def)

lemma ends_sret [ends_intros]: "ends (sret x)"
  by (simp add: ends_def wp_simps)

lemma ends_sgets [ends_intros]: "ends (sgets f)"
  by (simp add: ends_def wp_simps)

lemma ends_smodify [ends_intros]: "(\<And>s. P s \<Longrightarrow> P (f s)) \<Longrightarrow> ends (smodify f)"
  by (simp add: ends_def wp_simps)

lemma ends_sbind [ends_intros]: "ends m \<Longrightarrow> (\<And>x. ends (f x)) \<Longrightarrow> ends (sbind m f)"
  by (auto simp: ends_def wp_simps intro: wp_weaken)

lemma ends_if [ends_intros]:
  "(b \<Longrightarrow> ends m) \<Longrightarrow> (\<not> b \<Longrightarrow> ends n) \<Longrightarrow> ends (if b then m else n)"
  by simp

lemma ends_case_option [ends_intros]:
  "ends m \<Longrightarrow> (\<And>x. ends (f x)) \<Longrightarrow> ends (case v of None \<Rightarrow> m | Some x \<Rightarrow> f x)"
  by (simp split: option.split)

lemma ends_case_sum [ends_intros]:
  "(\<And>x. ends (f x)) \<Longrightarrow> (\<And>x. ends (g x)) \<Longrightarrow> ends (case v of Inl x \<Rightarrow> f x | Inr x \<Rightarrow> g x)"
  by (simp split: sum.split)

lemma ends_case_list [ends_intros]:
  "ends m \<Longrightarrow> (\<And>x xs. ends (f x xs)) \<Longrightarrow> ends (case v of [] \<Rightarrow> m | x # xs \<Rightarrow> f x xs)"
  by (simp split: list.split)

lemma ends_sfold [ends_intros]: "(\<And>x acc. ends (f x acc)) \<Longrightarrow> ends (sfold f xs acc)"
  by (induction xs arbitrary: acc) (auto intro: ends_intros)

lemma wp_keeps:
  "keeps m \<Longrightarrow> P s \<Longrightarrow> (\<And>x s'. P s' \<Longrightarrow> Q x s') \<Longrightarrow> (\<And>e s'. P s' \<Longrightarrow> E' e s') \<Longrightarrow> wp m Q E' s"
  unfolding keeps_def by (erule wp_framed) auto

lemma ends_scatch [ends_intros]: "keeps m \<Longrightarrow> (\<And>e. ends (h e)) \<Longrightarrow> ends (scatch m h)"
  unfolding ends_def wp_simps by (auto intro: wp_keeps)

lemma ends_signore [ends_intros]: "keeps m \<Longrightarrow> ends (signore m)"
  unfolding ends_def wp_simps by (auto intro: wp_keeps)

lemma ends_failRun [ends_intros]: "ends (leave (failRun cfg st k node ts pend))"
  by (simp add: ends_def wp_simps fails)

lemma ends_failHere [ends_intros]: "ends (failHere cfg st node ts pend)"
  unfolding failHere_def by (intro ends_intros)

lemma ends_leaveStatus [ends_intros]: "ends (leaveStatus st)"
  by (simp add: ends_def wp_simps status)

lemma keeps_parts [ends_intros]:
  "keeps (emit cfg ty k node payload msg)"
  "keeps (putCheckpoint cfg k ts writes pend source terminal req)"
  "keeps (consumeBudget cfg)"
  "keeps (slift r)"
  "keeps (emitCompleted cfg k x)"
  "keeps (executionWrite cfg x)"
  "keeps (applyWrite cfg w k)"
  "keeps (routeFromWrite cfg w routed k)"
  "keeps (publishInterrupt cfg k x)"
  unfolding keeps_def by (intro framed_intros)+

lemma ends_storeOrLeave [ends_intros]: "ends (storeOrLeave cfg k ts writes source terminal node)"
  unfolding storeOrLeave_def by (intro ends_intros)

lemma ends_beginRun [ends_intros]: "ends (beginRun cfg ts pend)"
  unfolding beginRun_def by (intro ends_intros)

lemma ends_resumeInterrupt [ends_intros]: "ends (resumeInterrupt cfg value n ts pend md u)"
  unfolding resumeInterrupt_def by (intro ends_intros keepResume)

lemma ends_applyResumeCommand [ends_intros]: "ends (applyResumeCommand cfg c ts pend)"
  unfolding applyResumeCommand_def by (intro ends_intros keepResume keepState)

lemma ends_prepareRun [ends_intros]: "ends (prepareRun cfg ts pend)"
proof -
  have "P s \<Longrightarrow> P (s\<lparr>rs_budget := b, rs_tick := t\<rparr>)" for s b t
    using keepTick [OF keepBudget] by simp
  then show ?thesis unfolding prepareRun_def by (intro ends_intros keepResume keepState)
qed

lemma ends_startRun [ends_intros]: "ends (startRun cfg ts pend)"
  unfolding startRun_def by (intro ends_intros)

lemma ends_stepHead [ends_intros]: "ends (stepHead cfg ts pend)"
  unfolding stepHead_def by (intro ends_intros keepTick)

lemma ends_reportFailures [ends_intros]: "ends (reportFailures cfg k xs cl)"
  unfolding reportFailures_def Let_def by (intro ends_intros)

lemma ends_failedStep [ends_intros]: "ends (failedStep cfg sx cl pend)"
  unfolding failedStep_def pendingAfterFailure_def Let_def by (intro ends_intros)

lemma ends_emitAllCompleted [ends_intros]: "ends (emitAllCompleted cfg sx cl pend)"
  unfolding emitAllCompleted_def by (intro ends_intros)

lemma ends_collectWrites [ends_intros]: "ends (collectWrites cfg k persist pend writes xs)"
  by (induction xs arbitrary: writes) (auto intro!: ends_intros)

lemma ends_applyWrites [ends_intros]: "ends (applyWrites cfg sx pend writes)"
  unfolding applyWrites_def by (intro ends_intros)

lemma ends_routeWrites [ends_intros]: "ends (routeWrites cfg sx writes)"
  unfolding routeWrites_def by (intro ends_intros)

lemma ends_finishRun [ends_intros]: "ends (finishRun cfg)"
  unfolding finishRun_def by (intro ends_intros keepStatus)

lemma wp_failedStep: "P s \<Longrightarrow> wp (failedStep cfg sx cl pend) Q E s"
proof -
  have "ends (sfold (pendingAfterFailure cfg k fs) xs acc)" for k fs xs acc
    unfolding pendingAfterFailure_def by (intro ends_intros)
  then show "P s \<Longrightarrow> ?thesis"
    by (auto simp: failedStep_def Let_def wp_simps fails intro: wp_weaken [OF endsD])
qed

end

section \<open>A whole run\<close>

text \<open>\<open>Q\<close> is what holds after a super-step, for the tasks it leaves.\<close>

locale run_finishes = run_ends P E cfg
  for P :: "'s run_state \<Rightarrow> bool" and E :: "RunResult result \<Rightarrow> 's run_state \<Rightarrow> bool"
    and cfg :: "'s run_cfg" +
  fixes Q :: "CheckpointTask list \<Rightarrow> 's run_state \<Rightarrow> bool"
  assumes finishesParent: "P s \<Longrightarrow> wp (finishParentCommand cfg sx writes x) Q E s"
    and finishesPause: "P s \<Longrightarrow> cl_interrupts cl \<noteq> [] \<Longrightarrow> wp (pauseRun cfg sx cl writes) Q E s"
    and finishesStep: "P s \<Longrightarrow> rr_step (rs_result s) = sx_step sx \<Longrightarrow> wp (closeStep cfg sx writes ts) Q E s"
    and Q_keeps: "Q ts s \<Longrightarrow> P s"
    and Q_completed: "Q ts s \<Longrightarrow> isTerminalNextTasks ts \<Longrightarrow> rr_status (rs_result s) = Completed"
begin

lemma wp_advance: "P s \<Longrightarrow> wp (advance cfg sx writes) Q E s"
  unfolding advance_def wp_simps
  by (rule wp_weaken [OF endsD [OF ends_routeWrites]]) (auto intro: finishesStep keepStep)

lemma wp_finishStep: "P s \<Longrightarrow> wp (finishStep cfg sx cl pend) Q E s"
  unfolding finishStep_def Let_def wp_simps
  by (rule wp_weaken [OF endsD [OF ends_emitAllCompleted]], assumption)
    (auto intro!: wp_weaken [OF endsD [OF ends_collectWrites]] wp_weaken [OF endsD [OF ends_applyWrites]]
      finishesParent finishesPause wp_advance split: option.split)

lemma wp_superStep: "P s \<Longrightarrow> wp (superStep cfg ts pend) Q E s"
  unfolding superStep_def Let_def wp_simps
  by (rule wp_weaken [OF endsD [OF ends_stepHead]], assumption)
    (auto intro!: wp_weaken [OF endsD [OF ends_reportFailures]] wp_failedStep wp_finishStep)

lemma runLoop_ends:
  assumes "runLoop fuel cfg ts pend s = Some (x, s')" and "P s"
  shows "(case x of Inl r \<Rightarrow> E r s'
     | Inr _ \<Rightarrow> P s' \<and> (isTerminalNextTasks ts \<and> s' = s \<or>
                 (\<exists>ts'. isTerminalNextTasks ts' \<and> Q ts' s')))"
  using assms
proof (induction fuel arbitrary: ts pend s)
  case 0
  then show ?case by (auto split: if_splits)
next
  case (Suc fuel)
  show ?case
  proof (cases "isTerminalNextTasks ts")
    case True
    then show ?thesis using Suc.prems by auto
  next
    case False
    obtain y t where step: "superStep cfg ts pend s = (y, t)" by fastforce
    show ?thesis
    proof (cases y)
      case (Inl r)
      then show ?thesis
        using Suc.prems False step wpD_Inl [OF wp_superStep [OF Suc.prems(2)]] by fastforce
    next
      case (Inr ts')
      with step have "Q ts' t" using wpD_Inr [OF wp_superStep [OF Suc.prems(2)]] by fastforce
      moreover have "runLoop fuel cfg ts' [] t = Some (x, s')"
        using Suc.prems False step Inr by simp
      ultimately show ?thesis
        using Suc.IH [of ts' "[]" t] Q_keeps by (auto split: sum.split)
    qed
  qed
qed

text \<open>
  A run ends with \<open>E\<close>, or completed with \<open>Q\<close> after a super-step, or without any super-step
  because it started with terminal tasks.
\<close>

lemma run_ends_with:
  assumes "run fuel cfg st ts pend step parent sv tick = Some (r, s')"
    and P: "P (initialRunState cfg st step parent sv tick)"
  shows "E r s' \<or> r = Inr (rs_result s') \<and>
    (endsAtStart cfg ts pend (initialRunState cfg st step parent sv tick) step (rs_result s') \<or>
     (\<exists>ts'. isTerminalNextTasks ts' \<and> Q ts' s'))"
  using assms(1)
proof (cases rule: run_cases)
  case invalid
  then show ?thesis using status [OF P] by simp
next
  case start
  then show ?thesis using wpD_Inl [OF endsD [OF ends_startRun P]] by blast
next
  case (loop ts1 s1)
  then have "P s1" using wpD_Inr [OF endsD [OF ends_startRun P]] by blast
  with loop show ?thesis using runLoop_ends by fastforce
next
  case (finish ts1 s1 s2)
  then have s1: "P s1" "rr_step (rs_result s1) = step"
    using wpD_Inr [OF endsD [OF ends_startRun P] finish(1)]
      framedD [OF stepped.framed_startRun finish(1), of step]
    by (auto simp: stepped_def initialRunState_simps)
  from runLoop_ends [OF finish(2) s1(1)]
  consider "isTerminalNextTasks ts1" "s2 = s1" "P s2" | ts' where "isTerminalNextTasks ts'" "Q ts' s2" by auto
  then show ?thesis
  proof cases
    case 1
    then have "rr_step (rs_result s') = step"
      using stepped.returnOf_framed [OF finish(3), of step] s1 by (auto simp: stepped_def)
    then show ?thesis
      using finish(1,3) wpD_Inl [OF endsD [OF ends_finishRun]] finishRun_completed 1
      by (auto simp: endsAtStart_def startsTerminal_def returnOf_def split: prod.splits sum.splits)
  next
    case 2
    then show ?thesis
      using finish(3) Q_completed [OF 2(2,1)]
      by (auto simp: returnOf_def finishRun_def sbind_def sgets_def sret_def)
  qed
qed

end

end
