(* ===== verification/Run_Props.thy ===== *)
theory Run_Props
  imports Run_Outcome
begin

text \<open>
  Properties of a run on its own: how its status and its state agree, that it returns within
  the maximal number of steps, and what a failed super-step leaves.
\<close>

section \<open>Status and state\<close>

definition outputOk :: "'s run_cfg \<Rightarrow> json \<Rightarrow> bool" where
  "outputOk cfg st \<longleftrightarrow>
     validateStateSchema st (outputSchema (sg_schemas (rc_graph cfg))) ''output'' = Inr ()"

definition agrees :: "'s run_cfg \<Rightarrow> RunResult \<Rightarrow> bool" where
  "agrees cfg r \<longleftrightarrow>
     (case rr_status r of
        Completed \<Rightarrow> outputOk cfg (rr_state r)
      | Paused \<Rightarrow> jhas (rr_state r) kInterruptStateKey
      | q \<Rightarrow> jhas (rr_state r) kRunErrorStateKey \<and>
             jat (jat (rr_state r) kRunErrorStateKey) ''status'' = JStr (runErrorStatusName q))"

definition reported :: "'s run_cfg \<Rightarrow> RunResult result \<Rightarrow> 's run_state \<Rightarrow> bool" where
  "reported cfg r s \<longleftrightarrow> (\<forall>res. r = Inr res \<longrightarrow> res = rs_result s \<and> agrees cfg res)"

definition completed :: "'s run_cfg \<Rightarrow> CheckpointTask list \<Rightarrow> 's run_state \<Rightarrow> bool" where
  "completed cfg ts s \<longleftrightarrow>
     (isTerminalNextTasks ts \<longrightarrow> rr_status (rs_result s) = Completed \<and> outputOk cfg (rr_state (rs_result s)))"

lemma jget_jput_same: "is_object (jput v k x) \<Longrightarrow> jget (jput v k x) k = Some x"
  by (cases v) (auto simp: jget_def)

lemma withRunErrorMetadata_entry:
  assumes "withRunErrorMetadata st status node k q = Inr st'"
  shows "jhas st' kRunErrorStateKey" "jat (jat st' kRunErrorStateKey) ''status'' = JStr (runErrorStatusName q)"
    "jat (jat st' kRunErrorStateKey) ''code'' = JStr (statusCodeName (st_code status))"
    "j \<noteq> kRunErrorStateKey \<Longrightarrow> jget st' j = jget st j"
proof -
  let ?e = "obj [(''code'', JStr (statusCodeName (st_code status))),
       (''message'', JStr (statusToString status)), (''node'', JStr node),
       (''step'', JUint k), (''status'', JStr (runErrorStatusName q))]"
  have st': "st' = jput st kRunErrorStateKey ?e" "state_ok st'"
    using assms by (auto simp: withRunErrorMetadata_def State_fromJsonValue_Inr)
  then have e: "jget st' kRunErrorStateKey = Some ?e"
    by (metis jget_jput_same state_ok_object)
  show "jhas st' kRunErrorStateKey" using e by (simp add: jhas_def)
  show "jat (jat st' kRunErrorStateKey) ''status'' = JStr (runErrorStatusName q)"
    "jat (jat st' kRunErrorStateKey) ''code'' = JStr (statusCodeName (st_code status))"
    using e by (simp_all add: jat_def jget_obj)
  show "j \<noteq> kRunErrorStateKey \<Longrightarrow> jget st' j = jget st j"
    using st' state_ok_object [OF st'(2)] by (cases st) (auto simp: jget_def)
qed

lemma withInterruptMetadata_has:
  assumes "withInterruptMetadata st ps k = Inr st'" and "ps \<noteq> []"
  shows "jhas st' kInterruptStateKey"
  using assms state_ok_object
  by (auto simp: withInterruptMetadata_def State_fromJsonValue_Inr jhas_def jget_jput_same)

lemma agrees_failed:
  assumes "withRunErrorMetadata st status node k (runStatusFromStatus status) = Inr (rr_state r)"
    and "rr_status r = runStatusFromStatus status"
  shows "agrees cfg r"
  using withRunErrorMetadata_entry(1,2) [OF assms(1)] assms(2) runStatusFromStatus_fails [of status]
  by (auto simp: agrees_def)

lemma wp_fail_reported:
  "wp (failRun cfg st k node ts pend) (\<lambda>r. reported cfg (Inr r)) (\<lambda>e. reported cfg (Inl e)) s"
  by (rule wp_failRun) (auto simp: reported_def intro: agrees_failed)

lemma reported_Inl: "reported cfg (Inl st) s"
  by (simp add: reported_def)

interpretation outcome_ends: run_ends "\<lambda>_. True" "reported cfg" cfg for cfg
  by unfold_locales (auto intro: wp_fail_reported reported_Inl)

lemma reported_completed:
  "rr_status (rs_result s) = Completed \<Longrightarrow> outputOk cfg (rr_state (rs_result s)) \<Longrightarrow>
   reported cfg (Inr (rs_result s)) s"
  by (simp add: reported_def agrees_def)

lemma wp_parent_reported: "wp (finishParentCommand cfg sx writes x) Q (reported cfg) s"
  unfolding finishParentCommand_def Let_def wp_simps
  by (auto simp: wp_simps split: sum.split
      intro!: wp_fail_reported reported_Inl wp_emit wp_storeOrLeave reported_completed)
    (auto simp: quiet_def outputOk_def)

lemma wp_pause_reported:
  assumes "cl_interrupts cl \<noteq> []"
  shows "wp (pauseRun cfg sx cl writes) Q (reported cfg) s"
proof -
  let ?paused = "map (\<lambda>i. cl_execs cl ! i) (cl_interrupts cl)"
  have publish: "wp (sfold (\<lambda>x _. scatch (publishInterrupt cfg k x)
      (\<lambda>e. leave (failRun cfg e k (ct_nodeId (ne_task x)) ts []))) xs ())
      (\<lambda>_ s. Q' s) (reported cfg) s"
    if "jhas (rr_state (rs_result s)) kInterruptStateKey"
      and "\<And>s. jhas (rr_state (rs_result s)) kInterruptStateKey \<Longrightarrow> Q' s"
    for k ts xs and s :: "'a run_state" and Q'
    by (rule wp_sfold [where I = "\<lambda>_ s. jhas (rr_state (rs_result s)) kInterruptStateKey"])
      (auto simp: that wp_simps quiet_def intro!: wp_publishInterrupt wp_fail_reported)
  show ?thesis
    unfolding pauseRun_def Let_def wp_simps
    using assms
    by (intro wp_weaken [OF outcome_ends.endsD [OF outcome_ends.ends_routeWrites TrueI]])
      (auto simp: wp_simps quiet_def reported_def agrees_def split: sum.split
        intro!: wp_fail_reported reported_Inl wp_storeOrLeave publish
        dest!: withInterruptMetadata_has)
qed

lemma wp_close_completed: "wp (closeStep cfg sx writes ts) (completed cfg) (reported cfg) s"
  unfolding closeStep_def Let_def wp_simps
  by (auto simp: wp_simps split: sum.split
      intro!: wp_fail_reported reported_Inl wp_emit wp_storeOrLeave)
    (auto simp: quiet_def outputOk_def completed_def)

interpretation outcome: run_finishes "\<lambda>_. True" "reported cfg" cfg "completed cfg" for cfg
  by unfold_locales
    (auto simp: completed_def intro: wp_parent_reported wp_pause_reported wp_close_completed)

text \<open>The result agrees with the status unless the run started with terminal tasks.\<close>

lemma run_agrees:
  assumes "run fuel cfg st ts pend step parent sv tick = Some (Inr res, s')"
  shows "res = rs_result s' \<and> (agrees cfg res \<or>
    endsAtStart cfg ts pend (initialRunState cfg st step parent sv tick) step res)"
  using outcome.run_ends_with [OF assms TrueI]
  by (auto simp: reported_def completed_def agrees_def)

section \<open>Steps\<close>

text \<open>The head of a super-step uses one step of the budget and stays at the step of the result.\<close>

definition stepUsed :: "'s run_state \<Rightarrow> 's run_state \<Rightarrow> bool" where
  "stepUsed s s' \<longleftrightarrow>
     eb_limits (rs_budget s') = eb_limits (rs_budget s) \<and>
     unat (eb_steps (rs_budget s')) = Suc (unat (eb_steps (rs_budget s))) \<and>
     within (rl_maxSteps (eb_limits (rs_budget s))) (eb_steps (rs_budget s'))"

lemma wp_consumeBudget:
  assumes "\<And>s'. rs_result s' = rs_result s \<Longrightarrow> stepUsed s s' \<Longrightarrow> Q () s'"
    and "\<And>e s'. rs_result s' = rs_result s \<Longrightarrow> E e s'"
  shows "wp (consumeBudget cfg) Q E s"
proof (cases "consumeStep 1 (rv_clock (rc_env cfg) (rs_tick s)) (rs_budget s)")
  case (Pair st b)
  then show ?thesis
    using assms(1) [of "(tickOn s)\<lparr>rs_budget := b\<rparr>"] assms(2) [of "(tickOn s)\<lparr>rs_budget := b\<rparr>"]
      consumeStep_ok [OF Pair]
    by (auto simp: wp_def consumeBudget_def statusResult_def stepUsed_def)
qed

lemma wp_failRun_step:
  "wp (failRun cfg st k node ts pend) (\<lambda>_ s'. rr_step (rs_result s') = rr_step (rs_result s))
     (\<lambda>_ s'. rr_step (rs_result s') = rr_step (rs_result s)) s"
  using framedD [OF counted.framed_failRun [of "rr_step (rs_result s)"], of cfg st k node ts pend s]
  by (auto simp: wp_def counted_def split: prod.split sum.split)

lemma wp_stepHead:
  "wp (stepHead cfg ts pend)
     (\<lambda>sx s'. sx = stepContext s ts \<and> rr_step (rs_result s') = rr_step (rs_result s) \<and>
        rr_state (rs_result s') = rr_state (rs_result s) \<and> stepUsed s s')
     (\<lambda>_ s'. rr_step (rs_result s') = rr_step (rs_result s)) s"
proof -
  let ?I = "\<lambda>_ s'. rr_step (rs_result s') = rr_step (rs_result s) \<and>
    rr_state (rs_result s') = rr_state (rs_result s) \<and> stepUsed s s'"
  have fail: "wp (failRun cfg st k node as pend) (\<lambda>_ s'. rr_step (rs_result s') = n)
     (\<lambda>_ s'. rr_step (rs_result s') = n) t" if "rr_step (rs_result t) = n" for st k node as t n
    using wp_failRun_step [of cfg st k node as pend t] that by simp
  have announce: "wp (sfold (\<lambda>task _. scatch (emit cfg NodeStarted k (ct_nodeId task) (p task) [])
        (\<lambda>e. leave (failRun cfg e k (ct_nodeId task) as pend))) xs ()) Q
        (\<lambda>_ s'. rr_step (rs_result s') = rr_step (rs_result s)) t"
    if "?I () t" "\<And>u. ?I () u \<Longrightarrow> Q () u" for k p as xs Q t
    by (rule wp_sfold [where I = ?I])
      (use that in \<open>auto simp: wp_simps quiet_def stepUsed_def intro!: wp_emit fail\<close>)
  show ?thesis
    unfolding stepHead_def wp_simps
    by (auto simp: wp_simps stepUsed_def statusResult_def intro!: wp_consumeBudget announce fail)
qed

lemma leave_not_Inr [simp]: "leave m s \<noteq> (Inr x, s')"
  by (simp add: leave_def split: prod.split)

lemma finishParentCommand_leaves: "finishParentCommand cfg sx writes x s \<noteq> (Inr y, s')"
  by (auto simp: finishParentCommand_def Let_def result_simps)

lemma pauseRun_leaves: "pauseRun cfg sx cl writes s \<noteq> (Inr y, s')"
  by (auto simp: pauseRun_def Let_def result_simps)

lemma failedStep_leaves: "failedStep cfg sx cl pend s \<noteq> (Inr y, s')"
  by (auto simp: failedStep_def Let_def result_simps)

lemma advance_step:
  assumes "advance cfg sx writes s = (Inr y, s')"
  shows "rr_step (rs_result s') = sx_step sx"
proof -
  obtain ts t where "closeStep cfg sx writes ts
      (t\<lparr>rs_result := (rs_result t)\<lparr>rr_step := sx_step sx\<rparr>\<rparr>) = (Inr y, s')"
    using assms by (auto simp: advance_def result_simps smodify_def)
  from framedD [OF counted.framed_closeStep this, of "sx_step sx"] show ?thesis
    by (simp add: counted_def)
qed

lemma finishStep_step: "finishStep cfg sx cl pend s = (Inr y, s') \<Longrightarrow> rr_step (rs_result s') = sx_step sx"
  using finishParentCommand_leaves pauseRun_leaves advance_step
  by (fastforce simp: finishStep_def Let_def result_simps split: option.splits if_splits)

text \<open>A super-step that goes on adds one to the step; one that leaves adds at most one.\<close>

lemma superStep_steps:
  assumes "superStep cfg ts pend s = (x, s')"
  shows "(case x of
      Inr _ \<Rightarrow> rr_step (rs_result s') = rr_step (rs_result s) + 1 \<and> stepUsed s s'
    | Inl _ \<Rightarrow> rr_step (rs_result s') = rr_step (rs_result s) \<or>
        rr_step (rs_result s') = rr_step (rs_result s) + 1 \<and> stepUsed s s')"
proof (cases "stepHead cfg ts pend s")
  case (Pair h t)
  show ?thesis
  proof (cases h)
    case (Inl r)
    then show ?thesis
      using assms Pair wpD_Inl [OF wp_stepHead Pair [unfolded Inl]] by (auto simp: superStep_def sbind_def)
  next
    case (Inr sx)
    with Pair have sx: "sx_step sx = rr_step (rs_result s) + 1"
        "rr_step (rs_result t) = rr_step (rs_result s)" "stepUsed s t"
      using wpD_Inr [OF wp_stepHead Pair [unfolded Inr]] by (auto simp: stepContext_def Let_def)
    define rest where "rest = (\<lambda>xs. let cl = classify (rc_allowParent cfg) xs in
      sbind (reportFailures cfg (sx_step sx) xs cl) (\<lambda>_.
      if cl_failed cl \<noteq> [] then failedStep cfg sx cl pend else finishStep cfg sx cl pend))"
    obtain xs where rest: "rest xs t = (x, s')"
      using assms Pair Inr by (auto simp: superStep_def rest_def sbind_def sgets_def)
    have "framed (counted (sx_step sx)) (rest xs)"
      unfolding rest_def Let_def by (intro framed_intros counted.framed_finishStep refl)
    from framedD [OF this rest] sx
    have "rr_step (rs_result s') \<in> {rr_step (rs_result s), sx_step sx}" "stepUsed s s'"
      by (auto simp: counted_def stepUsed_def)
    moreover have "rr_step (rs_result s') = sx_step sx" if "x = Inr ts'" for ts'
      using rest that failedStep_leaves finishStep_step
      by (fastforce simp: rest_def Let_def result_simps split: if_splits)
    ultimately show ?thesis using sx by (auto split: sum.split)
  qed
qed

section \<open>Termination\<close>

definition stepBound :: "ResourceLimits \<Rightarrow> nat" where
  "stepBound limits = (case rl_maxSteps limits of None \<Rightarrow> 2 ^ 64 - 1 | Some m \<Rightarrow> unat m)"

lemma stepUsed_bound:
  assumes "stepUsed s s'"
  shows "unat (eb_steps (rs_budget s')) \<le> stepBound (eb_limits (rs_budget s))"
proof -
  have "unat (eb_steps (rs_budget s')) < 2 ^ 64"
    using unsigned_less [of "eb_steps (rs_budget s')"] by simp
  then show ?thesis
    using assms by (auto simp: stepUsed_def stepBound_def within_def word_le_nat_alt split: option.splits)
qed

lemma runLoop_returns:
  assumes "stepBound (eb_limits (rs_budget s)) < fuel + unat (eb_steps (rs_budget s))"
    and "unat (eb_steps (rs_budget s)) \<le> stepBound (eb_limits (rs_budget s))"
  shows "\<exists>x. runLoop fuel cfg ts pend s = Some x"
  using assms
proof (induction fuel arbitrary: ts pend s)
  case 0
  then show ?case by simp
next
  case (Suc fuel)
  show ?case
  proof (cases "superStep cfg ts pend s")
    case (Pair x t)
    then show ?thesis
    proof (cases x)
      case (Inr ts')
      then have "stepUsed s t" using superStep_steps [OF Pair] by simp
      then have "\<exists>x. runLoop fuel cfg ts' [] t = Some x"
        using Suc.prems stepUsed_bound [of s t] by (intro Suc.IH) (auto simp: stepUsed_def)
      then show ?thesis using Pair Inr by auto
    qed auto
  qed
qed

lemma runLoop_mono: "runLoop fuel cfg ts pend s = Some x \<Longrightarrow> runLoop (fuel + n) cfg ts pend s = Some x"
proof (induction fuel arbitrary: ts pend s)
  case 0
  then show ?case by (cases n) (auto split: if_splits)
next
  case (Suc fuel)
  then show ?case by (auto split: if_splits prod.splits sum.splits)
qed

lemma wp_any: "(\<And>x t. Q x t) \<Longrightarrow> (\<And>e t. E e t) \<Longrightarrow> wp m Q E s"
  by (simp add: wp_def split: prod.split sum.split)

lemma wp_sbind_last:
  "(\<And>x t. wp (f x) Q (\<lambda>_ _. True) t) \<Longrightarrow> wp (sbind m f) Q (\<lambda>_ _. True) s"
  by (simp add: wp_sbind wp_any)

lemma startRun_budget:
  assumes "startRun cfg ts pend s = (Inr ts', s')"
  shows "eb_limits (rs_budget s') = opt_limits (rc_options cfg) \<and> eb_steps (rs_budget s') = 0"
proof -
  obtain t where "prepareRun cfg ts' pend t = (Inr (), s')"
    using assms by (auto simp: startRun_def result_simps)
  moreover have "wp (prepareRun cfg ts' pend)
      (\<lambda>_ s'. eb_limits (rs_budget s') = opt_limits (rc_options cfg) \<and> eb_steps (rs_budget s') = 0)
      (\<lambda>_ _. True) t"
    unfolding prepareRun_def
    by (intro wp_sbind_last) (auto simp: wp_simps failHere_def wp_True newBudget_def split: sum.split)
  ultimately show ?thesis by (auto dest: wpD_Inr)
qed

lemma run_returns:
  assumes "stepBound (opt_limits (rc_options cfg)) < fuel"
  shows "\<exists>r s'. run fuel cfg st ts pend step parent sv tick = Some (r, s')"
proof (cases "startRun cfg ts pend (initialRunState cfg st step parent sv tick)")
  case (Pair x s1)
  show ?thesis
  proof (cases x)
    case (Inr ts1)
    then have "\<exists>y. runLoop fuel cfg ts1 pend s1 = Some y"
      using startRun_budget [of cfg ts pend _ ts1 s1] Pair assms by (intro runLoop_returns) auto
    then show ?thesis
      using Pair Inr by (auto simp: run_def Let_def split: sum.split prod.split)
  qed (use Pair in \<open>auto simp: run_def Let_def\<close>)
qed

lemma run_mono:
  "run fuel cfg st ts pend step parent sv tick = Some x \<Longrightarrow>
   run (fuel + n) cfg st ts pend step parent sv tick = Some x"
  using runLoop_mono
  by (fastforce simp: run_def Let_def split: if_splits sum.splits prod.splits option.splits)

text \<open>The loop adds at most as many steps as the limit leaves.\<close>

lemma runLoop_steps:
  assumes "runLoop fuel cfg ts pend s = Some (x, s')"
    and "unat (eb_steps (rs_budget s)) \<le> stepBound (eb_limits (rs_budget s))"
  shows "\<exists>n. rr_step (rs_result s') = rr_step (rs_result s) + of_nat n \<and>
    n + unat (eb_steps (rs_budget s)) \<le> stepBound (eb_limits (rs_budget s))"
  using assms
proof (induction fuel arbitrary: ts pend s)
  case 0
  then show ?case by (intro exI [of _ 0]) (auto split: if_splits)
next
  case (Suc fuel)
  show ?case
  proof (cases "isTerminalNextTasks ts")
    case True
    then show ?thesis using Suc.prems by (intro exI [of _ 0]) auto
  next
    case False
    obtain y t where step: "superStep cfg ts pend s = (y, t)" by fastforce
    show ?thesis
    proof (cases y)
      case (Inl r)
      then have "s' = t" using Suc.prems step False by simp
      then consider "rr_step (rs_result s') = rr_step (rs_result s)"
        | "rr_step (rs_result s') = rr_step (rs_result s) + 1" "stepUsed s s'"
        using superStep_steps [OF step] Inl by auto
      then show ?thesis
      proof cases
        case 1
        then show ?thesis using Suc.prems by (intro exI [of _ 0]) simp
      next
        case 2
        then show ?thesis
          using stepUsed_bound [of s s'] by (intro exI [of _ 1]) (simp add: stepUsed_def)
      qed
    next
      case (Inr ts')
      then have used: "rr_step (rs_result t) = rr_step (rs_result s) + 1" "stepUsed s t"
        using superStep_steps [OF step] by auto
      have "runLoop fuel cfg ts' [] t = Some (x, s')" using Suc.prems step False Inr by simp
      from Suc.IH [OF this] obtain n where
        "rr_step (rs_result s') = rr_step (rs_result t) + of_nat n"
        "n + unat (eb_steps (rs_budget t)) \<le> stepBound (eb_limits (rs_budget t))"
        using used stepUsed_bound [of s t] by (auto simp: stepUsed_def)
      then show ?thesis using used by (intro exI [of _ "Suc n"]) (auto simp: stepUsed_def)
    qed
  qed
qed

lemma run_steps:
  assumes "run fuel cfg st ts pend step parent sv tick = Some (r, s')"
  shows "\<exists>n \<le> stepBound (opt_limits (rc_options cfg)). rr_step (rs_result s') = step + of_nat n"
  using assms
proof (cases rule: run_cases)
  case invalid
  then show ?thesis by (intro exI [of _ 0]) (simp add: initialRunState_simps)
next
  case start
  then show ?thesis
    using framedD [OF stepped.framed_startRun start, of step]
    by (intro exI [of _ 0]) (simp add: stepped_def initialRunState_simps)
next
  case (loop ts1 s1)
  have "rr_step (rs_result s1) = step"
    using framedD [OF stepped.framed_startRun loop(1), of step] by (simp add: stepped_def initialRunState_simps)
  then show ?thesis
    using runLoop_steps [OF loop(2)] startRun_budget [OF loop(1)] by auto
next
  case (finish ts1 s1 s2)
  have "rr_step (rs_result s1) = step"
    using framedD [OF stepped.framed_startRun finish(1), of step] by (simp add: stepped_def initialRunState_simps)
  moreover have "rr_step (rs_result s') = rr_step (rs_result s2)"
    using stepped.returnOf_framed [OF finish(3), of "rr_step (rs_result s2)"] by (simp add: stepped_def)
  ultimately show ?thesis
    using runLoop_steps [OF finish(2)] startRun_budget [OF finish(1)] by auto
qed

section \<open>A super-step with a failed task\<close>

text \<open>
  Nothing of a super-step with a failed task is merged into the state: only the error entry is
  new, and the step of the result stays.
\<close>

lemma failedStep_keeps_state:
  fixes cfg :: "'s run_cfg"
  assumes "failedStep cfg sx cl pend s = (Inl (Inr res), s')"
  shows "res = rs_result s' \<and> rr_step res = rr_step (rs_result s) \<and>
    (\<forall>j. j \<noteq> kRunErrorStateKey \<longrightarrow> jget (rr_state res) j = jget (rr_state (rs_result s)) j) \<and>
    rr_status res \<in> {RunFailedStatus, RunCancelled, MaxStepsExceeded}"
proof -
  define G where "G = (\<lambda>(r :: RunResult result) (s' :: 's run_state). \<forall>res. r = Inr res \<longrightarrow> res = rs_result s' \<and> rr_step res = rr_step (rs_result s) \<and>
    (\<forall>j. j \<noteq> kRunErrorStateKey \<longrightarrow> jget (rr_state res) j = jget (rr_state (rs_result s)) j) \<and>
    rr_status res \<in> {RunFailedStatus, RunCancelled, MaxStepsExceeded})"
  define I where "I = (\<lambda>(_ :: CheckpointWrite list) (t :: 's run_state). rr_step (rs_result t) = rr_step (rs_result s) \<and>
    rr_state (rs_result t) = rr_state (rs_result s))"
  have fail: "wp (failRun cfg st k node as p) (\<lambda>r. G (Inr r)) (\<lambda>e. G (Inl e)) t" if "I acc t"
    for st k node as p t acc
    by (rule wp_failRun)
      (use that runStatusFromStatus_fails [of st] in
        \<open>auto simp: G_def I_def dest: withRunErrorMetadata_entry(4)\<close>)
  have quiet: "I acc' u" if "I acc t" "quiet t u" for acc acc' t u
    using that by (simp add: I_def quiet_def)
  have one: "wp (pendingAfterFailure cfg k as x acc) I G t" if "I acc t" for k as x acc t
    unfolding pendingAfterFailure_def wp_simps
    by (auto intro!: wp_emitCompleted wp_executionWrite wp_emit fail [OF quiet] intro: that quiet elim: quiet_trans
        simp: wp_simps)
  have "wp (failedStep cfg sx cl pend) (\<lambda>_ _. False) G s"
    unfolding failedStep_def Let_def wp_simps
    by (auto simp: wp_simps intro!: wp_sfold [where I = I] one fail)
       (simp_all add: I_def)
  from wpD_Inl [OF this assms] show ?thesis unfolding G_def by blast
qed

text \<open>The same for the super-step: its tasks ran, and at least one of them failed.\<close>

lemma superStep_failed:
  fixes cfg :: "'s run_cfg"
  assumes head: "stepHead cfg ts pend s = (Inr sx, t)"
    and failed: "cl_failed (classify (rc_allowParent cfg) (dispatchExecutions cfg (rs_result t) (rs_resume t)
        (sx_active sx) (sx_input sx) (sx_step sx))) \<noteq> []"
    and run: "superStep cfg ts pend s = (Inl (Inr res), s')"
  shows "res = rs_result s' \<and> rr_step res = rr_step (rs_result s) \<and>
    (\<forall>j. j \<noteq> kRunErrorStateKey \<longrightarrow> jget (rr_state res) j = jget (rr_state (rs_result s)) j) \<and>
    rr_status res \<in> {RunFailedStatus, RunCancelled, MaxStepsExceeded}"
proof -
  let ?xs = "dispatchExecutions cfg (rs_result t) (rs_resume t) (sx_active sx) (sx_input sx) (sx_step sx)"
  let ?cl = "classify (rc_allowParent cfg) ?xs"
  let ?failedStep = "failedStep cfg sx ?cl pend :: ('s, CheckpointTask list) run_body"
  obtain u where u: "reportFailures cfg (sx_step sx) ?xs ?cl t = (Inr (), u) \<and>
      ?failedStep u = (Inl (Inr res), s')
    \<or> reportFailures cfg (sx_step sx) ?xs ?cl t = (Inl (Inr res), u)"
    using run head failed
    by (auto simp: superStep_def sbind_def sgets_def Let_def split: prod.splits sum.splits)
  have "wp (reportFailures cfg (sx_step sx) ?xs ?cl) (\<lambda>_. quiet t) (\<lambda>_ _. False) t"
    unfolding reportFailures_def Let_def
    by (rule wp_sfold [where I = "\<lambda>_. quiet t"])
      (auto simp: wp_simps quiet.refl intro!: wp_emit elim: quiet_trans)
  with u have q: "quiet t u" "?failedStep u = (Inl (Inr res), s')"
    by (auto simp: wp_def)
  have "rr_step (rs_result t) = rr_step (rs_result s)" "rr_state (rs_result t) = rr_state (rs_result s)"
    using wpD_Inr [OF wp_stepHead head] by auto
  with failedStep_keeps_state [OF q(2)] q(1) show ?thesis unfolding quiet_def by metis
qed

text \<open>The writes of the tasks that succeeded are added to the pending writes, in the order of the tasks.\<close>

definition writeOf :: "'s run_cfg \<Rightarrow> string \<Rightarrow> NodeExecution \<Rightarrow> CheckpointWrite result" where
  "writeOf cfg ns x = writeFromExecution (rc_graph cfg) ns (ne_task x) (the (ne_output x))"

lemma pendingAfterFailure_fold:
  assumes "sfold (pendingAfterFailure cfg k fs) xs acc s = (Inr acc', s')"
  shows "\<exists>ws. mapM_result (writeOf cfg (rr_ns (rs_result s))) (filter (\<lambda>x. isOk (ne_status x)) xs) = Inr ws \<and>
    acc' = acc @ ws \<and> quiet s s'"
  using assms
proof (induction xs arbitrary: acc s)
  case Nil
  then show ?case by (simp add: result_simps quiet.refl)
next
  case (Cons x xs)
  obtain acc1 s1 where one: "pendingAfterFailure cfg k fs x acc s = (Inr acc1, s1)"
      and rest: "sfold (pendingAfterFailure cfg k fs) xs acc1 s1 = (Inr acc', s')"
    using Cons.prems by (auto simp: result_simps)
  have "wp (pendingAfterFailure cfg k fs x acc)
      (\<lambda>a t. quiet s t \<and> (if isOk (ne_status x) then \<exists>w. writeOf cfg (rr_ns (rs_result s)) x = Inr w \<and> a = acc @ [w]
          else a = acc)) (\<lambda>_ _. True) s"
    unfolding pendingAfterFailure_def executionWrite_def wp_simps
    by (auto simp: wp_simps quiet.refl writeOf_def quiet_def wp_True split: sum.split
        intro!: wp_emitCompleted wp_emit)
  from wpD_Inr [OF this one] Cons.IH [OF rest] show ?case
    by (auto split: if_splits elim: quiet_trans simp: quiet_def)
qed

end
