(* ===== verification/Run_Store.thy ===== *)
theory Run_Store
  imports Run_Props Memory_Saver
begin

text \<open>
  A run with a checkpointer that keeps the contract of a saver: the store only grows, the
  checkpoints of a run are linked to the one it started from, and the state a run returns is
  the state of the last checkpoint it stored.  The facts are proved for every saver in the
  locale \<open>saved_run\<close> and hold for \<^verbatim>\<open>InMemorySaver\<close> by interpretation.
\<close>

section \<open>Changes that only publish events\<close>

definition silent :: "'s run_state \<Rightarrow> 's run_state \<Rightarrow> bool" where
  "silent s s' \<longleftrightarrow> quiet s s' \<and> rs_saver s' = rs_saver s \<and> rs_parent s' = rs_parent s"

interpretation silent: publish_frame silent cfg for cfg
  by unfold_locales (auto simp: silent_def quiet_def)

lemmas wp_emit_silent = wp_framed [OF silent.framed_emit]
lemmas wp_interrupt_silent = wp_framed [OF silent.framed_publishInterrupt]

section \<open>History\<close>

text \<open>Following the parents of the stored checkpoints.\<close>

inductive ancestor :: "(ckey \<Rightarrow> Checkpoint option) \<Rightarrow> string \<Rightarrow> string \<Rightarrow> string option \<Rightarrow> string option \<Rightarrow> bool"
  for S t n where
  here: "ancestor S t n p p"
| up: "S (t, n, i) = Some c \<Longrightarrow> ancestor S t n (cp_parent c) p \<Longrightarrow> ancestor S t n (Some i) p"

lemma ancestor_trans: "ancestor S t n p q \<Longrightarrow> ancestor S t n q r \<Longrightarrow> ancestor S t n p r"
  by (induction rule: ancestor.induct) (auto intro: ancestor.intros)

lemma ancestor_mono: "ancestor S t n p q \<Longrightarrow> S \<subseteq>\<^sub>m S' \<Longrightarrow> ancestor S' t n p q"
proof (induction rule: ancestor.induct)
  case (up i c p)
  then have "S' (t, n, i) = Some c" by (metis domI map_le_def)
  with up show ?case by (blast intro: ancestor.up)
qed (rule ancestor.here)

locale saved_run = saver ops inv abs
  for ops :: "'s saver_ops" and inv :: "'s \<Rightarrow> bool" and abs :: "'s \<Rightarrow> ckey \<Rightarrow> Checkpoint option" +
  fixes cfg :: "'s run_cfg"
  assumes checkpointer: "opt_checkpointer (rc_options cfg) = Some ops"
begin

definition history :: "'s run_state \<Rightarrow> 's run_state \<Rightarrow> bool" where
  "history s s' \<longleftrightarrow> (inv (rs_saver s) \<longrightarrow>
     inv (rs_saver s') \<and> abs (rs_saver s) \<subseteq>\<^sub>m abs (rs_saver s') \<and> sameIds s s' \<and>
     ancestor (abs (rs_saver s')) (rr_threadId (rs_result s)) (rr_ns (rs_result s)) (rs_parent s') (rs_parent s))"

lemma storeCheckpoint_store:
  assumes "inv sv" and "storeCheckpoint ops c source sv = (r, sv')"
  shows "inv sv' \<and> abs sv \<subseteq>\<^sub>m abs sv' \<and>
    (r = Inr () \<longrightarrow> abs sv (ckeyOf c) = None \<and> abs sv' = (abs sv)(ckeyOf c \<mapsto> c))"
proof (cases "so_put ops c sv")
  case (Pair p sv1)
  have put: "inv sv1" "abs sv \<subseteq>\<^sub>m abs sv1" using put_monotone [OF assms(1) Pair] by auto
  show ?thesis
  proof (cases p)
    case (Inl e)
    then show ?thesis using assms(2) Pair put by (auto simp: storeCheckpoint_def sbind_def)
  next
    case (Inr u)
    have "inv sv' \<and> abs sv' = abs sv1"
      using assms(2) Pair Inr put(1) putWrites_frame
      by (auto simp: storeCheckpoint_def sbind_def sret_def split: if_splits)
    then show ?thesis using put put_ok [OF assms(1)] Pair Inr by auto
  qed
qed

text \<open>What storing a checkpoint does.\<close>

lemma commitCheckpoint_store:
  assumes "inv (rs_saver s)" and "commitCheckpoint cfg k ts writes pend source terminal s = (r, s')"
  shows "inv (rs_saver s') \<and> abs (rs_saver s) \<subseteq>\<^sub>m abs (rs_saver s') \<and> rs_result s' = rs_result s \<and>
    (rs_parent s' = rs_parent s \<or>
     (\<exists>c. r = Inr c \<and> c = checkpointFor cfg s k ts writes pend source \<and>
        rs_parent s' = Some (cp_checkpointId c) \<and> abs (rs_saver s') (ckeyOf c) = Some c)) \<and>
    (\<forall>c. r = Inr c \<longrightarrow> c = checkpointFor cfg s k ts writes pend source \<and>
       (shouldStore cfg source terminal \<longrightarrow>
          rs_parent s' = Some (cp_checkpointId c) \<and> abs (rs_saver s') (ckeyOf c) = Some c))"
proof -
  let ?c = "checkpointFor cfg s k ts writes pend source"
  show ?thesis
  proof (cases "storeCheckpoint ops ?c source (rs_saver s)")
    case (Pair p sv')
    show ?thesis
      using storeCheckpoint_store [OF assms(1) Pair] assms Pair checkpointer
      by (cases p) (auto simp: commitCheckpoint_def sbind_def sgets_def smodify_def sret_def onSaver_def
          split: if_splits)
  qed
qed

lemma history_refl: "history s s"
  by (simp add: history_def sameIds_def ancestor.here)

lemma history_trans:
  assumes "history s t" and "history t u"
  shows "history s u"
proof -
  have "ancestor (abs (rs_saver u)) a b (rs_parent t) (rs_parent s)"
    if "ancestor (abs (rs_saver t)) a b (rs_parent t) (rs_parent s)" "abs (rs_saver t) \<subseteq>\<^sub>m abs (rs_saver u)" for a b
    using ancestor_mono that by blast
  then show ?thesis
    using assms by (auto simp: history_def sameIds_def intro: map_le_trans ancestor_trans)
qed

lemma history_commit: "framed history (commitCheckpoint cfg k ts writes pend source terminal)"
proof (unfold framed_def, rule allI)
  fix s
  obtain r s' where run: "commitCheckpoint cfg k ts writes pend source terminal s = (r, s')" by fastforce
  have "history s s'" unfolding history_def
  proof
    assume inv: "inv (rs_saver s)"
    note store = commitCheckpoint_store [OF inv run]
    have ids: "cp_parent c = rs_parent s \<and>
        ckeyOf c = (rr_threadId (rs_result s), rr_ns (rs_result s), cp_checkpointId c)"
      if "c = checkpointFor cfg s k ts writes pend source" for c
      using that by (simp add: checkpointFor_def Let_def ckeyOf_def)
    have "ancestor (abs (rs_saver s')) (rr_threadId (rs_result s)) (rr_ns (rs_result s))
        (rs_parent s') (rs_parent s)"
    proof (cases "rs_parent s' = rs_parent s")
      case True
      then show ?thesis by (simp add: ancestor.here)
    next
      case False
      with store obtain c where "c = checkpointFor cfg s k ts writes pend source"
        "rs_parent s' = Some (cp_checkpointId c)" "abs (rs_saver s') (ckeyOf c) = Some c" by blast
      with ids [of c] show ?thesis by (metis ancestor.here ancestor.up)
    qed
    with store show "inv (rs_saver s') \<and> abs (rs_saver s) \<subseteq>\<^sub>m abs (rs_saver s') \<and> sameIds s s' \<and>
        ancestor (abs (rs_saver s')) (rr_threadId (rs_result s)) (rr_ns (rs_result s)) (rs_parent s') (rs_parent s)"
      by (auto simp: sameIds_def)
  qed
  then show "history s (snd (commitCheckpoint cfg k ts writes pend source terminal s))" by (simp add: run)
qed

end

sublocale saved_run < history: whole_frame history cfg
proof unfold_locales
  show "history s s" for s by (rule history_refl)
  show "history s t \<Longrightarrow> history t u \<Longrightarrow> history s u" for s t u by (rule history_trans)
  show "framed history (commitCheckpoint cfg k ts writes pend source terminal)"
    for k ts writes pend source terminal by (rule history_commit)
qed (auto simp: history_def sameIds_def ancestor.here)

section \<open>The stored result\<close>

text \<open>
  What the failure checkpoint of a step is to hold: without an interrupt the tasks that failed and
  the writes of those that succeeded, next to an interrupt all tasks of the step and no writes.
\<close>

definition failureTasks :: "step_ctx \<Rightarrow> classified \<Rightarrow> CheckpointTask list" where
  "failureTasks sx cl =
     normalizeNextTasks (if cl_interrupts cl = [] then map (\<lambda>i. ne_task (cl_execs cl ! i)) (cl_failed cl)
                         else sx_active sx)"

definition failureWrites :: "'s run_cfg \<Rightarrow> string \<Rightarrow> classified \<Rightarrow> CheckpointWrite list result" where
  "failureWrites cfg ns cl =
     (if cl_interrupts cl = []
      then mapM_result (writeOf cfg ns) (filter (\<lambda>x. isOk (ne_status x)) (cl_execs cl))
      else Inr [])"

context saved_run
begin

text \<open>The last stored checkpoint has the state of the result.\<close>

definition stored :: "'s run_state \<Rightarrow> bool" where
  "stored s \<longleftrightarrow> (\<exists>i c. rs_parent s = Some i \<and> i \<noteq> [] \<and>
     abs (rs_saver s) (rr_threadId (rs_result s), rr_ns (rs_result s), i) = Some c \<and>
     cp_state c = rr_state (rs_result s))"

definition kept :: "'s run_state \<Rightarrow> bool" where
  "kept s \<longleftrightarrow> inv (rs_saver s)"

definition returns :: "RunResult result \<Rightarrow> 's run_state \<Rightarrow> bool" where
  "returns r s \<longleftrightarrow> (\<forall>res. r = Inr res \<longrightarrow> res = rs_result s \<and> inv (rs_saver s) \<and> stored s)"

definition steps_on :: "CheckpointTask list \<Rightarrow> 's run_state \<Rightarrow> bool" where
  "steps_on ts s \<longleftrightarrow> inv (rs_saver s) \<and>
     (isTerminalNextTasks ts \<longrightarrow> rr_status (rs_result s) = Completed \<and> stored s)"

lemma silent_stored: "silent s s' \<Longrightarrow> stored s \<Longrightarrow> stored s'"
  by (auto simp: silent_def quiet_def stored_def)

lemma silent_keeps: "silent s s' \<Longrightarrow> kept s \<Longrightarrow> stored s \<Longrightarrow> kept s' \<and> stored s' \<and> quiet s s'"
  using silent_stored by (auto simp: silent_def kept_def)

lemma wp_commit_stored:
  assumes "kept s" and "shouldStore cfg source terminal"
    and "\<And>c s'. kept s' \<Longrightarrow> stored s' \<Longrightarrow> quiet s s' \<Longrightarrow>
      abs (rs_saver s') (ckeyOf c) = Some c \<Longrightarrow> c = checkpointFor cfg s k ts writes pend source \<Longrightarrow> Q c s'"
    and "\<And>e s'. kept s' \<Longrightarrow> E e s'"
  shows "wp (commitCheckpoint cfg k ts writes pend source terminal) Q E s"
proof (cases "commitCheckpoint cfg k ts writes pend source terminal s")
  case (Pair r s')
  show ?thesis
  proof (cases r)
    case (Inl e)
    then show ?thesis
      using commitCheckpoint_store [OF _ Pair] assms(1,4) Pair by (auto simp: kept_def wp_def)
  next
    case (Inr c)
    have "kept s' \<and> stored s' \<and> quiet s s' \<and> abs (rs_saver s') (ckeyOf c) = Some c \<and>
        c = checkpointFor cfg s k ts writes pend source"
      using commitCheckpoint_store [OF _ Pair] assms(1,2) Inr framedD [OF quiet.framed_commitCheckpoint Pair]
      by (auto simp: kept_def stored_def checkpointFor_def checkpointIdFor_def Let_def ckeyOf_def)
    then show ?thesis using assms(3) Pair Inr by (auto simp: wp_def)
  qed
qed

lemma wp_put_stored:
  assumes "kept s" and "terminal"
    and "\<And>s'. kept s' \<Longrightarrow> stored s' \<Longrightarrow> quiet s s' \<Longrightarrow> Q () s'"
    and "\<And>e s'. kept s' \<Longrightarrow> E e s'"
  shows "wp (putCheckpoint cfg k ts writes pend source terminal req) Q E s"
proof -
  have "wp (emit cfg CheckpointCreated k [] p []) Q (\<lambda>e. wp (if req then slift (Inl e) else sret ()) Q E) s'"
    if "kept s'" "stored s'" "quiet s s'" for s' p
    by (rule wp_emit_silent)
      (use that in \<open>auto simp: wp_simps kept_def silent_def intro!: assms(3,4) elim: quiet_trans
        intro: silent_stored [unfolded silent_def]\<close>)
  then show ?thesis
    unfolding putCheckpoint_def wp_simps
    by (intro wp_commit_stored [OF assms(1)]) (auto simp: assms(2,4) shouldStore_def wp_simps)
qed

lemma wp_emit_stored:
  assumes "kept s" "stored s" and "\<And>s'. kept s' \<Longrightarrow> stored s' \<Longrightarrow> quiet s s' \<Longrightarrow> Q () s'"
    and "\<And>e s'. kept s' \<Longrightarrow> stored s' \<Longrightarrow> quiet s s' \<Longrightarrow> E e s'"
  shows "wp (emit cfg ty k node payload msg) Q E s"
proof (rule wp_emit_silent)
  fix x :: unit and s' assume "silent s s'"
  then show "Q x s'" using silent_keeps assms(1-3) by simp
next
  fix e s' assume "silent s s'"
  then show "E e s'" using silent_keeps assms(1,2,4) by simp
qed

lemma wp_fail_stored:
  assumes "kept s"
  shows "wp (failRun cfg st k node ts pend) (\<lambda>r. returns (Inr r)) (\<lambda>e. returns (Inl e)) s"
  unfolding failRun_def Let_def wp_simps
  by (auto simp: wp_simps returns_def split: sum.split intro!: wp_put_stored wp_emit_stored)
    (use assms in \<open>auto simp: kept_def\<close>)

lemma returns_Inl: "returns (Inl st) s"
  by (simp add: returns_def)

end

sublocale saved_run < kept: run_ends kept returns cfg
proof unfold_locales
  show "kept (snd (commitCheckpoint cfg k ts writes pend source terminal s))" if "kept s"
    for s k ts writes pend source terminal
    using commitCheckpoint_store [OF _ prod.collapse [symmetric]] that unfolding kept_def by blast
qed (auto simp: kept_def wp_fail_stored returns_Inl)

context saved_run
begin

lemma wp_storeOrLeave_stored:
  assumes "kept s" and "terminal" and "\<And>s'. kept s' \<Longrightarrow> stored s' \<Longrightarrow> quiet s s' \<Longrightarrow> Q () s'"
  shows "wp (storeOrLeave cfg k ts writes source terminal node) Q returns s"
  unfolding storeOrLeave_def wp_simps
  by (rule wp_put_stored [OF assms(1,2)]) (auto intro!: assms(3) wp_emit returns_Inl)

lemma wp_emit_kept:
  assumes "kept s" and "\<And>s'. kept s' \<Longrightarrow> quiet s s' \<Longrightarrow> Q () s'" and "\<And>e s'. kept s' \<Longrightarrow> E e s'"
  shows "wp (emit cfg ty k node payload msg) Q E s"
  by (rule wp_emit_silent) (use assms in \<open>auto simp: silent_def kept_def\<close>)

lemma wp_parent_stored:
  assumes "kept s"
  shows "wp (finishParentCommand cfg sx writes x) Q returns s"
proof -
  have "kept (s\<lparr>rs_result := r\<rparr>)" for r using assms by (simp add: kept_def)
  then show ?thesis
    unfolding finishParentCommand_def Let_def wp_simps
    by (auto simp: wp_simps split: sum.split intro!: wp_fail_stored wp_emit_kept wp_storeOrLeave_stored)
      (auto simp: returns_def kept_def)
qed

lemma wp_pause_stored:
  assumes "kept s"
  shows "wp (pauseRun cfg sx cl writes) Q returns s"
proof -
  have publish: "wp (sfold (\<lambda>x _. scatch (publishInterrupt cfg k x)
      (\<lambda>e. leave (failRun cfg e k (ct_nodeId (ne_task x)) ts []))) xs ()) (\<lambda>_ s. Q' s) returns t"
    if "kept t" "stored t" and "\<And>s. kept s \<Longrightarrow> stored s \<Longrightarrow> Q' s" for k ts xs t Q'
    by (rule wp_sfold [where I = "\<lambda>_ s. kept s \<and> stored s"])
      (use that in \<open>auto simp: wp_simps dest: silent_keeps intro!: wp_interrupt_silent wp_fail_stored\<close>)
  have paused: "kept (t\<lparr>rs_result := r\<rparr>)" if "kept t" for t r using that by (simp add: kept_def)
  show ?thesis
    unfolding pauseRun_def Let_def wp_simps
    by (rule wp_weaken [OF kept.endsD [OF kept.ends_routeWrites assms]])
      (auto simp: wp_simps split: sum.split
        intro!: wp_fail_stored wp_storeOrLeave_stored publish paused,
       auto simp: returns_def kept_def stored_def)
qed

lemma wp_close_stored:
  assumes "kept s"
  shows "wp (closeStep cfg sx writes ts) steps_on returns s"
proof (cases "isTerminalNextTasks ts")
  case True
  have result: "kept (t\<lparr>rs_result := r\<rparr>)" if "kept t" for t r using that by (simp add: kept_def)
  have "steps_on ts (t\<lparr>rs_resume := []\<rparr>)"
    if "kept t" "stored t" "rr_status (rs_result t) = Completed" for t ts
    using that by (simp add: kept_def stored_def steps_on_def)
  then show ?thesis
    unfolding closeStep_def Let_def wp_simps
    using assms True
    by (auto simp: wp_simps quiet_def split: sum.split
        intro!: wp_fail_stored wp_emit_kept wp_storeOrLeave_stored result)
next
  case False
  then have "steps_on ts (t\<lparr>rs_resume := []\<rparr>)" if "kept t" for t
    using that by (simp add: kept_def steps_on_def)
  with False show ?thesis
    unfolding closeStep_def Let_def wp_simps
    by (auto simp: wp_simps intro: wp_weaken [OF kept.endsD [OF kept.ends_storeOrLeave assms]])
qed

end

sublocale saved_run < stored: run_finishes kept returns cfg steps_on
  by unfold_locales
    (auto intro: wp_parent_stored wp_pause_stored wp_close_stored simp: steps_on_def kept_def)

context saved_run
begin

text \<open>Old checkpoints stay, and the new ones lead back to the checkpoint the run started from.\<close>

lemma run_history:
  assumes "inv sv" and "run fuel cfg st ts pend step parent sv tick = Some (r, s')"
  shows "inv (rs_saver s') \<and> abs sv \<subseteq>\<^sub>m abs (rs_saver s') \<and>
    ancestor (abs (rs_saver s')) (rr_threadId (rs_result s')) (opt_ns (rc_options cfg)) (rs_parent s') parent"
  using history.run_framed [OF assms(2)] assms(1)
  by (simp add: history_def initialRunState_simps sameIds_def)

lemma run_stored:
  assumes "inv sv" and "run fuel cfg st ts pend step parent sv tick = Some (Inr res, s')"
    and "\<not> endsAtStart cfg ts pend (initialRunState cfg st step parent sv tick) step res"
  shows "\<exists>i c. rs_parent s' = Some i \<and> i \<noteq> [] \<and> abs (rs_saver s') (rr_threadId res, rr_ns res, i) = Some c \<and>
    cp_state c = rr_state res"
  using stored.run_ends_with [OF assms(2)] assms(1,3)
  by (auto simp: kept_def initialRunState_simps returns_def steps_on_def stored_def)

text \<open>The failure checkpoint has the state, the pending writes and the tasks the failure is reported with.\<close>

lemma wp_put_checkpoint:
  assumes "kept s" and "shouldStore cfg source terminal"
    and "\<And>s'. kept s' \<Longrightarrow> quiet s s' \<Longrightarrow> abs (rs_saver s')
        (ckeyOf (checkpointFor cfg s k ts writes pend source)) = Some (checkpointFor cfg s k ts writes pend source) \<Longrightarrow> Q () s'"
    and "\<And>e s'. E e s'"
  shows "wp (putCheckpoint cfg k ts writes pend source terminal req) Q E s"
proof -
  let ?c = "checkpointFor cfg s k ts writes pend source"
  have "wp (emit cfg CheckpointCreated k [] p []) Q (\<lambda>e. wp (if req then slift (Inl e) else sret ()) Q E) s'"
    if "kept s'" "quiet s s'" "abs (rs_saver s') (ckeyOf ?c) = Some ?c" for s' p
    by (rule wp_emit_silent)
      (use that in \<open>auto simp: wp_simps kept_def silent_def intro!: assms(3,4) elim: quiet_trans\<close>)
  then show ?thesis
    unfolding putCheckpoint_def wp_simps
    by (intro wp_commit_stored [OF assms(1,2)]) (auto simp: assms(2,4))
qed

lemma wp_fail_checkpoint:
  assumes "kept s"
  shows "wp (failRun cfg st k node ts pend)
     (\<lambda>r s'. \<exists>c. abs (rs_saver s') (ckeyOf c) = Some c \<and> cp_threadId c = rr_threadId (rs_result s) \<and>
        cp_ns c = rr_ns (rs_result s) \<and> cp_step c = k \<and> cp_state c = rr_state r \<and> cp_pendingWrites c = pend \<and>
        cp_nextTasks c = annotateTasks (rr_runId (rs_result s)) (rr_ns (rs_result s))
          (normalizeNextTasks (if normalizeNextTasks ts = [] \<and> node \<noteq> [] then [plainTask node]
             else normalizeNextTasks ts)) k)
     (\<lambda>_ _. True) s"
proof -
  show ?thesis
  proof (cases "withRunErrorMetadata (rr_state (rs_result s)) st node k (runStatusFromStatus st)")
    case (Inl e)
    then show ?thesis unfolding failRun_def wp_simps by (simp add: wp_simps)
  next
    case (Inr st')
    let ?s = "s\<lparr>rs_result := (rs_result s)\<lparr>rr_status := runStatusFromStatus st, rr_state := st'\<rparr>\<rparr>"
    let ?ts = "if normalizeNextTasks ts = [] \<and> node \<noteq> [] then [plainTask node] else normalizeNextTasks ts"
    let ?c = "checkpointFor cfg ?s k ?ts [] pend ''failure''"
    have c: "cp_threadId ?c = rr_threadId (rs_result s)" "cp_ns ?c = rr_ns (rs_result s)" "cp_step ?c = k"
      "cp_state ?c = st'" "cp_pendingWrites ?c = pend"
      "cp_nextTasks ?c = annotateTasks (rr_runId (rs_result s)) (rr_ns (rs_result s)) (normalizeNextTasks ?ts) k"
      by (simp_all add: checkpointFor_def Let_def)
    have "wp (putCheckpoint cfg k ?ts [] pend ''failure'' True False) (\<lambda>_. wp (sbind (signore m) (\<lambda>_. sgets rs_result))
       (\<lambda>r s'. \<exists>c. abs (rs_saver s') (ckeyOf c) = Some c \<and> cp_threadId c = rr_threadId (rs_result s) \<and>
        cp_ns c = rr_ns (rs_result s) \<and> cp_step c = k \<and> cp_state c = rr_state r \<and> cp_pendingWrites c = pend \<and>
        cp_nextTasks c = annotateTasks (rr_runId (rs_result s)) (rr_ns (rs_result s)) (normalizeNextTasks ?ts) k)
        (\<lambda>_ _. True)) (\<lambda>_ _. True) ?s"
      if m: "framed silent m" for m
      unfolding wp_simps
      by (rule wp_put_checkpoint) (use c in \<open>auto simp: kept_def assms [unfolded kept_def] shouldStore_def wp_simps
        silent_def quiet_def intro!: wp_framed [OF m]\<close>)
    from this [OF silent.framed_emit] Inr show ?thesis
      unfolding failRun_def Let_def wp_simps by (simp add: wp_simps)
  qed
qed

text \<open>A step with a failed task ends in \<^verbatim>\<open>failRun\<close> with these tasks and writes.\<close>

lemma failRun_failedStep:
  fixes sx cl defines "first \<equiv> cl_execs cl ! hd (cl_failed cl)"
  assumes "inv (rs_saver s)"
    and "cl_interrupts cl = [] \<Longrightarrow>
      sfold (pendingAfterFailure cfg (sx_step sx) (failureTasks sx cl)) (cl_execs cl) pend s = (Inr pend', u)"
    and "failedStep cfg sx cl pend s = (Inl (Inr res), s')"
  shows "\<exists>ts ws t. failureWrites cfg (rr_ns (rs_result s)) cl = Inr ws \<and> kept t \<and> quiet s t \<and>
    normalizeNextTasks ts = failureTasks sx cl \<and>
    failRun cfg (ne_status first) (sx_step sx) (ct_nodeId (ne_task first)) ts (pend @ ws) t = (Inr res, s')"
proof (cases "cl_interrupts cl = []")
  case True
  let ?tasks = "failureTasks sx cl"
  have fold: "sfold (pendingAfterFailure cfg (sx_step sx) ?tasks) (cl_execs cl) pend s = (Inr pend', u)"
    using assms(3) True by simp
  obtain ws where ws: "mapM_result (writeOf cfg (rr_ns (rs_result s)))
        (filter (\<lambda>x. isOk (ne_status x)) (cl_execs cl)) = Inr ws" "pend' = pend @ ws" "quiet s u"
    using pendingAfterFailure_fold [OF fold] by blast
  have "kept.ends (sfold (pendingAfterFailure cfg (sx_step sx) ?tasks) (cl_execs cl) pend)"
    unfolding pendingAfterFailure_def by (intro ends_intros)
  from wpD_Inr [OF kept.endsD [OF this] fold] assms(2) have "kept u" by (simp add: kept_def)
  moreover have "normalizeNextTasks ?tasks = ?tasks"
    unfolding failureTasks_def by (rule normalizeNextTasks_id [OF normalizeNextTasks_normal])
  moreover have "failRun cfg (ne_status first) (sx_step sx) (ct_nodeId (ne_task first)) ?tasks pend' u = (Inr res, s')"
    using assms(4) True fold
    by (simp add: failedStep_def Let_def sbind_def first_def failureTasks_def normalizeNextTasks_def leave_def
        split: prod.splits)
  ultimately show ?thesis using ws True by (auto simp: failureWrites_def)
next
  case False
  then have "failRun cfg (ne_status first) (sx_step sx) (ct_nodeId (ne_task first)) (sx_active sx) pend s = (Inr res, s')"
    using assms(4) by (simp add: failedStep_def Let_def first_def leave_def split: prod.splits)
  with False assms(2) show ?thesis
    by (auto simp: failureWrites_def failureTasks_def kept_def quiet_def intro!: exI [of _ "sx_active sx"] exI [of _ s])
qed

lemma failedStep_checkpoint:
  assumes "inv (rs_saver s)" and "failureTasks sx cl \<noteq> []"
    and "cl_interrupts cl = [] \<Longrightarrow>
      sfold (pendingAfterFailure cfg (sx_step sx) (failureTasks sx cl)) (cl_execs cl) pend s = (Inr pend', u)"
    and "failedStep cfg sx cl pend s = (Inl (Inr res), s')"
  shows "\<exists>c ws. abs (rs_saver s') (ckeyOf c) = Some c \<and> cp_threadId c = rr_threadId (rs_result s) \<and>
    cp_ns c = rr_ns (rs_result s) \<and> cp_step c = sx_step sx \<and> cp_state c = rr_state res \<and>
    failureWrites cfg (rr_ns (rs_result s)) cl = Inr ws \<and> cp_pendingWrites c = pend @ ws \<and>
    cp_nextTasks c = annotateTasks (rr_runId (rs_result s)) (rr_ns (rs_result s)) (failureTasks sx cl) (sx_step sx)"
proof -
  let ?first = "cl_execs cl ! hd (cl_failed cl)"
  obtain ts ws t where t: "failureWrites cfg (rr_ns (rs_result s)) cl = Inr ws" "kept t" "quiet s t"
      "normalizeNextTasks ts = failureTasks sx cl"
      "failRun cfg (ne_status ?first) (sx_step sx) (ct_nodeId (ne_task ?first)) ts (pend @ ws) t = (Inr res, s')"
    using failRun_failedStep [OF assms(1,3,4)] by blast
  have same: "normalizeNextTasks (failureTasks sx cl) = failureTasks sx cl"
    unfolding failureTasks_def by (rule normalizeNextTasks_id [OF normalizeNextTasks_normal])
  from wpD_Inr [OF wp_fail_checkpoint [OF t(2)] t(5)] t(1,3,4) same assms(2) show ?thesis
    by (auto simp: quiet_def)
qed

text \<open>
  A failure at a step that already has a checkpoint of this run is not stored, and the caller
  gets a status instead of the result.
\<close>

lemma wp_initial_checkpoint:
  assumes "kept s"
    and "\<And>s'. quiet s s' \<Longrightarrow> kept s' \<Longrightarrow>
      abs (rs_saver s') (rr_threadId (rs_result s), rr_ns (rs_result s),
        checkpointIdFor (rr_runId (rs_result s)) k ''initial'' (length pend)) \<noteq> None \<Longrightarrow> Q () s'"
    and "\<And>e s'. E e s'"
  shows "wp (putCheckpoint cfg k ts writes pend ''initial'' terminal req) Q E s"
proof -
  have ckey: "ckeyOf (checkpointFor cfg s k ts writes pend ''initial'') =
      (rr_threadId (rs_result s), rr_ns (rs_result s),
       checkpointIdFor (rr_runId (rs_result s)) k ''initial'' (length pend))"
    by (simp add: checkpointFor_def Let_def ckeyOf_def)
  have "wp (emit cfg CheckpointCreated k [] p []) Q (\<lambda>e. wp (if req then slift (Inl e) else sret ()) Q E) s'"
    if "kept s'" "quiet s s'" "abs (rs_saver s') (rr_threadId (rs_result s), rr_ns (rs_result s),
        checkpointIdFor (rr_runId (rs_result s)) k ''initial'' (length pend)) \<noteq> None" for s' p
    by (rule wp_emit_silent)
      (use that in \<open>auto simp: wp_simps kept_def silent_def intro!: assms(2,3) elim: quiet_trans\<close>)
  then show ?thesis
    unfolding putCheckpoint_def wp_simps
    by (intro wp_commit_stored [OF assms(1)]) (auto simp: assms(3) shouldStore_def ckey)
qed

text \<open>The initial checkpoint takes the id of a failure at the same step.\<close>

lemma wp_beginRun_initial:
  assumes "kept s" and "rc_writeInitial cfg"
  shows "wp (beginRun cfg ts pend)
    (\<lambda>_ t. quiet s t \<and> kept t \<and> abs (rs_saver t) (rr_threadId (rs_result s), rr_ns (rs_result s),
        checkpointIdFor (rr_runId (rs_result s)) (rr_step (rs_result s)) ''failure'' n) \<noteq> None)
    (\<lambda>_ _. True) s"
proof -
  have same: "checkpointIdFor i k ''initial'' m = checkpointIdFor i k ''failure'' n" for i k m
    by (simp add: checkpointIdFor_def)
  show ?thesis
    unfolding beginRun_def failHere_def wp_simps
    by (auto simp: wp_simps assms(2) wp_True same quiet_def split: sum.split
        intro!: wp_emit_kept [OF assms(1)] wp_initial_checkpoint)
qed

lemma commit_duplicate:
  assumes "inv (rs_saver s)" and "rr_threadId (rs_result s) \<noteq> []"
    and "abs (rs_saver s) (rr_threadId (rs_result s), rr_ns (rs_result s),
           checkpointIdFor (rr_runId (rs_result s)) k source (length pend)) \<noteq> None"
    and "shouldStore cfg source terminal"
  shows "\<exists>s'. commitCheckpoint cfg k ts writes pend source terminal s =
    (err AlreadyExists ''checkpoint already exists'', s')"
proof -
  define c where "c = checkpointFor cfg s k ts writes pend source"
  have c: "cp_threadId c = rr_threadId (rs_result s)" "cp_ns c = rr_ns (rs_result s)"
      "cp_checkpointId c = checkpointIdFor (rr_runId (rs_result s)) k source (length pend)"
    by (simp_all add: c_def checkpointFor_def Let_def)
  have "fst (so_put ops c (rs_saver s)) = err AlreadyExists ''checkpoint already exists''"
    using assms(2,3) c
    by (intro put_duplicate [OF assms(1)])
      (auto simp: validateCheckpointForStore_def ckeyOf_def checkpointIdFor_def)
  then obtain sv where "so_put ops c (rs_saver s) = (err AlreadyExists ''checkpoint already exists'', sv)"
    by (metis prod.collapse)
  then show ?thesis
    using checkpointer assms(4)
    by (simp add: commitCheckpoint_def sbind_def sgets_def smodify_def onSaver_def storeCheckpoint_def flip: c_def)
qed

lemma failRun_duplicate:
  assumes "inv (rs_saver s)" and "rr_threadId (rs_result s) \<noteq> []"
    and "abs (rs_saver s) (rr_threadId (rs_result s), rr_ns (rs_result s),
           checkpointIdFor (rr_runId (rs_result s)) k ''failure'' (length pend)) \<noteq> None"
    and "withRunErrorMetadata (rr_state (rs_result s)) st node k (runStatusFromStatus st) = Inr st'"
  shows "fst (failRun cfg st k node ts pend s) = err AlreadyExists ''checkpoint already exists''"
proof -
  let ?s = "s\<lparr>rs_result := (rs_result s)\<lparr>rr_status := runStatusFromStatus st, rr_state := st'\<rparr>\<rparr>"
  have "\<exists>s'. commitCheckpoint cfg k ts' [] pend ''failure'' True ?s =
      (err AlreadyExists ''checkpoint already exists'', s')" for ts'
    using assms by (intro commit_duplicate) (auto simp: shouldStore_def)
  then obtain f where "commitCheckpoint cfg k ts' [] pend ''failure'' True ?s =
      (err AlreadyExists ''checkpoint already exists'', f ts')" for ts' by metis
  then show ?thesis
    using assms(4) by (simp add: failRun_def putCheckpoint_def sbind_def smodify_def sgets_def slift_def Let_def)
qed

lemma prepareRun_failure_lost:
  assumes "inv (rs_saver s)" and "rr_threadId (rs_result s) \<noteq> []" and "rc_writeInitial cfg"
    and "opt_command (rc_options cfg) = None" and start: "beginRun cfg ts pend s = (Inr ts', t)"
    and invalid: "validateStateSchema (rr_state (rs_result s)) (stateSchema (sg_schemas (rc_graph cfg))) ''state'' = Inl e"
    and entry: "withRunErrorMetadata (rr_state (rs_result s)) e [] (rr_step (rs_result s)) (runStatusFromStatus e) =
      Inr st'"
  shows "fst (prepareRun cfg ts' pend t) = Inl (err AlreadyExists ''checkpoint already exists'')"
proof -
  have t: "quiet s t" "inv (rs_saver t)" "abs (rs_saver t) (rr_threadId (rs_result s), rr_ns (rs_result s),
        checkpointIdFor (rr_runId (rs_result s)) (rr_step (rs_result s)) ''failure'' (length pend)) \<noteq> None"
    using wpD_Inr [OF wp_beginRun_initial start, of "length pend"] assms(1,3) by (auto simp: kept_def)
  have "fst (failRun cfg e (rr_step (rs_result t)) [] ts' pend (t\<lparr>rs_resume := []\<rparr>)) =
      err AlreadyExists ''checkpoint already exists''"
    using t assms(2) entry by (intro failRun_duplicate) (auto simp: quiet_def)
  then show ?thesis
    using t(1) assms(3,4) invalid
    by (auto simp: prepareRun_def failHere_def leave_def sbind_def smodify_def sgets_def sret_def quiet_def
        split: prod.splits)
qed

end

section \<open>The in-memory saver\<close>

definition withMemorySaver :: "(json \<Rightarrow> json \<Rightarrow> bool) \<Rightarrow> InMemorySaver run_cfg \<Rightarrow> InMemorySaver run_cfg" where
  "withMemorySaver jeq cfg = cfg\<lparr>rc_options := (rc_options cfg)\<lparr>opt_checkpointer := Some (ims_ops jeq)\<rparr>\<rparr>"

interpretation ims_run: saved_run "ims_ops jeq" ims_wf ims_abs "withMemorySaver jeq cfg" for jeq cfg
  by unfold_locales (simp add: withMemorySaver_def)

end
