(* ===== verification/Compiled.thy ===== *)
theory Compiled
  imports Run_Store
begin

text \<open>
  \<^verbatim>\<open>CompiledStateGraph\<close> of \<^verbatim>\<open>src/src/langgraph/graph/compiled_state_graph.cpp\<close>: routing, and the
  methods that start, resume, replay, read and edit a thread.  A method that runs the graph
  returns what \<^verbatim>\<open>GraphRun::run\<close> returns with the state of the checkpointer; the methods that only
  move the events of a run into a stream on another thread are not part of the model.
\<close>

section \<open>Routing\<close>

definition routeTarget ::
  "StateGraph \<Rightarrow> string \<Rightarrow> RouteTarget \<Rightarrow> CheckpointTask list \<Rightarrow> CheckpointTask list result" where
  "routeTarget g node target tasks =
     (if \<not> hasNodeOrEnd g (tg_node target)
      then err FailedPrecondition (''router returned unknown node: '' @ tg_node target)
      else if (case map_of (sg_routerDestinations g) node of
                 None \<Rightarrow> False | Some ds \<Rightarrow> ds \<noteq> [] \<and> tg_node target \<notin> set ds)
      then err FailedPrecondition
             (''router returned a node outside declared destinations: '' @ tg_node target)
      else case tg_arg target of
        None \<Rightarrow> Inr (appendPlainNode tasks (tg_node target))
      | Some arg \<Rightarrow>
          if tg_node target = END then err InvalidArgument ''Send target cannot be END''
          else Inr (appendSendTask tasks ((plainTask (tg_node target))\<lparr>ct_state := Some arg\<rparr>)))"

fun routeTargets ::
  "StateGraph \<Rightarrow> string \<Rightarrow> RouteTarget list \<Rightarrow> CheckpointTask list \<Rightarrow> CheckpointTask list result" where
  "routeTargets g node [] tasks = Inr tasks"
| "routeTargets g node (t # ts) tasks = rbind (routeTarget g node t tasks) (routeTargets g node ts)"

definition nextTasksAfter :: "StateGraph \<Rightarrow> string \<Rightarrow> json \<Rightarrow> Runtime \<Rightarrow> CheckpointTask list result" where
  "nextTasksAfter g node st rt =
     (case map_of (sg_routers g) node of
        Some router \<Rightarrow> rbind (router st rt) (\<lambda>routed. routeTargets g node routed [])
      | None \<Rightarrow>
          (case map_of (sg_edges g) node of
             None \<Rightarrow> Inr []
           | Some targets \<Rightarrow> if targets = [] then Inr [] else Inr (nextTasksFromTargets targets)))"

section \<open>Runs\<close>

text \<open>The compiled graph with what the process gives its runs.\<close>

record compiled =
  cg_graph :: StateGraph
  cg_env :: run_env

definition runConfig :: "compiled \<Rightarrow> 's RunOptions \<Rightarrow> bool \<Rightarrow> bool \<Rightarrow> 's run_cfg" where
  "runConfig cg opts writeInitial allowParent =
     \<lparr>rc_graph = cg_graph cg, rc_next = nextTasksAfter (cg_graph cg), rc_options = opts,
      rc_writeInitial = writeInitial, rc_allowParent = allowParent, rc_env = cg_env cg\<rparr>"

definition runFrom ::
  "nat \<Rightarrow> compiled \<Rightarrow> json \<Rightarrow> CheckpointTask list \<Rightarrow> CheckpointWrite list \<Rightarrow> 64 word \<Rightarrow> string option \<Rightarrow>
   's RunOptions \<Rightarrow> bool \<Rightarrow> bool \<Rightarrow> 's \<Rightarrow> nat \<Rightarrow> (RunResult result \<times> 's) option" where
  "runFrom fuel cg st ts pend step parent opts writeInitial allowParent sv tick =
     map_option (\<lambda>(r, s). (r, rs_saver s))
       (run fuel (runConfig cg opts writeInitial allowParent) st ts pend step parent sv tick)"

definition startTasks :: "StateGraph \<Rightarrow> CheckpointTask list" where
  "startTasks g =
     (case map_of (sg_edges g) START of None \<Rightarrow> [] | Some targets \<Rightarrow> nextTasksFromTargets targets)"

definition invoke ::
  "nat \<Rightarrow> compiled \<Rightarrow> json \<Rightarrow> 's RunOptions \<Rightarrow> 's \<Rightarrow> nat \<Rightarrow> (RunResult result \<times> 's) option" where
  "invoke fuel cg input opts sv tick =
     runFrom fuel cg input (startTasks (cg_graph cg)) [] 0 None opts True False sv tick"

definition stream ::
  "nat \<Rightarrow> compiled \<Rightarrow> json \<Rightarrow> 's RunOptions \<Rightarrow> 's \<Rightarrow> nat \<Rightarrow> (RunResult result \<times> 's) option" where
  "stream fuel cg input opts sv tick = invoke fuel cg input (opts\<lparr>opt_collectEvents := True\<rparr>) sv tick"

definition invokeSubgraph ::
  "nat \<Rightarrow> compiled \<Rightarrow> json \<Rightarrow> 's RunOptions \<Rightarrow> 's \<Rightarrow> nat \<Rightarrow> (RunResult result \<times> 's) option" where
  "invokeSubgraph fuel cg input opts sv tick =
     runFrom fuel cg input (startTasks (cg_graph cg)) [] 0 None opts True True sv tick"

text \<open>
  A checkpoint with pending writes was taken inside the step after the one it starts from.
\<close>

definition replayStartStep :: "Checkpoint \<Rightarrow> 64 word" where
  "replayStartStep c =
     (if cp_pendingWrites c \<noteq> [] \<and> \<not> isTerminalNextTasks (nextTasksFromCheckpoint c) \<and> 0 < cp_step c
      then cp_step c - 1 else cp_step c)"

definition stateHasInterruptMetadata :: "json \<Rightarrow> bool" where
  "stateHasInterruptMetadata st \<longleftrightarrow> jhas st kInterruptStateKey"

definition requireRunCheckpointer :: "'s RunOptions \<Rightarrow> string \<Rightarrow> 's saver_ops result" where
  "requireRunCheckpointer opts action =
     (case opt_checkpointer opts of
        None \<Rightarrow> err InvalidArgument (action @ '' requires a checkpointer'')
      | Some ops \<Rightarrow> Inr ops)"

text \<open>A record that must exist.\<close>

definition findTuple ::
  "'s saver_ops \<Rightarrow> CheckpointQuery \<Rightarrow> string \<Rightarrow> ('s, CheckpointTuple) sres" where
  "findTuple ops q missing =
     sbind (so_getTuple ops q) (\<lambda>found.
       case found of None \<Rightarrow> slift (err NotFound missing) | Some rec \<Rightarrow> sret rec)"

definition inThread :: "'s RunOptions \<Rightarrow> string \<Rightarrow> Checkpoint \<Rightarrow> 's RunOptions" where
  "inThread opts threadId c =
     opts\<lparr>opt_threadId := threadId, opt_ns := (if opt_ns opts = [] then cp_ns c else opt_ns opts)\<rparr>"

definition resume ::
  "nat \<Rightarrow> compiled \<Rightarrow> string \<Rightarrow> 's RunOptions \<Rightarrow> 's \<Rightarrow> nat \<Rightarrow> (RunResult result \<times> 's) option" where
  "resume fuel cg threadId opts sv tick =
     (if threadId = [] then Some (err InvalidArgument ''resume thread_id cannot be empty'', sv)
      else if opt_threadId opts \<noteq> [] \<and> opt_threadId opts \<noteq> threadId
      then Some (err InvalidArgument ''resume thread_id conflicts with run options thread_id'', sv)
      else case requireRunCheckpointer opts ''resume'' of
        Inl e \<Rightarrow> Some (Inl e, sv)
      | Inr ops \<Rightarrow>
          (case findTuple ops (CheckpointQuery_latest threadId (opt_ns opts))
                  ''checkpoint not found for thread'' sv of
             (Inl e, sv1) \<Rightarrow> Some (Inl e, sv1)
           | (Inr rec, sv1) \<Rightarrow>
               let c = tu_checkpoint rec; next = nextTasksFromCheckpoint c in
               if stateHasInterruptMetadata (cp_state c) \<and> \<not> isTerminalNextTasks next \<and>
                  opt_command opts = None
               then Some (err FailedPrecondition ''resume of interrupted thread requires Command::resume'', sv1)
               else if (case opt_command opts of None \<Rightarrow> False | Some cmd \<Rightarrow> cmd_resume cmd = None)
               then Some (err InvalidArgument ''unsupported resume command'', sv1)
               else runFrom fuel cg (cp_state c) next (tu_pendingWrites rec) (replayStartStep c)
                      (Some (cp_checkpointId c)) (inThread opts threadId c) False False sv1 tick))"

definition resumeStream ::
  "nat \<Rightarrow> compiled \<Rightarrow> string \<Rightarrow> 's RunOptions \<Rightarrow> 's \<Rightarrow> nat \<Rightarrow> (RunResult result \<times> 's) option" where
  "resumeStream fuel cg threadId opts sv tick =
     resume fuel cg threadId (opts\<lparr>opt_collectEvents := True\<rparr>) sv tick"

text \<open>Replay of an interrupted checkpoint without a command answers with the pause.\<close>

definition pausedAt :: "compiled \<Rightarrow> string \<Rightarrow> 's RunOptions \<Rightarrow> Checkpoint \<Rightarrow> nat \<Rightarrow> RunResult" where
  "pausedAt cg threadId opts c tick =
     \<lparr>rr_state = cp_state c,
      rr_runId = (if opt_runId opts = [] then generatedId (cg_env cg) tick ''run'' else opt_runId opts),
      rr_threadId = threadId, rr_ns = cp_ns c, rr_status = Paused, rr_step = cp_step c, rr_events = [],
      rr_parentCommand = None\<rparr>"

definition replay ::
  "nat \<Rightarrow> compiled \<Rightarrow> string \<Rightarrow> string \<Rightarrow> 's RunOptions \<Rightarrow> 's \<Rightarrow> nat \<Rightarrow> (RunResult result \<times> 's) option" where
  "replay fuel cg threadId checkpointId opts sv tick =
     (if threadId = [] then Some (err InvalidArgument ''replay thread_id cannot be empty'', sv)
      else if checkpointId = [] then Some (err InvalidArgument ''replay checkpoint_id cannot be empty'', sv)
      else if opt_threadId opts \<noteq> [] \<and> opt_threadId opts \<noteq> threadId
      then Some (err InvalidArgument ''replay thread_id conflicts with run options thread_id'', sv)
      else case requireRunCheckpointer opts ''replay'' of
        Inl e \<Rightarrow> Some (Inl e, sv)
      | Inr ops \<Rightarrow>
          (case findTuple ops (CheckpointQuery_at threadId checkpointId (opt_ns opts)) ''checkpoint not found'' sv of
             (Inl e, sv1) \<Rightarrow> Some (Inl e, sv1)
           | (Inr rec, sv1) \<Rightarrow>
               let c = tu_checkpoint rec; next = nextTasksFromCheckpoint c; opts' = inThread opts threadId c in
               if stateHasInterruptMetadata (cp_state c) \<and> \<not> isTerminalNextTasks next \<and>
                  opt_command opts = None
               then Some (Inr (pausedAt cg threadId opts c tick), sv1)
               else case so_getTuple ops (CheckpointQuery_latest threadId (opt_ns opts')) sv1 of
                 (Inl e, sv2) \<Rightarrow> Some (Inl e, sv2)
               | (Inr latest, sv2) \<Rightarrow>
                   let start = replayStartStep c;
                       start = (case latest of
                                  None \<Rightarrow> start
                                | Some l \<Rightarrow> if start \<le> cp_step (tu_checkpoint l)
                                           then cp_step (tu_checkpoint l) else start) in
                   runFrom fuel cg (cp_state c) next (tu_pendingWrites rec) start
                     (Some (cp_checkpointId c)) opts' False False sv2 tick))"

section \<open>Snapshots\<close>

record StateSnapshot =
  sn_values :: json
  sn_next :: "string list"
  sn_tasks :: "CheckpointTask list"
  sn_writes :: "CheckpointWrite list"
  sn_pendingWrites :: "CheckpointWrite list"
  sn_threadId :: string
  sn_ns :: string
  sn_checkpointId :: string
  sn_parent :: "string option"
  sn_step :: "64 word"
  sn_createdAt :: int

definition snapshotFromCheckpoint :: "Checkpoint \<Rightarrow> StateSnapshot" where
  "snapshotFromCheckpoint c =
     \<lparr>sn_values = cp_state c, sn_next = cp_nextNodes c, sn_tasks = nextTasksFromCheckpoint c,
      sn_writes = cp_writes c, sn_pendingWrites = cp_pendingWrites c, sn_threadId = cp_threadId c,
      sn_ns = cp_ns c, sn_checkpointId = cp_checkpointId c, sn_parent = cp_parent c,
      sn_step = cp_step c, sn_createdAt = cp_createdAt c\<rparr>"

definition getState :: "string \<Rightarrow> 's RunOptions \<Rightarrow> ('s, StateSnapshot) sres" where
  "getState threadId opts =
     (if threadId = [] then slift (err InvalidArgument ''getState thread_id cannot be empty'')
      else sbind (slift (requireRunCheckpointer opts ''getState'')) (\<lambda>ops.
           sbind (findTuple ops (CheckpointQuery_latest threadId (opt_ns opts))
                    ''checkpoint not found for thread'') (\<lambda>rec.
           sret (snapshotFromCheckpoint (tu_checkpoint rec)))))"

definition getStateAt :: "string \<Rightarrow> string \<Rightarrow> 's RunOptions \<Rightarrow> ('s, StateSnapshot) sres" where
  "getStateAt threadId checkpointId opts =
     (if threadId = [] then slift (err InvalidArgument ''getState thread_id cannot be empty'')
      else if checkpointId = [] then slift (err InvalidArgument ''getState checkpoint_id cannot be empty'')
      else sbind (slift (requireRunCheckpointer opts ''getState'')) (\<lambda>ops.
           sbind (findTuple ops (CheckpointQuery_at threadId checkpointId (opt_ns opts))
                    ''checkpoint not found'') (\<lambda>rec.
           sret (snapshotFromCheckpoint (tu_checkpoint rec)))))"

definition getStateHistory :: "string \<Rightarrow> 's RunOptions \<Rightarrow> ('s, StateSnapshot list) sres" where
  "getStateHistory threadId opts =
     (if threadId = [] then slift (err InvalidArgument ''getStateHistory thread_id cannot be empty'')
      else sbind (slift (requireRunCheckpointer opts ''getStateHistory'')) (\<lambda>ops.
           sbind (so_list ops
             \<lparr>lo_threadId = threadId, lo_ns = Some (opt_ns opts), lo_checkpointId = None, lo_before = None,
              lo_limit = None, lo_metadataFilter = JObj [], lo_order = NewestFirst\<rparr>) (\<lambda>records.
           sret (map (\<lambda>rec. snapshotFromCheckpoint (tu_checkpoint rec)) records))))"

section \<open>Editing the state of a thread\<close>

record StateUpdateOptions =
  uo_checkpointId :: string
  uo_asNode :: "string option"

text \<open>The step of the new checkpoint: after the base and after the latest checkpoint.\<close>

definition updateStep :: "Checkpoint \<Rightarrow> CheckpointTuple option \<Rightarrow> 64 word" where
  "updateStep base latest =
     (case latest of
        None \<Rightarrow> cp_step base + 1
      | Some l \<Rightarrow> if cp_step base + 1 \<le> cp_step (tu_checkpoint l) then cp_step (tu_checkpoint l) + 1
                 else cp_step base + 1)"

definition updatedState :: "StateGraph \<Rightarrow> ReducerRegistry \<Rightarrow> json \<Rightarrow> json \<Rightarrow> json result" where
  "updatedState g registry st update =
     rbind (withoutRunErrorMetadata st) (\<lambda>base.
     rbind (applyStateUpdate base update registry) (\<lambda>new.
     rbind (validateStateSchema new (stateSchema (sg_schemas g)) ''state'') (\<lambda>_. Inr new)))"

definition updateTasks ::
  "compiled \<Rightarrow> string \<Rightarrow> string \<Rightarrow> 64 word \<Rightarrow> Checkpoint \<Rightarrow> string option \<Rightarrow> json \<Rightarrow> nat \<Rightarrow>
   CheckpointTask list result" where
  "updateTasks cg threadId ns step base asNode new tick =
     (case asNode of
        None \<Rightarrow> Inr (nextTasksFromCheckpoint base)
      | Some node \<Rightarrow>
          rbind (validateUserNodeId node) (\<lambda>_.
          if \<not> omap_has node (sg_nodes (cg_graph cg))
          then err FailedPrecondition (''updateState asNode is unknown: '' @ node)
          else nextTasksAfter (cg_graph cg) node new
                 \<lparr>rt_runId = generatedId (cg_env cg) tick ''update-run'', rt_threadId = threadId, rt_ns = ns,
                  rt_taskId = [], rt_step = step, rt_nodeId = node, rt_resumeValue = None, rt_attempt = 1\<rparr>))"

definition updateCheckpoint ::
  "compiled \<Rightarrow> string \<Rightarrow> string \<Rightarrow> 64 word \<Rightarrow> Checkpoint \<Rightarrow> string option \<Rightarrow> json \<Rightarrow> json \<Rightarrow>
   CheckpointTask list \<Rightarrow> nat \<Rightarrow> Checkpoint" where
  "updateCheckpoint cg threadId ns step base asNode new update next tick =
     \<lparr>cp_threadId = threadId, cp_checkpointId = generatedId (cg_env cg) (Suc tick) ''update'', cp_ns = ns,
      cp_parent = Some (cp_checkpointId base), cp_step = step, cp_state = new,
      cp_nextNodes = nodeIdsFromTasks next, cp_nextTasks = next,
      cp_writes = [\<lparr>cw_taskId = [], cw_taskPath = [],
        cw_nodeId = (case asNode of None \<Rightarrow> ''__update__'' | Some node \<Rightarrow> node), cw_ns = [],
        cw_update = update, cw_order = None, cw_hasNextTasks = False, cw_nextTasks = [],
        cw_metadata = JObj []\<rparr>],
      cp_pendingWrites = [], cp_channelVersions = JObj [], cp_versionsSeen = JObj [],
      cp_updatedChannels = [], cp_metadata = JObj [],
      cp_createdAt = ev_now (rv_env (cg_env cg)) tick\<rparr>"

definition updateState ::
  "compiled \<Rightarrow> string \<Rightarrow> json \<Rightarrow> 's RunOptions \<Rightarrow> StateUpdateOptions \<Rightarrow> nat \<Rightarrow> ('s, StateSnapshot) sres" where
  "updateState cg threadId update opts uo tick =
     (if threadId = [] then slift (err InvalidArgument ''updateState thread_id cannot be empty'')
      else if opt_threadId opts \<noteq> [] \<and> opt_threadId opts \<noteq> threadId
      then slift (err InvalidArgument ''updateState thread_id conflicts with run options thread_id'')
      else
        sbind (slift (requireRunCheckpointer opts ''updateState'')) (\<lambda>ops.
        sbind (findTuple ops (if uo_checkpointId uo = [] then CheckpointQuery_latest threadId (opt_ns opts)
                 else CheckpointQuery_at threadId (uo_checkpointId uo) (opt_ns opts)) ''checkpoint not found'')
          (\<lambda>rec.
        let base = tu_checkpoint rec; ns = (if opt_ns opts = [] then cp_ns base else opt_ns opts) in
        sbind (so_getTuple ops (CheckpointQuery_latest threadId ns)) (\<lambda>latest.
        let step = updateStep base latest in
        sbind (slift (updatedState (cg_graph cg) (opt_reducers opts) (cp_state base) update)) (\<lambda>new.
        sbind (slift (updateTasks cg threadId ns step base (uo_asNode uo) new tick)) (\<lambda>next.
        sbind (slift (StateUpdate_toState update)) (\<lambda>written.
        let c = updateCheckpoint cg threadId ns step base (uo_asNode uo) new written next tick in
        sbind (so_put ops c) (\<lambda>_. sret (snapshotFromCheckpoint c)))))))))"

end
