(* ===== verification/Run_Example.thy ===== *)
theory Run_Example
  imports Compiled "HOL-Library.Code_Target_Nat" "HOL-Library.Code_Target_Int"
begin

text \<open>
  Small graphs with concrete surroundings, on which the definitions of a run are evaluated: a
  node that writes one field, a step in which one of two nodes fails, and a run whose input does
  not satisfy the state schema, all with the in-memory saver.
\<close>

definition sampleEnv :: env where
  "sampleEnv = \<lparr>ev_now = (\<lambda>t. int t + 1), ev_nextId = (\<lambda>_. Inr ''event''), ev_nextSequence = (\<lambda>_. 1),
     ev_dump = (\<lambda>_. Inr 2)\<rparr>"

definition sampleRunEnv :: run_env where
  "sampleRunEnv = \<lparr>rv_env = sampleEnv, rv_counter = (\<lambda>t. Suc t), rv_clock = (\<lambda>t. int t), rv_hardware = 4,
     rv_execute = (\<lambda>_ _. okStatus), rv_future = (\<lambda>_ _. None),
     rv_attempt = (\<lambda>_ _ _. \<lparr>ae_cancel = okStatus, ae_timedOut = False, ae_wait = okStatus\<rparr>)\<rparr>"

definition sampleHandler :: NodeHandler where
  "sampleHandler st rt = Returned (Inr (obj [(''seen'', JStr (rt_nodeId rt))])) []"

definition sampleGraph :: StateGraph where
  "sampleGraph = snd (sbind (addNode ''a'' (Some sampleHandler) defaultNodeOptions) (\<lambda>_.
     sbind (setEntryPoint ''a'') (\<lambda>_. setFinishPoint ''a'')) emptyGraph)"

definition sampleCompiled :: compiled where
  "sampleCompiled = \<lparr>cg_graph = sampleGraph, cg_env = sampleRunEnv\<rparr>"

definition sampleOptions :: "InMemorySaver RunOptions" where
  "sampleOptions = defaultRunOptions\<lparr>opt_runId := ''r'', opt_threadId := ''t'',
     opt_checkpointer := Some (ims_ops (=))\<rparr>"

definition sampleConfig :: "InMemorySaver run_cfg" where
  "sampleConfig = runConfig sampleCompiled sampleOptions True False"

definition sampleRun :: "(RunResult result \<times> InMemorySaver run_state) option" where
  "sampleRun = run 3 sampleConfig (JObj []) (startTasks sampleGraph) [] 0 None emptySaver 0"

lemma sampleRun_completed:
  "(case sampleRun of Some (Inr r, s) \<Rightarrow> rr_status r = Completed \<and> rr_step r = 1 \<and>
      rr_state r = obj [(''seen'', JStr ''a'')] | _ \<Rightarrow> False)"
  by code_simp

lemma sampleConfig_saver: "withMemorySaver (=) sampleConfig = sampleConfig"
  by (simp add: withMemorySaver_def sampleConfig_def runConfig_def sampleOptions_def)

lemma sampleRun_saver:
  "sampleRun = run 3 (withMemorySaver (=) sampleConfig) (JObj []) (startTasks sampleGraph) [] 0 None emptySaver 0"
  by (simp only: sampleRun_def sampleConfig_saver)

lemma sampleRun_returns:
  "\<exists>res s'. sampleRun = Some (Inr res, s') \<and> rr_status res = Completed \<and> rr_step res = 1"
  using sampleRun_completed by (auto split: option.splits sum.splits prod.splits)

section \<open>A step with a failed task\<close>

definition failHandler :: NodeHandler where
  "failHandler st rt = Returned (Inl (mkStatus Unavailable ''no model'')) []"

definition failGraph :: StateGraph where
  "failGraph = snd (sbind (addNode ''a'' (Some sampleHandler) defaultNodeOptions) (\<lambda>_.
     sbind (addNode ''b'' (Some failHandler) defaultNodeOptions) (\<lambda>_.
     sbind (setEntryPoint ''a'') (\<lambda>_. setEntryPoint ''b''))) emptyGraph)"

text \<open>Only an event type that a run does not emit is selected.\<close>

definition failConfig :: "InMemorySaver run_cfg" where
  "failConfig = runConfig \<lparr>cg_graph = failGraph, cg_env = sampleRunEnv\<rparr>
     (sampleOptions\<lparr>opt_eventTypes := [ToolCallStarted]\<rparr>) True False"

definition failState :: "InMemorySaver run_state" where
  "failState = initialRunState failConfig (JObj []) 0 None emptySaver 0"

definition failHead :: "(RunResult result + step_ctx) \<times> InMemorySaver run_state" where
  "failHead = stepHead failConfig (startTasks failGraph) [] failState"

definition failClassified :: "step_ctx \<Rightarrow> InMemorySaver run_state \<Rightarrow> classified" where
  "failClassified sx t = classify (rc_allowParent failConfig) (dispatchExecutions failConfig (rs_result t)
     (rs_resume t) (sx_active sx) (sx_input sx) (sx_step sx))"

lemma failHead_failed:
  "(case failHead of (Inr sx, t) \<Rightarrow> cl_failed (failClassified sx t) = [1] \<and>
      cl_interrupts (failClassified sx t) = [] | _ \<Rightarrow> False)"
  by code_simp

lemma failStep_failed:
  "(case superStep failConfig (startTasks failGraph) [] failState of
      (Inl (Inr res), s) \<Rightarrow> rr_status res = RunFailedStatus | _ \<Rightarrow> False)"
  by code_simp

section \<open>An input outside the state schema\<close>

definition strictConfig :: "InMemorySaver run_cfg" where
  "strictConfig = runConfig \<lparr>cg_graph = setStateSchema (\<lambda>st. if jhas st ''seen'' then okStatus
       else mkStatus InvalidArgument ''seen is required'') sampleGraph, cg_env = sampleRunEnv\<rparr>
     (sampleOptions\<lparr>opt_eventTypes := [ToolCallStarted]\<rparr>) True False"

lemma strictRun_begins:
  "(case beginRun strictConfig (normalizeNextTasks (startTasks sampleGraph)) []
      (initialRunState strictConfig (JObj []) 0 None emptySaver 0) of (Inr ts, t) \<Rightarrow> True | _ \<Rightarrow> False)"
  by code_simp

section \<open>Writes of a failed step\<close>

definition failTasks :: "classified \<Rightarrow> CheckpointTask list" where
  "failTasks cl = normalizeNextTasks (map (\<lambda>i. ne_task (cl_execs cl ! i)) (cl_failed cl))"

lemma failHead_pending:
  "(case failHead of (Inr sx, t) \<Rightarrow> failTasks (failClassified sx t) \<noteq> [] \<and>
      (case sfold (pendingAfterFailure failConfig (sx_step sx) (failTasks (failClassified sx t)))
              (cl_execs (failClassified sx t)) [] t of
         (Inr pend, _) \<Rightarrow> map cw_nodeId pend = [''a''] | _ \<Rightarrow> False) | _ \<Rightarrow> False)"
  by code_simp

lemma failHead_returns:
  "(case failHead of (Inr sx, t) \<Rightarrow>
      (case failedStep failConfig sx (failClassified sx t) [] t
         :: (RunResult result + CheckpointTask list) \<times> InMemorySaver run_state of
         (Inl (Inr res), _) \<Rightarrow> rr_status res = RunFailedStatus | _ \<Rightarrow> False) | _ \<Rightarrow> False)"
  by code_simp

end
