(* ===== verification/Subgraph.thy ===== *)
theory Subgraph
  imports Compiled Run_Props
begin

text \<open>
  Graphs as nodes of other graphs (\<^verbatim>\<open>src/src/langgraph/graph/state_graph.cpp\<close>, \<^verbatim>\<open>addSubgraph\<close> and
  \<^verbatim>\<open>makeSubgraphNodeHandler\<close>) and the event writer of a handler
  (\<^verbatim>\<open>src/src/langgraph/runtime/runtime.cpp\<close>).  The handler of a subgraph runs the child graph on the
  state of its parent and turns the result into a node output.  It works on the state of the saver
  that the child stores its checkpoints in.  The lemmas show that the handler returns, that merging
  its update gives the fields of the child's state, and that a failure of the child keeps its status
  code.
\<close>

section \<open>Events from a handler\<close>

definition putAbsent :: "string \<Rightarrow> json \<Rightarrow> json \<Rightarrow> json" where
  "putAbsent key v p = (if jhas p key then p else jput p key v)"

text \<open>A publisher answers an event at a tick; a writer without one accepts everything.\<close>

type_synonym publisher = "nat \<Rightarrow> RuntimeEvent \<Rightarrow> status"

definition StreamWriter_publish :: "Runtime \<Rightarrow> publisher option \<Rightarrow> publisher" where
  "StreamWriter_publish rt pub tick ev =
     (let ev = ev\<lparr>re_runId := (if re_runId ev = [] then rt_runId rt else re_runId ev),
                  re_threadId := (if re_threadId ev = [] then rt_threadId rt else re_threadId ev),
                  re_step := (if re_step ev = 0 then rt_step rt else re_step ev),
                  re_node := (if re_node ev = [] then rt_nodeId rt else re_node ev)\<rparr>;
          ev = (if rt_ns rt \<noteq> [] \<and> is_object (re_payload ev)
                then ev\<lparr>re_payload := putAbsent ''checkpoint_ns'' (JStr (rt_ns rt))
                       (putAbsent ''ns'' (JStr (rt_ns rt)) (re_payload ev))\<rparr>
                else ev) in
      case pub of None \<Rightarrow> okStatus | Some p \<Rightarrow> p tick ev)"

definition StreamWriter_write ::
  "env \<Rightarrow> Runtime \<Rightarrow> publisher option \<Rightarrow> nat \<Rightarrow> string \<Rightarrow> json \<Rightarrow> string \<Rightarrow> status" where
  "StreamWriter_write ev rt pub tick name payload message =
     StreamWriter_publish rt pub tick
       ((RuntimeEvent_create ev tick Custom)\<lparr>re_name := name, re_payload := payload, re_message := message\<rparr>)"

section \<open>Namespaces and differences\<close>

definition joinCheckpointNamespace :: "string \<Rightarrow> string \<Rightarrow> string" where
  "joinCheckpointNamespace parent child =
     (let child = (if child = [] then ''subgraph'' else child) in
      if parent = [] then child else parent @ ''|'' @ child)"

definition checkpointNamespaceWithTask :: "string \<Rightarrow> string \<Rightarrow> string" where
  "checkpointNamespaceWithTask ns taskId = (if taskId = [] then ns else ns @ '':'' @ taskId)"

text \<open>\<open>jeq\<close> is the comparison of JSON values.\<close>

definition stateDiffUpdate :: "(json \<Rightarrow> json \<Rightarrow> bool) \<Rightarrow> json \<Rightarrow> json \<Rightarrow> json result" where
  "stateDiffUpdate jeq before after =
     (let diff = fold (\<lambda>(k, v) d. if jhas before k \<and> jeq (jat before k) v then d else jput d k v)
            (jitems after) (JObj []);
          diff = fold (\<lambda>(k, v) d. if jhas after k then d else jput d k JNull) (jitems before) diff in
      StateUpdate_fromJsonValue diff)"

definition statusCodeFromName :: "string \<Rightarrow> status_code" where
  "statusCodeFromName name =
     (case find (\<lambda>code. statusCodeName code = name)
        [Cancelled, Unknown, InvalidArgument, DeadlineExceeded, NotFound, AlreadyExists,
         PermissionDenied, ResourceExhausted, FailedPrecondition, Aborted, OutOfRange,
         Unimplemented, Internal, Unavailable, DataLoss, Unauthenticated] of
        None \<Rightarrow> Unknown | Some code \<Rightarrow> code)"

definition statusFromFailedSubgraphRun :: "RunResult \<Rightarrow> status" where
  "statusFromFailedSubgraphRun child =
     (let view = rr_state child;
          error = (if jhas view ''__run_error__'' then jat view ''__run_error__'' else JNull);
          field = (\<lambda>key dflt. if is_object error \<and> jhas error key \<and> is_string (jat error key)
                              then str_of (jat error key) else dflt);
          message = field ''message'' ''subgraph run failed'';
          codeName = field ''code'' [] in
      if rr_status child = RunCancelled then mkStatus Cancelled message
      else if rr_status child = MaxStepsExceeded
      then mkStatus ResourceExhausted (if message = [] then ''subgraph exceeded max steps'' else message)
      else if codeName \<noteq> [] then mkStatus (statusCodeFromName codeName) message
      else mkStatus FailedPrecondition message)"

section \<open>The handler of a subgraph\<close>

datatype SubgraphPersistenceMode = PerInvocation | PerThread | Stateless

record 's SubgraphOptions =
  so_options :: "'s RunOptions"
  so_inheritThreadId :: bool
  so_threadIdSuffix :: string
  so_persistence :: SubgraphPersistenceMode
  so_ns :: string

text \<open>The run and the step of the parent tell one invocation from another.\<close>

definition childNamespaceFor :: "'s SubgraphOptions \<Rightarrow> Runtime \<Rightarrow> string" where
  "childNamespaceFor so rt =
     (let base = (if so_ns so = [] then rt_nodeId rt else so_ns so);
          base = (if so_persistence so = PerInvocation
                  then checkpointNamespaceWithTask base (rt_runId rt @ ''-'' @ to_string (unat (rt_step rt)))
                  else base) in
      joinCheckpointNamespace (rt_ns rt) base)"

definition childThreadFor :: "'s SubgraphOptions \<Rightarrow> Runtime \<Rightarrow> string" where
  "childThreadFor so rt =
     (if opt_threadId (so_options so) = [] \<and> so_inheritThreadId so
      then rt_threadId rt @ ''/'' @ rt_nodeId rt @
        (if so_threadIdSuffix so = [] then [] else ''/'' @ so_threadIdSuffix so) @
        (if so_persistence so = PerInvocation
         then ''/'' @ rt_runId rt @ ''-'' @ to_string (unat (rt_step rt)) else [])
      else opt_threadId (so_options so))"

text \<open>What the handler adds to the payload of an event of the child before the parent publishes it.\<close>

definition childPayload :: "Runtime \<Rightarrow> string \<Rightarrow> json \<Rightarrow> json" where
  "childPayload rt ns p =
     (if \<not> is_object p then p
      else
        let run = JStr (rt_runId rt);
            p = putAbsent ''parent_node'' (JStr (rt_nodeId rt))
                 (putAbsent ''parent_thread_id'' (JStr (rt_threadId rt))
                 (putAbsent ''parent_run_id'' run
                 (putAbsent ''checkpoint_ns'' (JStr ns) (putAbsent ''ns'' (JStr ns) p))));
            others = (if jhas p ''parent_ids'' \<and> is_array (jat p ''parent_ids'')
                      then filter (\<lambda>x. is_string x \<and> x \<noteq> run) (jelems (jat p ''parent_ids''))
                      else if is_string (jat p ''parent_run_id'') \<and> jat p ''parent_run_id'' \<noteq> run
                      then [jat p ''parent_run_id''] else []);
            p = jput p ''parent_ids'' (JArr (run # others));
            segments = [rt_ns rt, ns] @
              (if jhas p ''trace_path'' \<and> is_array (jat p ''trace_path'')
               then map str_of (filter is_string (jelems (jat p ''trace_path''))) else []);
            path = foldl (\<lambda>path s. if s = [] \<or> s \<in> set path then path else path @ [s]) [] segments;
            p = jput p ''trace_path'' (JArr (map JStr path)) in
        jput p ''namespace'' (namespacePathFromString
          (if is_string (jat p ''checkpoint_ns'') then str_of (jat p ''checkpoint_ns'') else ns)))"

definition childEventCallback ::
  "Runtime \<Rightarrow> publisher option \<Rightarrow> string \<Rightarrow> publisher option \<Rightarrow> publisher" where
  "childEventCallback rt pub ns callback tick ev =
     (let s = (case callback of None \<Rightarrow> okStatus | Some c \<Rightarrow> c tick ev) in
      if \<not> isOk s then s
      else StreamWriter_publish rt pub tick (ev\<lparr>re_payload := childPayload rt ns (re_payload ev)\<rparr>))"

text \<open>The options of the child run; \<open>ck\<close> is the saver of the parent.\<close>

definition childRunOptions ::
  "'s SubgraphOptions \<Rightarrow> 's saver_ops option \<Rightarrow> publisher option \<Rightarrow> Runtime \<Rightarrow> 's RunOptions" where
  "childRunOptions so ck pub rt =
     (let opts = so_options so; ns = childNamespaceFor so rt; own = ''subgraph:'' @ rt_nodeId rt in
      opts\<lparr>opt_ns := ns,
        opt_threadId := childThreadFor so rt,
        opt_checkpointer := (if so_persistence so = Stateless then None
                             else case opt_checkpointer opts of None \<Rightarrow> ck | Some c \<Rightarrow> Some c),
        opt_command := (case rt_resumeValue rt of
                          None \<Rightarrow> opt_command opts
                        | Some v \<Rightarrow> Some (Command_resume
                            (if is_object v \<and> jhas v own then jat v own else v) (JObj []))),
        opt_eventCallback := Some (childEventCallback rt pub ns (opt_eventCallback opts))\<rparr>)"

definition subgraphOutput ::
  "(json \<Rightarrow> json \<Rightarrow> bool) \<Rightarrow> Runtime \<Rightarrow> json \<Rightarrow> RunResult \<Rightarrow> NodeOutput result" where
  "subgraphOutput jeq rt st child =
     (if rr_status child \<in> {RunFailedStatus, RunCancelled, MaxStepsExceeded}
      then errorResult (statusFromFailedSubgraphRun child)
      else rbind (stateDiffUpdate jeq st (rr_state child)) (\<lambda>diff.
        if rr_status child = Paused
        then Inr (NodeOutput_interrupt
          \<lparr>in_id = ''subgraph:'' @ rt_nodeId rt, in_value = rr_state child, in_resumeValues = JObj []\<rparr> diff)
        else case rr_parentCommand child of
          Some c \<Rightarrow> Inr (NodeOutput_command (Command_gotoNodes (cmd_goto c) diff))
        | None \<Rightarrow> Inr (NodeOutput_update diff)))"

text \<open>The fuel is one more than the step limit of the child, with which its run returns.\<close>

definition makeSubgraphNodeHandler ::
  "(json \<Rightarrow> json \<Rightarrow> bool) \<Rightarrow> compiled \<Rightarrow> 's SubgraphOptions \<Rightarrow> 's saver_ops option \<Rightarrow> publisher option \<Rightarrow>
   nat \<Rightarrow> json \<Rightarrow> Runtime \<Rightarrow> 's \<Rightarrow> (NodeOutput result \<times> 's) option" where
  "makeSubgraphNodeHandler jeq cg so ck pub tick st rt sv =
     (let opts = childRunOptions so ck pub rt in
      map_option (\<lambda>(r, sv'). (rbind r (subgraphOutput jeq rt st), sv'))
        (invokeSubgraph (Suc (stepBound (opt_limits opts))) cg st opts sv tick))"

section \<open>The handler returns\<close>

lemma subgraph_handler_returns:
  "\<exists>r sv'. makeSubgraphNodeHandler jeq cg so ck pub tick st rt sv = Some (r, sv')"
proof -
  let ?opts = "childRunOptions so ck pub rt"
  have "\<exists>r s'. run (Suc (stepBound (opt_limits ?opts))) (runConfig cg ?opts True True) st
      (startTasks (cg_graph cg)) [] 0 None sv tick = Some (r, s')"
    by (rule run_returns) (simp add: runConfig_def)
  then show ?thesis
    by (auto simp: makeSubgraphNodeHandler_def invokeSubgraph_def runFrom_def Let_def)
qed

section \<open>Merging the difference\<close>

lemma fold_jput:
  assumes "is_object d" and "distinct (map fst kvs)"
  shows "is_object (fold (\<lambda>(k, v) d. if P k v then d else jput d k (f v)) kvs d) \<and>
    jget (fold (\<lambda>(k, v) d. if P k v then d else jput d k (f v)) kvs d) k =
      (case map_of kvs k of
         Some v \<Rightarrow> if P k v then jget d k else Some (f v)
       | None \<Rightarrow> jget d k)"
  using assms
proof (induction kvs arbitrary: d)
  case (Cons kv kvs)
  obtain j v where kv: "kv = (j, v)" by (cases kv)
  have "map_of kvs j = None" using Cons.prems(2) by (auto simp: kv map_of_eq_None_iff)
  with Cons.prems Cons.IH [of d] Cons.IH [of "jput d j (f v)"] show ?case
    by (auto simp: kv split: option.splits)
qed simp

lemma fold_jput_wf:
  assumes "json_wf d" and "\<forall>(k, v) \<in> set kvs. json_wf (f v)"
  shows "json_wf (fold (\<lambda>(k, v) d. if P k v then d else jput d k (f v)) kvs d)"
  using assms by (induction kvs arbitrary: d) auto

lemma stateDiffUpdate_fields:
  assumes "stateDiffUpdate jeq before after = Inr u" and "is_object before" "is_object after"
    and "json_wf before" "json_wf after"
  shows "json_wf u" and "jget u k =
    (case jget after k of
       Some v \<Rightarrow> if jhas before k \<and> jeq (jat before k) v then None else Some v
     | None \<Rightarrow> if jhas before k then Some JNull else None)"
proof -
  obtain bs as where objs: "before = JObj bs" "after = JObj as" using assms(2,3) by (auto simp: is_object_iff)
  have get: "jget before = map_of bs" "jget after = map_of as" by (rule ext, simp add: objs jget_def)+
  define d1 where "d1 = fold (\<lambda>(k, v) d. if jhas before k \<and> jeq (jat before k) v then d else jput d k v) as (JObj [])"
  have u: "u = fold (\<lambda>(k, v) d. if jhas after k then d else jput d k JNull) bs d1"
    using assms(1) by (simp add: stateDiffUpdate_def Let_def StateUpdate_fromJsonValue_Inr objs d1_def)
  have dist: "distinct (map fst as)" "distinct (map fst bs)"
    using assms(4,5) by (simp_all add: objs omap_wf_def)
  have d1: "is_object d1" "jget d1 k = (case map_of as k of
      Some v \<Rightarrow> if jhas before k \<and> jeq (jat before k) v then None else Some v | None \<Rightarrow> None)" for k
    unfolding d1_def using fold_jput [OF _ dist(1), of "JObj []" "\<lambda>k v. jhas before k \<and> jeq (jat before k) v" "\<lambda>v. v" k]
    by (auto simp: jget_def split: option.splits)
  have "json_wf d1"
    unfolding d1_def using assms(5) by (intro fold_jput_wf [where f = "\<lambda>v. v"]) (auto simp: objs)
  then show "json_wf u"
    unfolding u by (intro fold_jput_wf [where f = "\<lambda>_. JNull"]) auto
  show "jget u k = (case jget after k of
       Some v \<Rightarrow> if jhas before k \<and> jeq (jat before k) v then None else Some v
     | None \<Rightarrow> if jhas before k then Some JNull else None)"
    using fold_jput [OF d1(1) dist(2), of "\<lambda>k v. jhas after k" "\<lambda>_. JNull" k]
    by (auto simp: u d1(2) get jhas_def split: option.splits)
qed

text \<open>
  With reducers that overwrite, the parent's fields after the merge are those of the child; a field
  that the child has removed is null.
\<close>

definition overwrites :: "ReducerRegistry \<Rightarrow> bool" where
  "overwrites r \<longleftrightarrow> (\<forall>k. customReducerFor r k = None \<and> reducerFor r k = Overwrite)"

lemma overwrites_empty: "overwrites emptyRegistry"
  by (simp add: overwrites_def emptyRegistry_def customReducerFor_def reducerFor_def)

lemma subgraph_update_merged:
  assumes "subgraphOutput jeq rt st child = Inr out"
    and "is_object st" "json_wf st" "is_object (rr_state child)" "json_wf (rr_state child)"
    and "\<forall>k v. jget (rr_state child) k = Some v \<longrightarrow> \<not> isOverwriteJson v"
    and "applyStateUpdate st (no_update out) r = Inr st'" and "overwrites r"
  shows "jget st' k =
    (case jget (rr_state child) k of
       Some v \<Rightarrow> if jhas st k \<and> jeq (jat st k) v then jget st k else Some v
     | None \<Rightarrow> if jhas st k then Some JNull else None)"
proof -
  have u: "stateDiffUpdate jeq st (rr_state child) = Inr (no_update out)"
    using assms(1) by (auto simp: subgraphOutput_def NodeOutput_interrupt_def NodeOutput_command_def
        NodeOutput_update_def Command_gotoNodes_def result_simps split: if_splits option.splits)
  note fields = stateDiffUpdate_fields [OF u assms(2,4,3,5)]
  have red: "reduceField r k c v = Inr v" if "\<not> isOverwriteJson v" for c v
    using assms(8) that by (simp add: reduceField_def overwrites_def)
  have "\<not> isOverwriteJson JNull" by (simp add: isOverwriteJson_def)
  moreover have "case jget (no_update out) k of None \<Rightarrow> jget st' k = jget st k
      | Some v \<Rightarrow> \<exists>x. reduceField r k (jat st k) v = Inr x \<and> jget st' k = Some x"
    using applyStateUpdate_Inr [OF assms(2) fields(1) assms(7)] by blast
  ultimately show ?thesis
    using assms(6) by (auto simp: fields(2) red jhas_def split: option.splits if_splits)
qed

text \<open>The output of the handler is that of the child run.\<close>

lemma subgraph_handler_child:
  assumes "makeSubgraphNodeHandler jeq cg so ck pub tick st rt sv = Some (Inr out, sv')"
    and "invokeSubgraph (Suc (stepBound (opt_limits (so_options so)))) cg st (childRunOptions so ck pub rt) sv tick =
      Some (r, sv'')"
  shows "\<exists>child. r = Inr child \<and> sv' = sv'' \<and> subgraphOutput jeq rt st child = Inr out"
proof -
  have "opt_limits (childRunOptions so ck pub rt) = opt_limits (so_options so)"
    by (simp add: childRunOptions_def Let_def)
  with assms show ?thesis
    by (cases r) (auto simp: makeSubgraphNodeHandler_def Let_def)
qed

lemma subgraph_handler_output:
  assumes "invokeSubgraph (Suc (stepBound (opt_limits (so_options so)))) cg st (childRunOptions so ck pub rt) sv tick =
      Some (Inr child, sv')"
    and "subgraphOutput jeq rt st child = Inr out"
  shows "makeSubgraphNodeHandler jeq cg so ck pub tick st rt sv = Some (Inr out, sv')"
proof -
  have "opt_limits (childRunOptions so ck pub rt) = opt_limits (so_options so)"
    by (simp add: childRunOptions_def Let_def)
  with assms show ?thesis by (simp add: makeSubgraphNodeHandler_def Let_def)
qed

lemma subgraphOutput_status:
  assumes "subgraphOutput jeq rt st child = Inr out"
  shows "rr_status child \<in> {Completed, Paused} \<and> (no_interrupt out = None \<longleftrightarrow> rr_status child = Completed)"
  using assms
  by (cases "rr_status child") (auto simp: subgraphOutput_def NodeOutput_interrupt_def NodeOutput_command_def
      NodeOutput_update_def errorResult_def result_simps split: option.splits)

lemma subgraph_merge:
  assumes "makeSubgraphNodeHandler jeq cg so ck pub tick st rt sv = Some (Inr out, sv')"
    and "invokeSubgraph (Suc (stepBound (opt_limits (so_options so)))) cg st (childRunOptions so ck pub rt) sv tick =
      Some (Inr child, sv'')"
    and "is_object st" "json_wf st" "is_object (rr_state child)" "json_wf (rr_state child)"
    and "\<forall>k v. jget (rr_state child) k = Some v \<longrightarrow> \<not> isOverwriteJson v"
    and "overwrites r" and "applyStateUpdate st (no_update out) r = Inr st'"
  shows "rr_status child \<in> {Completed, Paused} \<and> (no_interrupt out = None \<longleftrightarrow> rr_status child = Completed) \<and>
    (\<forall>k. jget st' k =
      (case jget (rr_state child) k of
         Some v \<Rightarrow> if jhas st k \<and> jeq (jat st k) v then jget st k else Some v
       | None \<Rightarrow> if jhas st k then Some JNull else None))"
proof -
  have out: "subgraphOutput jeq rt st child = Inr out" using subgraph_handler_child [OF assms(1,2)] by simp
  with subgraphOutput_status [OF out] subgraph_update_merged [OF out assms(3-7,9,8)] show ?thesis by blast
qed

section \<open>The status of a failed child\<close>

lemma statusCodeFromName_name: "code \<noteq> Ok \<Longrightarrow> statusCodeFromName (statusCodeName code) = code"
  by (cases code) (simp_all add: statusCodeFromName_def)

text \<open>
  A child that failed with a status gives the handler the same code, with the rendered status as
  its message.
\<close>

lemma failed_child_status:
  assumes "withRunErrorMetadata st status node step (runStatusFromStatus status) = Inr (rr_state child)"
    and "rr_status child = runStatusFromStatus status" and "is_object st" and "st_code status \<noteq> Ok"
  shows "statusFromFailedSubgraphRun child = mkStatus (st_code status) (statusToString status)"
proof -
  let ?error = "obj [(''code'', JStr (statusCodeName (st_code status))), (''message'', JStr (statusToString status)),
    (''node'', JStr node), (''step'', JUint step), (''status'', JStr (runErrorStatusName (runStatusFromStatus status)))]"
  have "rr_state child = jput st kRunErrorStateKey ?error"
    using assms(1) by (auto simp: withRunErrorMetadata_def State_fromJsonValue_Inr)
  then have error: "jget (rr_state child) ''__run_error__'' = Some ?error"
    using assms(3) by (simp add: kRunErrorStateKey_def)
  have fields: "jget ?error ''code'' = Some (JStr (statusCodeName (st_code status)))"
    "jget ?error ''message'' = Some (JStr (statusToString status))" by (simp_all add: obj_def jget_def)
  have "statusToString status \<noteq> []" "statusCodeName (st_code status) \<noteq> []"
    using assms(4) by (cases "st_code status"; simp add: statusToString_def)+
  then show ?thesis
    using assms(2,4) error fields statusCodeFromName_name [OF assms(4)]
    by (auto simp: statusFromFailedSubgraphRun_def Let_def jhas_def jat_def runStatusFromStatus_def)
qed

end
