(* ===== verification/Compiled_Props.thy ===== *)
theory Compiled_Props
  imports Compiled
begin

text \<open>
  Properties of \<^verbatim>\<open>CompiledStateGraph\<close>: routing stays inside a valid graph, a run can be read back from the
  checkpointer, and an edit of a thread becomes its latest state.
\<close>

section \<open>Routing\<close>

lemma routeTarget_append:
  assumes "routeTarget g node t tasks = Inr ts"
  shows "\<exists>u. ts = appendTask tasks u \<and> (endTarget (ct_nodeId u) \<or> omap_has (ct_nodeId u) (sg_nodes g))"
proof (cases "tg_arg t")
  case None
  with assms have "ts = appendTask tasks (plainTask (tg_node t))" "hasNodeOrEnd g (tg_node t)"
    by (auto simp: routeTarget_def appendTask_def appendPlainNode_def plainTask_def split: if_splits)
  then show ?thesis by (auto simp: hasNodeOrEnd_def endTarget_def plainTask_def)
next
  case (Some arg)
  with assms have "ts = appendTask tasks ((plainTask (tg_node t))\<lparr>ct_state := Some arg\<rparr>)" "hasNodeOrEnd g (tg_node t)"
    by (auto simp: routeTarget_def appendTask_def split: if_splits)
  then show ?thesis by (auto simp: hasNodeOrEnd_def endTarget_def plainTask_def)
qed

lemma set_appendTask: "set (appendTask ts u) \<subseteq> set ts \<union> (if endTarget (ct_nodeId u) then {} else {u})"
  by (auto simp: appendTask_def appendPlainTask_def appendSendTask_def)

lemma routeTargets_inside:
  assumes "routeTargets g node targets tasks = Inr ts" and "tasks_normal tasks"
    and "ct_nodeId ` set tasks \<subseteq> {n. omap_has n (sg_nodes g)}"
  shows "tasks_normal ts \<and> ct_nodeId ` set ts \<subseteq> {n. omap_has n (sg_nodes g)}"
  using assms
proof (induction targets arbitrary: tasks)
  case (Cons t targets)
  obtain ts1 where one: "routeTarget g node t tasks = Inr ts1" and rest: "routeTargets g node targets ts1 = Inr ts"
    using Cons.prems(1) by (auto simp: result_simps)
  obtain u where u: "ts1 = appendTask tasks u" "endTarget (ct_nodeId u) \<or> omap_has (ct_nodeId u) (sg_nodes g)"
    using routeTarget_append [OF one] by blast
  have "tasks_normal ts1" using u(1) Cons.prems(2) by (simp add: appendTask_normal)
  moreover have "ct_nodeId ` set ts1 \<subseteq> {n. omap_has n (sg_nodes g)}"
  proof (cases "endTarget (ct_nodeId u)")
    case True
    then have "set ts1 \<subseteq> set tasks" using u(1) set_appendTask [of tasks u] by simp
    then show ?thesis using Cons.prems(3) by blast
  next
    case False
    then have "set ts1 \<subseteq> insert u (set tasks)" using u(1) set_appendTask [of tasks u] by auto
    then show ?thesis using Cons.prems(3) u(2) False by blast
  qed
  ultimately show ?case by (rule Cons.IH [OF rest])
qed simp

lemma nextTasksFromTargets_nodes: "ct_nodeId ` set (nextTasksFromTargets targets) \<subseteq> set targets - {END, []}"
proof -
  have step: "A \<subseteq> B \<union> (T - X) \<Longrightarrow> B \<subseteq> D \<union> ({n} - X) \<Longrightarrow> A \<subseteq> D \<union> (insert n T - X)"
    for A B D T X :: "string set" and n by blast
  have "ct_nodeId ` set (foldl appendPlainNode ts targets) \<subseteq> ct_nodeId ` set ts \<union> (set targets - {END, []})" for ts
  proof (induction targets arbitrary: ts)
    case (Cons n targets)
    have one: "ct_nodeId ` set (appendPlainNode ts n) \<subseteq> ct_nodeId ` set ts \<union> ({n} - {END, []})"
      by (auto simp: appendPlainNode_def appendPlainTask_def endTarget_def plainTask_def)
    show ?case unfolding foldl_Cons list.set by (rule step [OF Cons.IH one])
  qed simp
  from this [of "[]"] show ?thesis by (simp add: nextTasksFromTargets_def)
qed

text \<open>
  In a graph that passed \<^verbatim>\<open>validate\<close> routing returns tasks of nodes of the graph, without END and
  without repeated plain tasks.
\<close>

lemma nextTasksAfter_inside:
  assumes "declarations_ok g" and "nextTasksAfter g node st rt = Inr ts"
  shows "tasks_normal ts \<and> ct_nodeId ` set ts \<subseteq> {n. omap_has n (sg_nodes g)}"
proof (cases "map_of (sg_routers g) node")
  case (Some router)
  with assms(2) obtain targets where "routeTargets g node targets [] = Inr ts"
    by (auto simp: nextTasksAfter_def result_simps)
  then show ?thesis by (rule routeTargets_inside) (simp_all add: tasks_normal_def)
next
  case None
  show ?thesis
  proof (cases "ts = []")
    case False
    with None assms(2) obtain targets where t: "map_of (sg_edges g) node = Some targets" "ts = nextTasksFromTargets targets"
      by (auto simp: nextTasksAfter_def split: option.splits if_splits)
    then have "(node, targets) \<in> set (sg_edges g)" by (simp add: map_of_SomeD)
    with assms(1) have "edge_ok g node targets" by (auto simp: declarations_ok_def)
    then have "set targets - {END, []} \<subseteq> {n. omap_has n (sg_nodes g)}"
      by (auto simp: edge_ok_def hasNodeOrEnd_def)
    then show ?thesis using nextTasksFromTargets_nodes [of targets] nextTasksFromTargets_normal t(2) by blast
  qed (simp add: tasks_normal_def)
qed

section \<open>Reading a run back\<close>

lemma threadId_nonempty:
  assumes "run fuel cfg st ts pend step parent sv tick = Some (r, s')"
  shows "rr_threadId (rs_result s') \<noteq> []"
  using sameIds.run_framed [OF assms]
  by (auto simp: sameIds_def initialRunState_def Let_def generatedId_def)

context saver
begin

lemma getStateAt_found:
  assumes "inv sv" and "opt_checkpointer opts = Some ops" and "t \<noteq> []" and "i \<noteq> []"
    and "abs sv (t, opt_ns opts, i) = Some c"
  shows "\<exists>snap. fst (getStateAt t i opts sv) = Inr snap \<and>
    snap\<lparr>sn_pendingWrites := cp_pendingWrites c\<rparr> = snapshotFromCheckpoint c"
proof -
  obtain rec where rec: "fst (so_getTuple ops (CheckpointQuery_at t i (opt_ns opts)) sv) = Inr (Some rec)"
      "sameCheckpoint (tu_checkpoint rec) c"
    using getTuple_at [OF assms(1,3,4), of "opt_ns opts"] assms(5) by auto
  then obtain sv' where "so_getTuple ops (CheckpointQuery_at t i (opt_ns opts)) sv = (Inr (Some rec), sv')"
    by (metis prod.collapse)
  then have "fst (getStateAt t i opts sv) = Inr (snapshotFromCheckpoint (tu_checkpoint rec))"
    using assms(2-4)
    by (simp add: getStateAt_def requireRunCheckpointer_def findTuple_def sbind_def slift_def sret_def)
  with sameCheckpoint_fields [OF rec(2)] show ?thesis
    by (auto simp: snapshotFromCheckpoint_def nextTasksFromCheckpoint_def)
qed

end

context saved_run
begin

text \<open>
  A new run whose input does not satisfy the state schema: the failure checkpoint would get the
  identifier of the initial checkpoint, so the run returns the status of the refused store.
\<close>

lemma run_failure_lost:
  assumes "inv sv" and "rc_writeInitial cfg" and "opt_command (rc_options cfg) = None"
    and "isOk (validateRunOptionsConfig (rc_options cfg))"
    and start: "beginRun cfg (normalizeNextTasks ts) pend (initialRunState cfg st step parent sv tick) = (Inr ts', t)"
    and "validateStateSchema st (stateSchema (sg_schemas (rc_graph cfg))) ''state'' = Inl e"
    and "withRunErrorMetadata st e [] step (runStatusFromStatus e) = Inr st'"
  shows "\<exists>s'. run fuel cfg st ts pend step parent sv tick =
    Some (err AlreadyExists ''checkpoint already exists'', s')"
proof -
  let ?s = "initialRunState cfg st step parent sv tick"
  have "rr_threadId (rs_result ?s) \<noteq> []"
    by (simp add: initialRunState_def Let_def generatedId_def)
  then have "fst (prepareRun cfg ts' pend t) = Inl (err AlreadyExists ''checkpoint already exists'')"
    using assms by (intro prepareRun_failure_lost [OF _ _ _ _ start]) (simp_all add: initialRunState_simps)
  then show ?thesis
    using assms(4) start by (auto simp: run_def startRun_def Let_def sbind_def split: prod.splits)
qed

text \<open>The state a run returns can be read from the checkpointer.\<close>

lemma run_readable:
  assumes "inv sv" and "run fuel cfg st ts pend step parent sv tick = Some (Inr res, s')"
    and "\<not> endsAtStart cfg ts pend (initialRunState cfg st step parent sv tick) step res"
  shows "\<exists>i snap. rs_parent s' = Some i \<and>
    fst (getStateAt (rr_threadId res) i (rc_options cfg) (rs_saver s')) = Inr snap \<and>
    sn_values snap = rr_state res \<and> sn_threadId snap = rr_threadId res \<and> sn_checkpointId snap = i"
proof -
  obtain i c where c: "rs_parent s' = Some i" "i \<noteq> []"
      "abs (rs_saver s') (rr_threadId res, rr_ns res, i) = Some c" "cp_state c = rr_state res"
    using run_stored [OF assms] by blast
  have inv': "inv (rs_saver s')" using run_history [OF assms(1,2)] by simp
  have res: "res = rs_result s'" using run_agrees [OF assms(2)] by simp
  have ns: "rr_ns res = opt_ns (rc_options cfg)"
    using sameIds.run_framed [OF assms(2)] res by (simp add: sameIds_def initialRunState_simps)
  have "\<exists>snap. fst (getStateAt (rr_threadId res) i (rc_options cfg) (rs_saver s')) = Inr snap \<and>
      snap\<lparr>sn_pendingWrites := cp_pendingWrites c\<rparr> = snapshotFromCheckpoint c"
    using getStateAt_found [OF inv' checkpointer] threadId_nonempty [OF assms(2)] c ns res by auto
  then obtain snap where snap: "fst (getStateAt (rr_threadId res) i (rc_options cfg) (rs_saver s')) = Inr snap"
      "snap\<lparr>sn_pendingWrites := cp_pendingWrites c\<rparr> = snapshotFromCheckpoint c" by blast
  have key: "ckeyOf c = (rr_threadId res, rr_ns res, i)" by (rule abs_key [OF inv' c(3)])
  have "sn_values snap = cp_state c \<and> sn_threadId snap = cp_threadId c \<and> sn_checkpointId snap = cp_checkpointId c"
    using arg_cong [OF snap(2), of sn_values] arg_cong [OF snap(2), of sn_threadId]
      arg_cong [OF snap(2), of sn_checkpointId] by (simp add: snapshotFromCheckpoint_def)
  with snap(1) c key show ?thesis by (auto simp: ckeyOf_def)
qed

end

section \<open>Editing a thread\<close>

lemma word_less_plus_1: "(x :: 64 word) < - 1 \<Longrightarrow> x < x + 1"
  by (simp add: word_less_nat_alt unat_word_ariths unsigned_minus_1_eq_mask mask_eq_exp_minus_1)

lemma agePair_step: "agePair a \<le> agePair b \<Longrightarrow> cp_step a \<le> cp_step b"
  by (auto simp: agePair_def)

lemma updateStep_greater:
  assumes "cp_step base < - 1" and "cp_step (tu_checkpoint l) < - 1"
  shows "cp_step (tu_checkpoint l) < updateStep base (Some l)"
  using assms word_less_plus_1 by (auto simp: updateStep_def not_le)

context saver
begin

lemma findTuple_Inr:
  assumes "inv sv" and "findTuple ops q m sv = (Inr rec, sv')"
  shows "so_getTuple ops q sv = (Inr (Some rec), sv') \<and> inv sv' \<and> abs sv' = abs sv"
  using assms getTuple_frame [OF assms(1)]
  by (fastforce simp: findTuple_def result_simps slift_def split: option.splits)

text \<open>A record found by either query is a stored checkpoint of the thread and namespace.\<close>

lemma found_stored:
  assumes "inv sv" and "t \<noteq> []" and "q = CheckpointQuery_latest t n \<or> (\<exists>i. i \<noteq> [] \<and> q = CheckpointQuery_at t i n)"
    and "so_getTuple ops q sv = (Inr (Some rec), sv')"
  shows "\<exists>i c. abs sv (t, n, i) = Some c \<and> sameCheckpoint (tu_checkpoint rec) c"
  using assms(3)
proof
  assume "q = CheckpointQuery_latest t n"
  then show ?thesis
    using getTuple_latest [OF assms(1,2), of n] assms(4) by (auto split: if_splits)
next
  assume "\<exists>i. i \<noteq> [] \<and> q = CheckpointQuery_at t i n"
  then obtain i where "i \<noteq> []" "q = CheckpointQuery_at t i n" by blast
  then show ?thesis
    using getTuple_at [OF assms(1,2), of i n] assms(4) by (auto split: option.splits)
qed

lemma latest_max:
  assumes "inv sv" and "t \<noteq> []" and "abs sv (t, n, i) = Some c"
    and "so_getTuple ops (CheckpointQuery_latest t n) sv = (Inr found, sv')"
  shows "\<exists>rec j d. found = Some rec \<and> abs sv (t, n, j) = Some d \<and> sameCheckpoint (tu_checkpoint rec) d \<and>
    (\<forall>j' d'. abs sv (t, n, j') = Some d' \<longrightarrow> agePair d' \<le> agePair d)"
proof -
  have "\<not> (\<forall>i. abs sv (t, n, i) = None)" using assms(3) by auto
  then obtain rec d j where "fst (so_getTuple ops (CheckpointQuery_latest t n) sv) = Inr (Some rec)"
    "abs sv (t, n, j) = Some d" "sameCheckpoint (tu_checkpoint rec) d"
    "\<forall>j' d'. abs sv (t, n, j') = Some d' \<longrightarrow> agePair d' \<le> agePair d"
    using getTuple_latest [OF assms(1,2), of n] by (simp only: if_False) blast
  then show ?thesis using assms(4) by auto
qed

text \<open>A stored checkpoint with the greatest step of its thread is the latest one.\<close>

lemma put_newest:
  assumes "inv sv" and "so_put ops c sv = (Inr (), sv')" and "cp_threadId c \<noteq> []"
    and newer: "\<And>j d. abs sv (cp_threadId c, cp_ns c, j) = Some d \<Longrightarrow> cp_step d < cp_step c"
  shows "\<exists>rec sv''. so_getTuple ops (CheckpointQuery_latest (cp_threadId c) (cp_ns c)) sv' = (Inr (Some rec), sv'') \<and>
    sameCheckpoint (tu_checkpoint rec) c"
proof -
  have put: "inv sv'" "abs sv' = (abs sv)((cp_threadId c, cp_ns c, cp_checkpointId c) \<mapsto> c)"
    using put_ok [OF assms(1,2)] by (auto simp: ckeyOf_def)
  then have "\<not> (\<forall>i. abs sv' (cp_threadId c, cp_ns c, i) = None)" by auto
  then obtain rec d k where rec: "fst (so_getTuple ops (CheckpointQuery_latest (cp_threadId c) (cp_ns c)) sv') = Inr (Some rec)"
    "abs sv' (cp_threadId c, cp_ns c, k) = Some d" "sameCheckpoint (tu_checkpoint rec) d"
    "\<forall>j' d'. abs sv' (cp_threadId c, cp_ns c, j') = Some d' \<longrightarrow> agePair d' \<le> agePair d"
    using getTuple_latest [OF put(1) assms(3), of "cp_ns c"] by (simp only: if_False) blast
  have "abs sv' (cp_threadId c, cp_ns c, cp_checkpointId c) = Some c" using put(2) by simp
  then have "cp_step c \<le> cp_step d" using rec(4) agePair_step by blast
  then have "d = c" using newer [of k d] rec(2) put(2) by (auto split: if_splits)
  with rec(1,3) show ?thesis by (metis prod.collapse)
qed

text \<open>The parts of a successful update: its base, the latest checkpoint it looked at, what it stored.\<close>

lemma updateState_parts:
  assumes inv: "inv sv" and cp: "opt_checkpointer opts = Some ops"
    and run: "updateState cg t u opts uo tick sv = (Inr snap, sv')"
  obtains rec :: CheckpointTuple and i0 d0 latest sv1 sv2 new written ts where "t \<noteq> []"
    "abs sv (t, opt_ns opts, i0) = Some d0" "sameCheckpoint (tu_checkpoint rec) d0"
    "inv sv1" "abs sv1 = abs sv"
    "so_getTuple ops (CheckpointQuery_latest t (opt_ns opts)) sv1 = (Inr latest, sv2)"
    "so_put ops (updateCheckpoint cg t (opt_ns opts) (updateStep (tu_checkpoint rec) latest)
        (tu_checkpoint rec) (uo_asNode uo) new written ts tick) sv2 = (Inr (), sv')"
    "snap = snapshotFromCheckpoint (updateCheckpoint cg t (opt_ns opts) (updateStep (tu_checkpoint rec) latest)
        (tu_checkpoint rec) (uo_asNode uo) new written ts tick)"
proof -
  let ?q = "if uo_checkpointId uo = [] then CheckpointQuery_latest t (opt_ns opts)
    else CheckpointQuery_at t (uo_checkpointId uo) (opt_ns opts)"
  have t: "t \<noteq> []" using run by (auto simp: updateState_def slift_def split: if_splits)
  obtain rec sv1 where find: "findTuple ops ?q ''checkpoint not found'' sv = (Inr rec, sv1)"
    using run cp t
    by (auto simp: updateState_def requireRunCheckpointer_def result_simps slift_def split: if_splits)
  note found = findTuple_Inr [OF inv find]
  have "?q = CheckpointQuery_latest t (opt_ns opts) \<or> (\<exists>i. i \<noteq> [] \<and> ?q = CheckpointQuery_at t i (opt_ns opts))"
    by auto
  from found_stored [OF inv t this] found obtain i0 d0 where
    d0: "abs sv (t, opt_ns opts, i0) = Some d0" "sameCheckpoint (tu_checkpoint rec) d0" by blast
  have ns: "(if opt_ns opts = [] then cp_ns (tu_checkpoint rec) else opt_ns opts) = opt_ns opts"
    using abs_key [OF inv d0(1)] sameCheckpoint_fields [OF d0(2)] by (auto simp: ckeyOf_def)
  obtain latest sv2 new written ts where parts:
    "so_getTuple ops (CheckpointQuery_latest t (opt_ns opts)) sv1 = (Inr latest, sv2)"
    "so_put ops (updateCheckpoint cg t (opt_ns opts) (updateStep (tu_checkpoint rec) latest)
        (tu_checkpoint rec) (uo_asNode uo) new written ts tick) sv2 = (Inr (), sv')"
    "snap = snapshotFromCheckpoint (updateCheckpoint cg t (opt_ns opts) (updateStep (tu_checkpoint rec) latest)
        (tu_checkpoint rec) (uo_asNode uo) new written ts tick)"
    using run cp t find ns
    by (auto simp: updateState_def requireRunCheckpointer_def Let_def result_simps slift_def split: if_splits)
  show thesis by (rule that [OF t d0 _ _ parts]) (use found in simp_all)
qed

lemma updateState_latest:
  assumes inv: "inv sv" and cp: "opt_checkpointer opts = Some ops"
    and room: "\<And>i c. abs sv (t, opt_ns opts, i) = Some c \<Longrightarrow> cp_step c < - 1"
    and run: "updateState cg t u opts uo tick sv = (Inr snap, sv')"
  shows "\<exists>snap'. fst (getState t opts sv') = Inr snap' \<and> snap'\<lparr>sn_pendingWrites := []\<rparr> = snap"
  using inv cp run
proof (cases rule: updateState_parts)
  case (1 rec i0 d0 latest sv1 sv2 new written ts)
  define c where "c = updateCheckpoint cg t (opt_ns opts) (updateStep (tu_checkpoint rec) latest)
        (tu_checkpoint rec) (uo_asNode uo) new written ts tick"
  have c: "cp_threadId c = t" "cp_ns c = opt_ns opts" "cp_step c = updateStep (tu_checkpoint rec) latest"
      "cp_pendingWrites c = []"
    by (simp_all add: c_def updateCheckpoint_def)
  have sv2: "inv sv2" "abs sv2 = abs sv" using getTuple_frame [OF 1(4,6)] 1(5) by auto
  obtain l j d where l: "latest = Some l" "abs sv (t, opt_ns opts, j) = Some d" "sameCheckpoint (tu_checkpoint l) d"
      "\<forall>j' d'. abs sv (t, opt_ns opts, j') = Some d' \<longrightarrow> agePair d' \<le> agePair d"
    using latest_max [OF 1(4,1) _ 1(6)] 1(2,5) by metis
  have "cp_step d < cp_step c"
    using updateStep_greater [of "tu_checkpoint rec" l] room [OF l(2)] room [OF 1(2)] l(1)
      sameCheckpoint_fields [OF l(3)] sameCheckpoint_fields [OF 1(3)] by (simp add: c)
  then have newer: "cp_step d' < cp_step c" if "abs sv (t, opt_ns opts, j') = Some d'" for j' d'
    using l(4) that agePair_step [of d' d] by (meson order_le_less_trans)
  obtain rec' sv3 where "so_getTuple ops (CheckpointQuery_latest t (opt_ns opts)) sv' = (Inr (Some rec'), sv3)"
      "sameCheckpoint (tu_checkpoint rec') c"
    using put_newest [OF sv2(1) 1(7) [folded c_def]] newer c sv2(2) 1(1) by auto
  then show ?thesis
    using 1(1,8) cp c(4) sameCheckpoint_fields
    by (auto simp: getState_def requireRunCheckpointer_def findTuple_def sbind_def slift_def sret_def
        snapshotFromCheckpoint_def nextTasksFromCheckpoint_def simp flip: c_def)
qed

end

end
