(* ===== verification/Run_Config.thy ===== *)
theory Run_Config
  imports Graph_Run
begin

text \<open>
  \<^verbatim>\<open>RunnableConfig\<close> of \<^verbatim>\<open>src/src/langgraph/graph/run_config.cpp\<close>: parsing and printing, merging and
  patching, and its effect on the options of a run.  The lemmas show the round trip of the JSON
  form, what a merge keeps, how the configuration reaches the options, and which unknown fields
  the parser keeps.
\<close>

section \<open>Values\<close>

definition isRunnableConfigKey :: "string \<Rightarrow> bool" where
  "isRunnableConfigKey key \<longleftrightarrow>
     key \<in> {''tags'', ''metadata'', ''callbacks'', ''recursion_limit'', ''max_concurrency'', ''run_name'',
            ''run_id'', ''configurable''}"

text \<open>A double is zero when its bits are those of the positive or the negative zero.\<close>

fun isTruthyConfigValue :: "json \<Rightarrow> bool" where
  "isTruthyConfigValue JNull = False"
| "isTruthyConfigValue (JBool b) = b"
| "isTruthyConfigValue (JInt w) = (w \<noteq> 0)"
| "isTruthyConfigValue (JUint w) = (w \<noteq> 0)"
| "isTruthyConfigValue (JFloat w) = (w \<noteq> 0 \<and> w \<noteq> 2 ^ 63)"
| "isTruthyConfigValue (JStr s) = (s \<noteq> [])"
| "isTruthyConfigValue (JArr xs) = (xs \<noteq> [])"
| "isTruthyConfigValue (JObj m) = (m \<noteq> [])"

fun isPresentConfigValue :: "json \<Rightarrow> bool" where
  "isPresentConfigValue JNull = False"
| "isPresentConfigValue (JArr xs) = (xs \<noteq> [])"
| "isPresentConfigValue (JObj m) = (m \<noteq> [])"
| "isPresentConfigValue _ = True"

fun isMetadataConfigValue :: "json \<Rightarrow> bool" where
  "isMetadataConfigValue (JStr _) = True"
| "isMetadataConfigValue (JInt _) = True"
| "isMetadataConfigValue (JUint _) = True"
| "isMetadataConfigValue (JFloat _) = True"
| "isMetadataConfigValue (JBool _) = True"
| "isMetadataConfigValue _ = False"

definition shouldPropagateConfigurableMetadata :: "string \<Rightarrow> json \<Rightarrow> bool" where
  "shouldPropagateConfigurableMetadata key value \<longleftrightarrow>
     key \<in> {''thread_id'', ''checkpoint_id'', ''checkpoint_ns'', ''task_id'', ''run_id'', ''assistant_id'',
            ''graph_id''} \<and> isMetadataConfigValue value \<and> isTruthyConfigValue value"

definition parseRunnableTags :: "json \<Rightarrow> string list result" where
  "parseRunnableTags value =
     (if \<not> is_array value then err InvalidArgument ''RunnableConfig tags must be an array''
      else mapM_result (\<lambda>tag. if is_string tag then Inr (str_of tag)
             else err InvalidArgument ''RunnableConfig tag must be a string'') (jelems value))"

text \<open>The signed reading of an integer comes first, whatever its kind.\<close>

definition parseRunnableUint64 :: "json \<Rightarrow> string \<Rightarrow> 64 word result" where
  "parseRunnableUint64 value field =
     (if is_number_integer value
      then if sint (bits_of value) < 0
           then err InvalidArgument (''RunnableConfig '' @ field @ '' cannot be negative'')
           else Inr (bits_of value)
      else if \<not> is_number_unsigned value
      then err InvalidArgument (''RunnableConfig '' @ field @ '' must be an unsigned integer'')
      else Inr (bits_of value))"

text \<open>\<^verbatim>\<open>std::size_t\<close> has 64 bits, so that every value fits.\<close>

definition parseRunnableSize :: "json \<Rightarrow> string \<Rightarrow> 64 word result" where
  "parseRunnableSize value field =
     rbind (parseRunnableUint64 value field) (\<lambda>parsed.
       if (- 1 :: 64 word) < parsed
       then err ResourceExhausted (''RunnableConfig '' @ field @ '' is too large'')
       else Inr parsed)"

section \<open>Configurations\<close>

record RunnableConfig =
  cf_tags :: "string list"
  cf_metadata :: json
  cf_callbacks :: json
  cf_recursionLimit :: "64 word option"
  cf_maxConcurrency :: "64 word option"
  cf_runName :: string
  cf_runId :: string
  cf_configurable :: json

definition emptyConfig :: RunnableConfig where
  "emptyConfig = \<lparr>cf_tags = [], cf_metadata = JObj [], cf_callbacks = JNull, cf_recursionLimit = None,
     cf_maxConcurrency = None, cf_runName = [], cf_runId = [], cf_configurable = JObj []\<rparr>"

definition propagateMetadata :: "json \<Rightarrow> json \<Rightarrow> json" where
  "propagateMetadata metadata configurable =
     fold (\<lambda>(key, value) m.
       if \<not> shouldPropagateConfigurableMetadata key value \<or> jhas m key then m else jput m key value)
       (jitems configurable) metadata"

definition propagateConfigurableMetadata :: "RunnableConfig \<Rightarrow> RunnableConfig" where
  "propagateConfigurableMetadata c =
     (let metadata = (if is_object (cf_metadata c) then cf_metadata c else JObj []);
          configurable = (if is_object (cf_configurable c) then cf_configurable c else JObj []) in
      c\<lparr>cf_metadata := propagateMetadata metadata configurable, cf_configurable := configurable\<rparr>)"

definition applyRunnableConfigField :: "string \<Rightarrow> json \<Rightarrow> RunnableConfig \<Rightarrow> RunnableConfig result" where
  "applyRunnableConfigField key value c =
     (if key = ''tags'' then rbind (parseRunnableTags value) (\<lambda>tags. Inr (c\<lparr>cf_tags := tags\<rparr>))
      else if key = ''metadata'' then
        if \<not> is_object value then err InvalidArgument ''RunnableConfig metadata must be an object''
        else Inr (c\<lparr>cf_metadata := value\<rparr>)
      else if key = ''callbacks'' then Inr (c\<lparr>cf_callbacks := value\<rparr>)
      else if key = ''recursion_limit'' then
        rbind (parseRunnableUint64 value key) (\<lambda>parsed.
          if parsed = 0 then err InvalidArgument ''RunnableConfig recursion_limit must be positive''
          else Inr (c\<lparr>cf_recursionLimit := Some parsed\<rparr>))
      else if key = ''max_concurrency'' then
        rbind (parseRunnableSize value key) (\<lambda>parsed. Inr (c\<lparr>cf_maxConcurrency := Some parsed\<rparr>))
      else if key = ''run_name'' then
        if \<not> is_string value then err InvalidArgument ''RunnableConfig run_name must be a string''
        else Inr (c\<lparr>cf_runName := str_of value\<rparr>)
      else if key = ''run_id'' then
        if \<not> is_string value then err InvalidArgument ''RunnableConfig run_id must be a string''
        else Inr (c\<lparr>cf_runId := str_of value\<rparr>)
      else if key = ''configurable'' then
        if \<not> is_object value then err InvalidArgument ''RunnableConfig configurable must be an object''
        else Inr (c\<lparr>cf_configurable := value\<rparr>)
      else err InvalidArgument ''unknown RunnableConfig field'')"

text \<open>A field that is not one of the configuration goes into \<open>cf_configurable\<close>.\<close>

definition keepUnknown :: "string \<Rightarrow> json \<Rightarrow> RunnableConfig \<Rightarrow> RunnableConfig" where
  "keepUnknown key value c =
     (if isPresentConfigValue value then c\<lparr>cf_configurable := jput (cf_configurable c) key value\<rparr> else c)"

definition parseItem :: "RunnableConfig \<Rightarrow> string \<times> json \<Rightarrow> RunnableConfig result" where
  "parseItem c item =
     (case item of (key, value) \<Rightarrow>
        if isRunnableConfigKey key then applyRunnableConfigField key value c
        else Inr (keepUnknown key value c))"

definition RunnableConfig_fromJson :: "json \<Rightarrow> RunnableConfig result" where
  "RunnableConfig_fromJson value =
     (if is_null value then Inr (propagateConfigurableMetadata emptyConfig)
      else if \<not> is_object value then err InvalidArgument ''RunnableConfig must be an object''
      else rbind (foldM_result parseItem emptyConfig (jitems value)) (\<lambda>c. Inr (propagateConfigurableMetadata c)))"

definition RunnableConfig_toJson :: "RunnableConfig \<Rightarrow> json" where
  "RunnableConfig_toJson c =
     (let out = JObj [];
          out = jputIf (cf_tags c \<noteq> []) ''tags'' (tagsToJson (cf_tags c)) out;
          out = jputIf (is_object (cf_metadata c) \<and> \<not> jempty (cf_metadata c)) ''metadata'' (cf_metadata c) out;
          out = jputIf (\<not> is_null (cf_callbacks c)) ''callbacks'' (cf_callbacks c) out;
          out = jputOpt ''recursion_limit'' JUint (cf_recursionLimit c) out;
          out = jputOpt ''max_concurrency'' JUint (cf_maxConcurrency c) out;
          out = jputIf (cf_runName c \<noteq> []) ''run_name'' (JStr (cf_runName c)) out;
          out = jputIf (cf_runId c \<noteq> []) ''run_id'' (JStr (cf_runId c)) out in
      jput out ''configurable'' (if is_object (cf_configurable c) then cf_configurable c else JObj []))"

section \<open>Merging and patching\<close>

definition mergeTags :: "string list \<Rightarrow> string list \<Rightarrow> string list" where
  "mergeTags target source = target @ source"

definition mergeCallbacks :: "json \<Rightarrow> json \<Rightarrow> json" where
  "mergeCallbacks target source =
     (if is_null source then target
      else if is_null target then source
      else if is_array target \<and> is_array source then JArr (jelems target @ jelems source)
      else if is_object target \<and> is_object source then mergeJsonObject target source
      else source)"

text \<open>The value that was set last.\<close>

definition latter :: "'a option \<Rightarrow> 'a option \<Rightarrow> 'a option" where
  "latter old new = (case new of None \<Rightarrow> old | Some _ \<Rightarrow> new)"

definition latterString :: "string \<Rightarrow> string \<Rightarrow> string" where
  "latterString old new = (if new = [] then old else new)"

definition mergeStep :: "RunnableConfig \<Rightarrow> RunnableConfig \<Rightarrow> RunnableConfig result" where
  "mergeStep merged c =
     (if \<not> is_object (cf_metadata c) then err InvalidArgument ''RunnableConfig metadata must be an object''
      else if \<not> is_object (cf_configurable c)
      then err InvalidArgument ''RunnableConfig configurable must be an object''
      else Inr
        \<lparr>cf_tags = mergeTags (cf_tags merged) (cf_tags c),
         cf_metadata = mergeJsonObject (cf_metadata merged) (cf_metadata c),
         cf_callbacks = mergeCallbacks (cf_callbacks merged) (cf_callbacks c),
         cf_recursionLimit = latter (cf_recursionLimit merged) (cf_recursionLimit c),
         cf_maxConcurrency = latter (cf_maxConcurrency merged) (cf_maxConcurrency c),
         cf_runName = latterString (cf_runName merged) (cf_runName c),
         cf_runId = latterString (cf_runId merged) (cf_runId c),
         cf_configurable = mergeJsonObject (cf_configurable merged) (cf_configurable c)\<rparr>)"

definition mergeRunnableConfigs :: "RunnableConfig list \<Rightarrow> RunnableConfig result" where
  "mergeRunnableConfigs configs =
     rbind (foldM_result mergeStep emptyConfig configs) (\<lambda>c. Inr (propagateConfigurableMetadata c))"

definition patchItem :: "RunnableConfig \<Rightarrow> string \<times> json \<Rightarrow> RunnableConfig result" where
  "patchItem c item =
     (case item of (key, value) \<Rightarrow>
        if key = ''callbacks'' then Inr (c\<lparr>cf_callbacks := value, cf_runName := [], cf_runId := []\<rparr>)
        else if isRunnableConfigKey key then
          if key = ''tags''
          then rbind (parseRunnableTags value) (\<lambda>tags. Inr (c\<lparr>cf_tags := mergeTags (cf_tags c) tags\<rparr>))
          else if key = ''metadata'' then
            if \<not> is_object value then err InvalidArgument ''RunnableConfig metadata must be an object''
            else Inr (c\<lparr>cf_metadata := mergeJsonObject (cf_metadata c) value\<rparr>)
          else if key = ''configurable'' then
            if \<not> is_object value then err InvalidArgument ''RunnableConfig configurable must be an object''
            else Inr (c\<lparr>cf_configurable := mergeJsonObject (cf_configurable c) value\<rparr>)
          else applyRunnableConfigField key value c
        else Inr (keepUnknown key value c))"

definition patchRunnableConfig :: "RunnableConfig \<Rightarrow> json \<Rightarrow> RunnableConfig result" where
  "patchRunnableConfig c patch =
     (if \<not> is_object patch then err InvalidArgument ''RunnableConfig patch must be an object''
      else if \<not> is_object (cf_metadata c)
      then err InvalidArgument ''RunnableConfig metadata must be an object''
      else if \<not> is_object (cf_configurable c)
      then err InvalidArgument ''RunnableConfig configurable must be an object''
      else rbind (foldM_result patchItem c (jitems patch)) (\<lambda>c'. Inr (propagateConfigurableMetadata c')))"

section \<open>Options of a run\<close>

text \<open>A string field of \<open>cf_configurable\<close> that overrides an option.\<close>

definition configurableString :: "json \<Rightarrow> string \<Rightarrow> string \<Rightarrow> string result" where
  "configurableString configurable key current =
     (if \<not> jhas configurable key then Inr current
      else if \<not> is_string (jat configurable key)
      then err InvalidArgument (''RunnableConfig configurable.'' @ key @ '' must be a string'')
      else Inr (str_of (jat configurable key)))"

definition configuredOptions :: "'s RunOptions \<Rightarrow> RunnableConfig \<Rightarrow> 's RunOptions" where
  "configuredOptions opts c =
     opts\<lparr>opt_tags := mergeTags (opt_tags opts) (cf_tags c),
          opt_metadata := mergeJsonObject (opt_metadata opts) (cf_metadata c),
          opt_configurable := mergeJsonObject (opt_configurable opts) (cf_configurable c),
          opt_callbacks := (if is_null (cf_callbacks c) then opt_callbacks opts else cf_callbacks c),
          opt_runName := latterString (opt_runName opts) (cf_runName c),
          opt_runId := latterString (opt_runId opts) (cf_runId c),
          opt_limits := (case cf_recursionLimit c of
             None \<Rightarrow> opt_limits opts | Some n \<Rightarrow> ResourceLimits_maxSteps n (opt_limits opts)),
          opt_maxConcurrency := (case cf_maxConcurrency c of
             None \<Rightarrow> opt_maxConcurrency opts | Some n \<Rightarrow> unat n)\<rparr>"

definition applyRunnableConfig :: "'s RunOptions \<Rightarrow> RunnableConfig \<Rightarrow> 's RunOptions result" where
  "applyRunnableConfig opts config =
     (if \<not> is_object (cf_metadata config)
      then err InvalidArgument ''RunnableConfig metadata must be an object''
      else if \<not> is_object (cf_configurable config)
      then err InvalidArgument ''RunnableConfig configurable must be an object''
      else rbind (statusResult (validateRunOptionsConfig opts)) (\<lambda>_.
        let c = propagateConfigurableMetadata config; opts' = configuredOptions opts c in
        rbind (configurableString (cf_configurable c) ''thread_id'' (opt_threadId opts')) (\<lambda>thread.
        rbind (configurableString (cf_configurable c) ''checkpoint_ns'' (opt_ns opts')) (\<lambda>ns.
        Inr (opts'\<lparr>opt_threadId := thread, opt_ns := ns\<rparr>)))))"

definition onlyEvents :: "RuntimeEventType list \<Rightarrow> 's RunOptions" where
  "onlyEvents eventTypes = defaultRunOptions\<lparr>opt_eventTypes := eventTypes\<rparr>"

definition debugEvents :: "'s RunOptions" where
  "debugEvents = onlyEvents [RunStarted, RunCompleted, RunFailed, NodeStarted, NodeCompleted, NodeFailed,
     StateUpdated, CheckpointCreated, InterruptRequested, Custom]"

section \<open>Round trip\<close>

text \<open>What a list of fields with distinct names sets.\<close>

definition fieldsOf :: "(string \<rightharpoonup> json) \<Rightarrow> RunnableConfig \<Rightarrow> RunnableConfig" where
  "fieldsOf m c =
     \<lparr>cf_tags = (case m ''tags'' of None \<Rightarrow> cf_tags c | Some v \<Rightarrow> map str_of (jelems v)),
      cf_metadata = (case m ''metadata'' of None \<Rightarrow> cf_metadata c | Some v \<Rightarrow> v),
      cf_callbacks = (case m ''callbacks'' of None \<Rightarrow> cf_callbacks c | Some v \<Rightarrow> v),
      cf_recursionLimit = (case m ''recursion_limit'' of None \<Rightarrow> cf_recursionLimit c | Some v \<Rightarrow> Some (bits_of v)),
      cf_maxConcurrency = (case m ''max_concurrency'' of None \<Rightarrow> cf_maxConcurrency c | Some v \<Rightarrow> Some (bits_of v)),
      cf_runName = (case m ''run_name'' of None \<Rightarrow> cf_runName c | Some v \<Rightarrow> str_of v),
      cf_runId = (case m ''run_id'' of None \<Rightarrow> cf_runId c | Some v \<Rightarrow> str_of v),
      cf_configurable = (case m ''configurable'' of None \<Rightarrow> cf_configurable c | Some v \<Rightarrow> v)\<rparr>"

definition fieldOk :: "string \<times> json \<Rightarrow> bool" where
  "fieldOk p \<longleftrightarrow>
     (case p of (k, v) \<Rightarrow> isRunnableConfigKey k \<and>
        (k = ''tags'' \<longrightarrow> (\<exists>ts. v = JArr (map JStr ts))) \<and>
        (k \<in> {''metadata'', ''configurable''} \<longrightarrow> is_object v) \<and>
        (k \<in> {''recursion_limit'', ''max_concurrency''} \<longrightarrow> is_number_unsigned v \<and> \<not> sint (bits_of v) < 0) \<and>
        (k = ''recursion_limit'' \<longrightarrow> bits_of v \<noteq> 0) \<and>
        (k \<in> {''run_name'', ''run_id''} \<longrightarrow> is_string v))"

lemma str_of_JStr: "str_of \<circ> JStr = (\<lambda>s. s)"
  by (rule ext) simp

lemma unsigned_integer: "is_number_unsigned v \<Longrightarrow> is_number_integer v"
  by (cases v) auto

lemma applyField_ok:
  assumes "fieldOk (k, v)"
  shows "applyRunnableConfigField k v c = Inr (fieldsOf [k \<mapsto> v] c)"
proof -
  have tags: "parseRunnableTags (JArr (map JStr ts)) = Inr ts" for ts
  proof -
    have "mapM_result (\<lambda>tag. if is_string tag then Inr (str_of tag)
        else err InvalidArgument ''RunnableConfig tag must be a string'') (map JStr ts) = Inr (map (\<lambda>t. t) ts)"
      by (rule mapM_result_map) simp
    then show ?thesis by (simp add: parseRunnableTags_def)
  qed
  note defs = applyRunnableConfigField_def fieldsOf_def
  from assms have "k \<in> {''tags'', ''metadata'', ''callbacks'', ''recursion_limit'', ''max_concurrency'',
      ''run_name'', ''run_id'', ''configurable''}"
    by (simp only: fieldOk_def isRunnableConfigKey_def prod.case)
  then consider "k = ''tags''" | "k = ''metadata''" | "k = ''callbacks''" | "k = ''recursion_limit''"
    | "k = ''max_concurrency''" | "k = ''run_name''" | "k = ''run_id''" | "k = ''configurable''"
    by (elim insertE emptyE)
  then show ?thesis
  proof cases
    case 1
    with assms obtain ts where "v = JArr (map JStr ts)" by (auto simp: fieldOk_def)
    with 1 show ?thesis by (cases c) (simp add: defs tags str_of_JStr)
  next
    case 4
    have "is_number_unsigned v" "\<not> sint (bits_of v) < 0" "bits_of v \<noteq> 0"
      using assms 4 by (simp_all add: fieldOk_def)
    with 4 show ?thesis by (cases c) (simp add: defs parseRunnableUint64_def unsigned_integer)
  next
    case 5
    have "is_number_unsigned v" "\<not> sint (bits_of v) < 0" using assms 5 by (simp_all add: fieldOk_def)
    with 5 show ?thesis
      by (cases c) (simp add: defs parseRunnableUint64_def parseRunnableSize_def unsigned_integer)
  qed (use assms in \<open>(cases c, simp add: defs fieldOk_def)+\<close>)
qed

lemma case_map_upd:
  "m k = None \<Longrightarrow>
   (case m j of None \<Rightarrow> (case [k \<mapsto> v] j of None \<Rightarrow> d | Some x \<Rightarrow> f x) | Some x \<Rightarrow> f x) =
   (case (m(k \<mapsto> v)) j of None \<Rightarrow> d | Some x \<Rightarrow> f x)"
  by (auto split: option.split)

lemma fieldsOf_add:
  assumes "k \<notin> dom m"
  shows "fieldsOf m (fieldsOf [k \<mapsto> v] c) = fieldsOf (m(k \<mapsto> v)) c"
proof -
  have "m k = None" using assms by (simp add: domIff)
  note rule = case_map_upd [of m k, OF this]
  show ?thesis unfolding fieldsOf_def RunnableConfig.select_convs rule ..
qed

lemma parseItems_ok:
  assumes "\<forall>p \<in> set ps. fieldOk p" and "distinct (map fst ps)"
  shows "foldM_result parseItem c ps = Inr (fieldsOf (map_of ps) c)"
  using assms
proof (induction ps arbitrary: c)
  case Nil
  then show ?case by (simp add: fieldsOf_def)
next
  case (Cons p ps)
  obtain k v where p: "p = (k, v)" by fastforce
  have "parseItem c p = Inr (fieldsOf [k \<mapsto> v] c)"
    using Cons.prems(1) p applyField_ok by (auto simp: parseItem_def fieldOk_def)
  moreover have "fieldsOf (map_of ps) (fieldsOf [k \<mapsto> v] c) = fieldsOf (map_of (p # ps)) c"
    using Cons.prems(2) p by (simp add: fieldsOf_add dom_map_of_conv_image_fst)
  ultimately show ?case using Cons.IH Cons.prems by (simp del: map_of.simps)
qed

text \<open>
  The configurations that survive a round trip: what \<open>propagateConfigurableMetadata\<close> would add is
  there, and the numbers are below \<open>2\<^sup>6\<^sup>3\<close>.
\<close>

definition config_wf :: "RunnableConfig \<Rightarrow> bool" where
  "config_wf c \<longleftrightarrow>
     is_object (cf_metadata c) \<and> is_object (cf_configurable c) \<and>
     propagateMetadata (cf_metadata c) (cf_configurable c) = cf_metadata c \<and>
     cf_recursionLimit c \<noteq> Some 0 \<and>
     (\<forall>w. cf_recursionLimit c = Some w \<longrightarrow> \<not> sint w < 0) \<and>
     (\<forall>w. cf_maxConcurrency c = Some w \<longrightarrow> \<not> sint w < 0)"

definition orderedObject :: "json \<Rightarrow> bool" where
  "orderedObject v \<longleftrightarrow> is_object v \<and> omap_wf (jitems v)"

lemma orderedObject_jput: "orderedObject v \<Longrightarrow> orderedObject (jput v k x)"
  by (cases v) (auto simp: orderedObject_def)

lemma orderedObject_puts:
  "orderedObject v \<Longrightarrow> orderedObject (jputIf b k x v)" "orderedObject v \<Longrightarrow> orderedObject (jputOpt k f y v)"
  by (auto simp: jputIf_def jputOpt_def orderedObject_jput split: option.split)

lemma toJson_ordered: "orderedObject (RunnableConfig_toJson c)"
proof -
  have "orderedObject (JObj [])" by (simp add: orderedObject_def)
  then show ?thesis
    unfolding RunnableConfig_toJson_def Let_def by (intro orderedObject_puts orderedObject_jput)
qed

lemma jget_toJson:
  "jget (RunnableConfig_toJson c) k =
     (if k = ''configurable'' then Some (if is_object (cf_configurable c) then cf_configurable c else JObj [])
      else if k = ''run_id'' \<and> cf_runId c \<noteq> [] then Some (JStr (cf_runId c))
      else if k = ''run_name'' \<and> cf_runName c \<noteq> [] then Some (JStr (cf_runName c))
      else if k = ''max_concurrency'' \<and> cf_maxConcurrency c \<noteq> None then map_option JUint (cf_maxConcurrency c)
      else if k = ''recursion_limit'' \<and> cf_recursionLimit c \<noteq> None then map_option JUint (cf_recursionLimit c)
      else if k = ''callbacks'' \<and> \<not> is_null (cf_callbacks c) then Some (cf_callbacks c)
      else if k = ''metadata'' \<and> is_object (cf_metadata c) \<and> \<not> jempty (cf_metadata c) then Some (cf_metadata c)
      else if k = ''tags'' \<and> cf_tags c \<noteq> [] then Some (tagsToJson (cf_tags c))
      else None)"
  unfolding RunnableConfig_toJson_def Let_def
  by (simp add: jget_def [of "JObj []"])

lemma toJson_fields_ok:
  assumes wf: "config_wf c" and found: "jget (RunnableConfig_toJson c) k = Some v"
  shows "fieldOk (k, v)"
proof -
  have "k \<in> {''tags'', ''metadata'', ''callbacks'', ''recursion_limit'', ''max_concurrency'',
      ''run_name'', ''run_id'', ''configurable''}"
    (is "k \<in> ?keys")
  proof (rule ccontr)
    assume "k \<notin> ?keys"
    then have "jget (RunnableConfig_toJson c) k = None" unfolding jget_toJson by simp
    with found show False by simp
  qed
  then consider "k = ''tags''" | "k = ''metadata''" | "k = ''callbacks''" | "k = ''recursion_limit''"
    | "k = ''max_concurrency''" | "k = ''run_name''" | "k = ''run_id''" | "k = ''configurable''"
    by (elim insertE emptyE)
  then show ?thesis
  proof cases
    case 1
    with found have "v = JArr (map JStr (cf_tags c))" by (simp add: jget_toJson tagsToJson_def split: if_splits)
    with 1 show ?thesis by (auto simp: fieldOk_def isRunnableConfigKey_def)
  next
    case 4
    with found obtain w where "v = JUint w" "cf_recursionLimit c = Some w"
      by (auto simp: jget_toJson split: if_splits)
    with 4 wf show ?thesis by (auto simp: fieldOk_def isRunnableConfigKey_def config_wf_def)
  next
    case 5
    with found obtain w where "v = JUint w" "cf_maxConcurrency c = Some w"
      by (auto simp: jget_toJson split: if_splits)
    with 5 wf show ?thesis by (auto simp: fieldOk_def isRunnableConfigKey_def config_wf_def)
  qed (use found in \<open>(simp add: jget_toJson fieldOk_def isRunnableConfigKey_def split: if_splits; fail)?,
    auto simp: jget_toJson fieldOk_def isRunnableConfigKey_def split: if_splits\<close>)
qed

lemma config_roundtrip:
  assumes wf: "config_wf c"
  shows "RunnableConfig_fromJson (RunnableConfig_toJson c) = Inr c"
proof -
  let ?m = "jitems (RunnableConfig_toJson c)"
  have ordered: "is_object (RunnableConfig_toJson c)" "omap_wf ?m"
    using toJson_ordered [of c] by (auto simp: orderedObject_def)
  have get: "map_of ?m k = jget (RunnableConfig_toJson c) k" for k by (simp add: jget_def)
  have "\<forall>p \<in> set ?m. fieldOk p"
    using toJson_fields_ok [OF wf] omap_wf_map_of_iff [OF ordered(2)] get by fastforce
  then have "foldM_result parseItem emptyConfig ?m = Inr (fieldsOf (map_of ?m) emptyConfig)"
    using omap_wf_distinct [OF ordered(2)] by (rule parseItems_ok)
  moreover have "fieldsOf (map_of ?m) emptyConfig = c"
  proof -
    have meta: "cf_metadata c = JObj []" if "jempty (cf_metadata c)"
      using that wf by (cases "cf_metadata c") (auto simp: config_wf_def)
    have calls: "cf_callbacks c = JNull" if "is_null (cf_callbacks c)"
      using that by (cases "cf_callbacks c") auto
    show ?thesis
      using wf meta calls
      by (intro RunnableConfig.equality)
        (auto simp: fieldsOf_def get jget_toJson emptyConfig_def tagsToJson_def str_of_JStr config_wf_def)
  qed
  moreover have "propagateConfigurableMetadata c = c"
    using wf by (cases c) (simp add: propagateConfigurableMetadata_def config_wf_def)
  ultimately show ?thesis
    using ordered(1) by (cases "RunnableConfig_toJson c") (auto simp: RunnableConfig_fromJson_def)
qed

section \<open>Unknown fields\<close>

lemma applyField_configurable:
  "applyRunnableConfigField k v c = Inr c' \<Longrightarrow> k \<noteq> ''configurable'' \<Longrightarrow> cf_configurable c' = cf_configurable c"
  by (auto simp: applyRunnableConfigField_def result_simps split: if_splits)

lemma parseItem_configurable:
  assumes "parseItem c (k, v) = Inr c'" and "k \<noteq> ''configurable''" and "is_object (cf_configurable c)"
  shows "is_object (cf_configurable c') \<and>
    jget (cf_configurable c') j =
      (if j = k \<and> \<not> isRunnableConfigKey k \<and> isPresentConfigValue v then Some v else jget (cf_configurable c) j)"
proof (cases "isRunnableConfigKey k")
  case True
  then have "cf_configurable c' = cf_configurable c"
    using assms(1,2) applyField_configurable by (simp add: parseItem_def)
  then show ?thesis using True assms(3) by simp
next
  case False
  then have "c' = keepUnknown k v c" using assms(1) by (simp add: parseItem_def)
  then show ?thesis using False assms(3) by (simp add: keepUnknown_def)
qed

lemma parseItems_configurable:
  assumes "foldM_result parseItem c ps = Inr c'" and "''configurable'' \<notin> fst ` set ps" and "distinct (map fst ps)"
    and "is_object (cf_configurable c)"
  shows "is_object (cf_configurable c') \<and>
    jget (cf_configurable c') j =
      (case map_of ps j of
         Some v \<Rightarrow> if \<not> isRunnableConfigKey j \<and> isPresentConfigValue v then Some v else jget (cf_configurable c) j
       | None \<Rightarrow> jget (cf_configurable c) j)"
  using assms
proof (induction ps arbitrary: c)
  case (Cons p ps)
  obtain k v where p: "p = (k, v)" by fastforce
  obtain c1 where one: "parseItem c (k, v) = Inr c1" and rest: "foldM_result parseItem c1 ps = Inr c'"
    using Cons.prems(1) p by (auto simp: result_simps)
  have k: "k \<noteq> ''configurable''" using Cons.prems(2) p by (metis fst_conv image_insert insertI1 list.simps(15))
  have c1: "is_object (cf_configurable c1)" "\<And>j. jget (cf_configurable c1) j =
      (if j = k \<and> \<not> isRunnableConfigKey k \<and> isPresentConfigValue v then Some v else jget (cf_configurable c) j)"
    using parseItem_configurable [OF one k Cons.prems(4)] by auto
  have "''configurable'' \<notin> fst ` set ps" "distinct (map fst ps)" using Cons.prems(2,3) by auto
  from Cons.IH [OF rest this c1(1)] have IH: "is_object (cf_configurable c')" "jget (cf_configurable c') j =
      (case map_of ps j of
         Some v \<Rightarrow> if \<not> isRunnableConfigKey j \<and> isPresentConfigValue v then Some v else jget (cf_configurable c1) j
       | None \<Rightarrow> jget (cf_configurable c1) j)" by auto
  have "map_of ps j = None" if "j = k" using Cons.prems(3) p that by (auto simp: map_of_eq_None_iff)
  then show ?case using IH p by (cases "j = k") (auto simp: c1(2) split: option.splits)
qed simp

lemma omap_wf_split:
  assumes "omap_wf (xs @ (k, v) # ys)"
  shows "\<forall>p \<in> set xs. fst p < k" and "\<forall>p \<in> set ys. k < fst p"
proof -
  have "\<forall>p \<in> set xs. fst p \<le> k" "\<forall>p \<in> set ys. k \<le> fst p" "k \<notin> fst ` set xs" "k \<notin> fst ` set ys"
    using assms by (auto simp: omap_wf_def sorted_wrt_append)
  then show "\<forall>p \<in> set xs. fst p < k" "\<forall>p \<in> set ys. k < fst p"
    unfolding less_le by (metis image_eqI)+
qed

text \<open>
  The fields are read in the order of their names.  The value of \<^verbatim>\<open>configurable\<close> replaces what was
  collected before it, so that of the unknown fields only those with a greater name are kept.
\<close>

lemma fromJson_configurable:
  assumes "omap_wf m" and "map_of m ''configurable'' = Some given" and "RunnableConfig_fromJson (JObj m) = Inr c"
  shows "jget (cf_configurable c) k =
    (if ''configurable'' < k \<and> \<not> isRunnableConfigKey k \<and> (\<exists>v. map_of m k = Some v \<and> isPresentConfigValue v)
     then map_of m k else jget given k)"
proof -
  obtain xs ys where m: "m = xs @ (''configurable'', given) # ys"
    using split_list [OF map_of_SomeD [OF assms(2)]] by blast
  have sorted: "\<forall>p \<in> set xs. fst p < ''configurable''" "\<forall>p \<in> set ys. ''configurable'' < fst p" "distinct (map fst m)"
    using omap_wf_split [OF assms(1) [unfolded m]] omap_wf_distinct [OF assms(1)] by blast+
  obtain c1 c2 where c2: "foldM_result parseItem (c1\<lparr>cf_configurable := given\<rparr>) ys = Inr c2"
      "is_object given" "c = propagateConfigurableMetadata c2"
    using assms(3) m
    by (auto simp: RunnableConfig_fromJson_def foldM_result_append result_simps parseItem_def isRunnableConfigKey_def
        applyRunnableConfigField_def split: if_splits)
  have "''configurable'' \<notin> fst ` set ys" "distinct (map fst ys)" using sorted m by auto
  note kept = parseItems_configurable [OF c2(1) this]
  have found: "map_of m k = map_of ys k" if "''configurable'' < k"
  proof -
    have "map_of xs k = None" using sorted(1) that by (fastforce simp: map_of_eq_None_iff)
    moreover have "k \<noteq> ''configurable''" using that by auto
    ultimately show ?thesis using m by (simp add: map_add_def split: option.split)
  qed
  have absent: "map_of ys k = None" if "\<not> ''configurable'' < k"
    using sorted(2) that by (auto simp: map_of_eq_None_iff)
  show ?thesis
    using kept [of k] c2 found absent
    by (cases "''configurable'' < k") (auto simp: propagateConfigurableMetadata_def Let_def split: option.splits)
qed

end
