(* ===== verification/Saver_Props.thy ===== *)
theory Saver_Props
  imports Memory_Saver
begin

text \<open>
  The operations of the in-memory saver that \<^verbatim>\<open>checkpointer.cpp\<close> builds from the others: what
  \<^verbatim>\<open>copyThread\<close> stores, and that the walk of \<^verbatim>\<open>getDeltaChannelHistory\<close> ends.
\<close>

section \<open>Delta history\<close>

context saver
begin

lemma getDelta_returns:
  assumes "inv s"
    and rank: "\<And>i c p. abs s (dq_threadId dq, dq_ns dq, i) = Some c \<Longrightarrow> cp_parent c = Some p \<Longrightarrow>
      p \<noteq> [] \<and> rank p < (rank i :: nat)"
    and fuel: "\<And>i. rank i < fuel"
  shows "\<exists>r s'. getDeltaChannelHistoryWith fuel ops dq s = Some (r, s') \<and> abs s' = abs s"
proof (cases "validateDeltaQuery dq")
  case (Inr u)
  then have ids: "dq_threadId dq \<noteq> []" "dq_checkpointId dq \<noteq> []"
    by (auto simp: validateDeltaQuery_def split: if_split_asm)
  obtain found s1 where get:
      "so_getTuple ops (CheckpointQuery_at (dq_threadId dq) (dq_checkpointId dq) (dq_ns dq)) s = (found, s1)"
    by (cases "so_getTuple ops (CheckpointQuery_at (dq_threadId dq) (dq_checkpointId dq) (dq_ns dq)) s") blast
  have s1: "inv s1" "abs s1 = abs s" using getTuple_frame [OF assms(1) get] by simp_all
  show ?thesis
  proof (cases "\<exists>rec. found = Inr (Some rec)")
    case True
    then obtain rec where found: "found = Inr (Some rec)" by blast
    obtain c where c: "abs s (dq_threadId dq, dq_ns dq, dq_checkpointId dq) = Some c"
        "sameCheckpoint (tu_checkpoint rec) c"
      using getTuple_at [OF assms(1) ids, of "dq_ns dq"] get found by (auto split: option.split_asm)
    have parent: "p \<noteq> [] \<and> rank p < fuel" if "cp_parent (tu_checkpoint rec) = Some p" for p
      using rank [OF c(1)] that sameCheckpoint_fields(1) [OF c(2)] fuel by simp
    obtain r s' where "deltaLoop fuel ops dq (cp_parent (tu_checkpoint rec)) (oset_of (dq_channels dq))
        (fold (\<lambda>ch hs. omap_emplace ch emptyHistory hs) (dq_channels dq) []) s1 = Some (r, s')" "abs s' = abs s"
      using deltaLoop_terminates [OF s1(1) ids(1), of rank] rank parent s1(2) by metis
    with Inr get found show ?thesis
      by (cases r) (simp_all add: getDeltaChannelHistoryWith_def Let_def)
  next
    case False
    with Inr get s1 show ?thesis
      by (auto simp: getDeltaChannelHistoryWith_def Let_def split: sum.split option.split)
  qed
qed (simp add: getDeltaChannelHistoryWith_def)

end

lemma deltaHistory_returns:
  assumes "ims_wf s"
    and "\<And>i c p. ims_abs s (dq_threadId dq, dq_ns dq, i) = Some c \<Longrightarrow> cp_parent c = Some p \<Longrightarrow>
      p \<noteq> [] \<and> rank p < (rank i :: nat)"
    and "\<And>i. rank i < fuel"
  shows "\<exists>r s'. IMS_getDeltaChannelHistory fuel jeq dq s = Some (r, s') \<and> ims_abs s' = ims_abs s"
  unfolding IMS_getDeltaChannelHistory_def using assms by (rule ims.getDelta_returns)

section \<open>Copy of a thread\<close>

text \<open>The checkpoint that is stored for a record.\<close>

definition copiedCheckpoint :: "CheckpointCopyThreadOptions \<Rightarrow> CheckpointTuple \<Rightarrow> Checkpoint" where
  "copiedCheckpoint co rec =
     (let c = rewriteCheckpointForCopy (co_target co) (co_targetNs co) (tu_checkpoint rec) in
      if tu_pendingWrites rec \<noteq> [] \<and> cp_pendingWrites c = []
      then c\<lparr>cp_pendingWrites := tu_pendingWrites rec\<rparr> else c)"

lemma copiedCheckpoint_fields:
  "cp_threadId (copiedCheckpoint co rec) = co_target co"
  "cp_ns (copiedCheckpoint co rec) = (case co_targetNs co of None \<Rightarrow> cp_ns (tu_checkpoint rec) | Some n \<Rightarrow> n)"
  "cp_checkpointId (copiedCheckpoint co rec) = cp_checkpointId (tu_checkpoint rec)"
  "sameCheckpoint (copiedCheckpoint co rec)
     (rewriteCheckpointForCopy (co_target co) (co_targetNs co) (tu_checkpoint rec))"
  by (simp_all add: copiedCheckpoint_def rewriteCheckpointForCopy_def sameCheckpoint_def Let_def)

lemma copyRecord_shape:
  "\<exists>none w. copyRecord ops co rec acc =
     sbind (so_put ops (copiedCheckpoint co rec)) (\<lambda>_.
     sbind (if none then sret () else so_putWrites ops w) (\<lambda>_.
     sret (acc\<lparr>mr_remaining := mr_remaining acc + 1,
       mr_latest := cp_checkpointId (copiedCheckpoint co rec)\<rparr>)))"
  unfolding copyRecord_def copiedCheckpoint_def Let_def by (intro exI) (rule refl)

lemma copyRecord_ok:
  assumes wf: "ims_wf s" and run: "copyRecord (ims_ops jeq) co rec acc s = (r, s')"
  shows "ims_wf s' \<and> (\<forall>acc'. r = Inr acc' \<longrightarrow> ims_abs s (ckeyOf (copiedCheckpoint co rec)) = None \<and>
    ims_abs s' = (ims_abs s)(ckeyOf (copiedCheckpoint co rec) \<mapsto> copiedCheckpoint co rec) \<and>
    mr_remaining acc' = Suc (mr_remaining acc))"
proof -
  obtain none w where shape: "copyRecord (ims_ops jeq) co rec acc =
      sbind (so_put (ims_ops jeq) (copiedCheckpoint co rec)) (\<lambda>_.
      sbind (if none then sret () else so_putWrites (ims_ops jeq) w) (\<lambda>_.
      sret (acc\<lparr>mr_remaining := mr_remaining acc + 1,
        mr_latest := cp_checkpointId (copiedCheckpoint co rec)\<rparr>)))"
    using copyRecord_shape by blast
  obtain p s1 where put: "IMS_put (copiedCheckpoint co rec) s = (p, s1)" by fastforce
  have s1: "ims_wf s1" using IMS_put_wf [OF wf, of "copiedCheckpoint co rec"] put by simp
  obtain q s2 where writes: "IMS_putWrites w s1 = (q, s2)" by fastforce
  have s2: "ims_wf s2" "ims_abs s2 = ims_abs s1"
    using IMS_putWrites_wf [OF s1, of w] IMS_putWrites_abs [of w s1] writes by simp_all
  have abs: "ims_abs s (ckeyOf (copiedCheckpoint co rec)) = None"
      "ims_abs s1 = (ims_abs s)(ckeyOf (copiedCheckpoint co rec) \<mapsto> copiedCheckpoint co rec)" if "p = Inr u" for u
    using IMS_put_abs [OF wf] put that by simp_all
  have ops: "so_put (ims_ops jeq) = IMS_put" "so_putWrites (ims_ops jeq) = IMS_putWrites"
    by (simp_all add: ims_ops_def)
  show ?thesis
    using run [unfolded shape ops] put s1 writes s2 abs
    by (cases p; cases none; cases q) (auto simp: sbind_def sret_def)
qed

text \<open>All records: every copy is in the map, next to what was there, and only under the target thread.\<close>

lemma copyRecords_ok:
  assumes "ims_wf s" and "sfold (copyRecord (ims_ops jeq) co) recs acc s = (r, s')"
  shows "ims_wf s' \<and> (\<forall>acc'. r = Inr acc' \<longrightarrow> ims_abs s \<subseteq>\<^sub>m ims_abs s' \<and>
    (\<forall>rec \<in> set recs. ims_abs s' (ckeyOf (copiedCheckpoint co rec)) = Some (copiedCheckpoint co rec)) \<and>
    (\<forall>t n i. t \<noteq> co_target co \<longrightarrow> ims_abs s' (t, n, i) = ims_abs s (t, n, i)) \<and>
    mr_remaining acc' = mr_remaining acc + length recs)"
  using assms
proof (induction recs arbitrary: acc s)
  case Nil
  then show ?case by (auto simp: sret_def)
next
  case (Cons rec recs)
  obtain r1 s1 where first: "copyRecord (ims_ops jeq) co rec acc s = (r1, s1)" by fastforce
  note step = copyRecord_ok [OF Cons.prems(1) first]
  show ?case
  proof (cases r1)
    case (Inl e)
    with Cons.prems(2) first step show ?thesis by (auto simp: sbind_def)
  next
    case (Inr acc1)
    then have "sfold (copyRecord (ims_ops jeq) co) recs acc1 s1 = (r, s')"
      using Cons.prems(2) first by (simp add: sbind_def)
    note later = Cons.IH [OF _ this]
    have key: "ckeyOf (copiedCheckpoint co rec) = (co_target co, cp_ns (copiedCheckpoint co rec),
        cp_checkpointId (copiedCheckpoint co rec))"
      by (simp add: ckeyOf_def copiedCheckpoint_fields)
    have s1: "ims_wf s1" "ims_abs s \<subseteq>\<^sub>m ims_abs s1"
        "ims_abs s1 (ckeyOf (copiedCheckpoint co rec)) = Some (copiedCheckpoint co rec)"
        "t \<noteq> co_target co \<Longrightarrow> ims_abs s1 (t, n, i) = ims_abs s (t, n, i)"
        "mr_remaining acc1 = Suc (mr_remaining acc)" for t n i
      using step Inr by (auto simp: map_le_def key)
    have mono: "ims_abs s' k = Some d" if "ims_abs s1 \<subseteq>\<^sub>m ims_abs s'" "ims_abs s1 k = Some d" for k d
      using that by (metis domI map_le_def)
    from later [OF s1(1)] s1 show ?thesis
      by (auto intro: map_le_trans mono)
  qed
qed

text \<open>The checkpoints of the source thread that are copied.\<close>

definition copySource :: "CheckpointCopyThreadOptions \<Rightarrow> InMemorySaver \<Rightarrow> Checkpoint list" where
  "copySource co s = filter (\<lambda>c. case co_ns co of None \<Rightarrow> True | Some n \<Rightarrow> cp_ns c = n)
     (threadCheckpoints s (co_source co))"

definition copyTargetCleared :: "CheckpointCopyThreadOptions \<Rightarrow> InMemorySaver \<Rightarrow> InMemorySaver" where
  "copyTargetCleared co s = (if co_overwriteTarget co then snd (IMS_deleteThread (co_target co) s) else s)"

lemma copyTargetCleared_wf: "ims_wf s \<Longrightarrow> ims_wf (copyTargetCleared co s)"
  by (simp add: copyTargetCleared_def IMS_deleteThread_wf)

lemma IMS_copyThread_eq:
  assumes "validateCopyOptions co = Inr ()"
  shows "IMS_copyThread jeq co s =
    sfold (copyRecord (ims_ops jeq) co)
      (map (listRecord (ims_writes (copyTargetCleared co s)))
        (sort_key olderKey (copySource co (copyTargetCleared co s))))
      \<lparr>mr_removed = 0, mr_remaining = 0, mr_latest = []\<rparr> (copyTargetCleared co s)"
proof -
  let ?s = "copyTargetCleared co s"
  let ?lo = "\<lparr>lo_threadId = co_source co, lo_ns = co_ns co, lo_checkpointId = None, lo_before = None,
    lo_limit = None, lo_metadataFilter = JObj [], lo_order = OldestFirst\<rparr>"
  have "co_source co \<noteq> []" using assms by (auto simp: validateCopyOptions_def split: if_split_asm)
  then have "validateCheckpointListOptions ?lo = Inr ()"
    by (simp add: validateCheckpointListOptions_def)
  then have "IMS_list jeq ?lo ?s = (Inr (map (listRecord (ims_writes ?s)) (sort_key olderKey (copySource co ?s))), ?s)"
    by (simp add: IMS_list_def copySource_def threadCheckpoints_def applyListOptions_plain Let_def
        split: option.split)
  then have list: "so_list (ims_ops jeq) ?lo ?s =
      (Inr (map (listRecord (ims_writes ?s)) (sort_key olderKey (copySource co ?s))), ?s)"
    by (simp add: ims_ops_def)
  have "(if co_overwriteTarget co then so_deleteThread (ims_ops jeq) (co_target co) else sret ()) s = (Inr (), ?s)"
    by (simp add: copyTargetCleared_def IMS_deleteThread_def sret_def ims_ops_def)
  with list show ?thesis
    using assms by (simp add: IMS_copyThread_def copyThreadWith_def sbind_def)
qed

lemma IMS_copyThread_invalid:
  "validateCopyOptions co = Inl e \<Longrightarrow> IMS_copyThread jeq co s = (Inl e, s)"
  by (simp add: IMS_copyThread_def copyThreadWith_def sbind_def)

lemma IMS_copyThread_wf:
  assumes "ims_wf s"
  shows "ims_wf (snd (IMS_copyThread jeq co s))"
proof (cases "validateCopyOptions co")
  case (Inl e)
  with assms show ?thesis by (simp add: IMS_copyThread_invalid)
next
  case (Inr u)
  then have "IMS_copyThread jeq co s = sfold (copyRecord (ims_ops jeq) co)
      (map (listRecord (ims_writes (copyTargetCleared co s)))
        (sort_key olderKey (copySource co (copyTargetCleared co s))))
      \<lparr>mr_removed = 0, mr_remaining = 0, mr_latest = []\<rparr> (copyTargetCleared co s)"
    by (simp add: IMS_copyThread_eq)
  with copyRecords_ok [OF copyTargetCleared_wf [OF assms]] show ?thesis by (metis prod.collapse)
qed

lemma copySource_cleared:
  assumes "\<not> co_overwriteTarget co \<or> co_source co \<noteq> co_target co"
  shows "copySource co (copyTargetCleared co s) = copySource co s"
  using assms by (auto simp: copySource_def copyTargetCleared_def IMS_deleteThread_def threadCheckpoints_def)

lemma tu_checkpoint_listRecord: "sameCheckpoint (tu_checkpoint (listRecord ws c)) c"
  by (simp add: listRecord_def sameCheckpoint_def Let_def)

lemma copied_same:
  assumes "sameCheckpoint (tu_checkpoint rec) c"
  shows "sameCheckpoint (copiedCheckpoint co rec) (rewriteCheckpointForCopy (co_target co) (co_targetNs co) c)"
    and "ckeyOf (copiedCheckpoint co rec) =
      (co_target co, (case co_targetNs co of None \<Rightarrow> cp_ns c | Some n \<Rightarrow> n), cp_checkpointId c)"
proof -
  obtain ws where c: "tu_checkpoint rec = c\<lparr>cp_pendingWrites := ws\<rparr>"
    using assms unfolding sameCheckpoint_def by blast
  show "sameCheckpoint (copiedCheckpoint co rec) (rewriteCheckpointForCopy (co_target co) (co_targetNs co) c)"
    using copiedCheckpoint_fields(4) [of co rec]
    by (cases "co_targetNs co") (simp_all add: c sameCheckpoint_def rewriteCheckpointForCopy_def)
  show "ckeyOf (copiedCheckpoint co rec) =
      (co_target co, (case co_targetNs co of None \<Rightarrow> cp_ns c | Some n \<Rightarrow> n), cp_checkpointId c)"
    by (simp add: c copiedCheckpoint_fields ckeyOf_def split: option.split)
qed

lemma copyThread_copies:
  assumes "ims_wf s" and "IMS_copyThread jeq co s = (Inr mr, s')"
    and other: "\<not> co_overwriteTarget co \<or> co_source co \<noteq> co_target co"
  shows "mr_remaining mr = length (copySource co s) \<and>
    (\<forall>c \<in> set (copySource co s). \<exists>d. sameCheckpoint d (rewriteCheckpointForCopy (co_target co) (co_targetNs co) c) \<and>
      ims_abs s' (co_target co, (case co_targetNs co of None \<Rightarrow> cp_ns c | Some n \<Rightarrow> n), cp_checkpointId c) = Some d) \<and>
    (\<forall>t n i. t \<noteq> co_target co \<longrightarrow> ims_abs s' (t, n, i) = ims_abs s (t, n, i))"
proof -
  have "validateCopyOptions co = Inr ()"
    using assms(2) IMS_copyThread_invalid [of co] by (cases "validateCopyOptions co") auto
  note all = copyRecords_ok [OF copyTargetCleared_wf [OF assms(1)] assms(2) [unfolded IMS_copyThread_eq [OF this]]]
  have cleared: "ims_abs (copyTargetCleared co s) (t, n, i) = ims_abs s (t, n, i)" if "t \<noteq> co_target co" for t n i
    using that by (simp add: copyTargetCleared_def IMS_deleteThread_abs)
  have "\<exists>d. sameCheckpoint d (rewriteCheckpointForCopy (co_target co) (co_targetNs co) c) \<and>
      ims_abs s' (co_target co, (case co_targetNs co of None \<Rightarrow> cp_ns c | Some n \<Rightarrow> n), cp_checkpointId c) = Some d"
    if "c \<in> set (copySource co s)" for c
    using that all copied_same [OF tu_checkpoint_listRecord [of "ims_writes (copyTargetCleared co s)" c], of co]
    by (auto simp: copySource_cleared [OF other])
  with all cleared show ?thesis by (simp add: copySource_cleared [OF other])
qed

text \<open>A thread copied onto itself with \<^verbatim>\<open>overwriteTarget_\<close> is erased before it is read.\<close>

lemma copyThread_onto_itself:
  assumes "validateCopyOptions co = Inr ()" and "co_overwriteTarget co" and "co_source co = co_target co"
  shows "fst (IMS_copyThread jeq co s) = Inr \<lparr>mr_removed = 0, mr_remaining = 0, mr_latest = []\<rparr> \<and>
    ims_abs (snd (IMS_copyThread jeq co s)) (co_source co, n, i) = None"
proof -
  have "copySource co (copyTargetCleared co s) = []"
    using assms(2,3) by (simp add: copySource_def copyTargetCleared_def IMS_deleteThread_def threadCheckpoints_def)
  with assms show ?thesis
    by (simp add: IMS_copyThread_eq sret_def copyTargetCleared_def IMS_deleteThread_abs)
qed

text \<open>What a successful copy does, in both cases.\<close>

lemma copyTargetCleared_other:
  "t \<noteq> co_target co \<Longrightarrow> ims_abs (copyTargetCleared co s) (t, n, i) = ims_abs s (t, n, i)"
  by (simp add: copyTargetCleared_def IMS_deleteThread_abs)

lemma copyThread_effect:
  assumes "ims_wf s" and "IMS_copyThread jeq co s = (Inr mr, s')"
  shows "(if co_overwriteTarget co \<and> co_source co = co_target co
     then mr_remaining mr = 0 \<and> (\<forall>n i. ims_abs s' (co_target co, n, i) = None)
     else mr_remaining mr = length (copySource co s) \<and>
       (\<forall>c \<in> set (copySource co s). \<exists>d. sameCheckpoint d (rewriteCheckpointForCopy (co_target co) (co_targetNs co) c) \<and>
         ims_abs s' (co_target co, (case co_targetNs co of None \<Rightarrow> cp_ns c | Some n \<Rightarrow> n), cp_checkpointId c) = Some d)) \<and>
    (\<forall>t n i. t \<noteq> co_target co \<longrightarrow> ims_abs s' (t, n, i) = ims_abs s (t, n, i))"
proof (cases "co_overwriteTarget co \<and> co_source co = co_target co")
  case True
  have valid: "validateCopyOptions co = Inr ()"
    using assms(2) IMS_copyThread_invalid [of co] by (cases "validateCopyOptions co") auto
  have "copySource co (copyTargetCleared co s) = []"
    using True by (simp add: copySource_def copyTargetCleared_def IMS_deleteThread_def threadCheckpoints_def)
  then have "s' = copyTargetCleared co s"
    using assms(2) by (simp add: IMS_copyThread_eq [OF valid] sret_def)
  moreover have "ims_abs s' (co_target co, n, i) = None" "mr_remaining mr = 0" for n i
    using copyThread_onto_itself [OF valid, of jeq s n i] True assms(2) by auto
  ultimately show ?thesis using True by (auto simp: copyTargetCleared_other)
next
  case False
  then have other: "\<not> co_overwriteTarget co \<or> co_source co \<noteq> co_target co" by simp
  from copyThread_copies [OF assms this] show ?thesis unfolding if_not_P [OF False] by blast
qed

end
