(* ===== verification/Samples.thy ===== *)
theory Samples
  imports Run_Example Subgraph Compiled_Props Run_Config Graph_Builder Saver_Props Interrupts Budget
begin

text \<open>
  Further concrete values the witnesses are evaluated on: a node that succeeds at its second
  attempt, and a saver with one checkpoint.
\<close>

lemma okE:
  assumes "(case x of (Inl e, s) \<Rightarrow> False | (Inr a, s) \<Rightarrow> P a s)"
  obtains a s where "x = (Inr a, s)" and "P a s"
  using assms by (cases x) (auto split: sum.split_asm)

lemma leftE:
  assumes "(case x of (Inl (Inl e), s) \<Rightarrow> False | (Inl (Inr a), s) \<Rightarrow> P a s | (Inr b, s) \<Rightarrow> False)"
  obtains a s where "x = (Inl (Inr a), s)" and "P a s"
  using assms by (cases x) (auto split: sum.split_asm)

definition flakyHandler :: NodeHandler where
  "flakyHandler st rt =
     (if rt_attempt rt = 1 then Returned (Inl (mkStatus Unavailable ''no model'')) []
      else Returned (Inr (obj [(''seen'', JStr (rt_nodeId rt))])) [])"

definition flakyOptions :: NodeOptions where
  "flakyOptions = defaultNodeOptions\<lparr>retry := \<lparr>maxAttempts = 3, initialInterval = 1, backoff = (\<lambda>d. 2 * d)\<rparr>\<rparr>"

definition flakyGraph :: StateGraph where
  "flakyGraph = snd (addNode ''a'' (Some flakyHandler) flakyOptions emptyGraph)"

definition flakySpec :: NodeSpec where
  "flakySpec = the (map_of (sg_nodes flakyGraph) ''a'')"

definition flakyConfig :: "InMemorySaver run_cfg" where
  "flakyConfig = runConfig \<lparr>cg_graph = flakyGraph, cg_env = sampleRunEnv\<rparr> sampleOptions True False"

definition sampleResult :: RunResult where
  "sampleResult = rs_result (initialRunState sampleConfig (JObj []) 0 None emptySaver 0)"

definition sampleCheckpoint :: Checkpoint where
  "sampleCheckpoint = checkpointFor sampleConfig (initialRunState sampleConfig (JObj []) 0 None emptySaver 0) 0
     (startTasks sampleGraph) [] [] ''initial''"

definition usedSaver :: InMemorySaver where
  "usedSaver = snd (IMS_put sampleCheckpoint emptySaver)"

definition sampleUpdate :: "(status + StateSnapshot) \<times> InMemorySaver" where
  "sampleUpdate = updateState sampleCompiled ''t'' (obj [(''seen'', JStr ''edited'')]) sampleOptions
     \<lparr>uo_checkpointId = [], uo_asNode = Some ''a''\<rparr> 7 usedSaver"

lemma usedSaver_wf: "ims_wf usedSaver"
  unfolding usedSaver_def by (rule IMS_put_wf [OF ims_wf_empty])

lemma usedSaver_steps:
  "ims_abs usedSaver (t, n, i) = Some c \<Longrightarrow> cp_step c = 0"
proof -
  assume "ims_abs usedSaver (t, n, i) = Some c"
  then have "c \<in> set (threadCheckpoints usedSaver t)"
    by (auto simp: ims_abs_def find_Some_iff)
  moreover have "set (threadCheckpoints usedSaver t) \<subseteq> {sampleCheckpoint}"
    by (auto simp: usedSaver_def IMS_put_def threadCheckpoints_def emptySaver_def Let_def
        split: sum.splits option.splits if_splits)
  moreover have "cp_step sampleCheckpoint = 0"
    by (simp add: sampleCheckpoint_def checkpointFor_def Let_def)
  ultimately show ?thesis by auto
qed

lemma sampleUpdate_ok:
  "(case sampleUpdate of (Inr snap, _) \<Rightarrow> sn_step snap = 1 \<and> sn_next snap = [] | _ \<Rightarrow> False)"
  by code_simp

lemma failHead_stored:
  "(case failHead of (Inr sx, t) \<Rightarrow> ims_checkpoints (rs_saver t) = [] \<and> ims_writes (rs_saver t) = []
    | _ \<Rightarrow> False)"
  by code_simp

lemma failHead_saver:
  assumes "failHead = (Inr sx, t)"
  shows "rs_saver t = emptySaver"
  using failHead_stored [unfolded assms] by (cases "rs_saver t") (simp add: emptySaver_def)

lemma strictRun_error:
  "(case withRunErrorMetadata (JObj []) (mkStatus InvalidArgument (''state schema validation failed: '' @
      statusToString (mkStatus InvalidArgument ''seen is required''))) [] 0
      (runStatusFromStatus (mkStatus InvalidArgument (''state schema validation failed: '' @
        statusToString (mkStatus InvalidArgument ''seen is required'')))) of Inr st \<Rightarrow> True | Inl _ \<Rightarrow> False)"
  by code_simp

definition failSpec :: NodeSpec where
  "failSpec = the (map_of (sg_nodes failGraph) ''b'')"

lemma flakyGraph_a: "map_of (sg_nodes flakyGraph) ''a'' = Some flakySpec"
proof -
  have "(case map_of (sg_nodes flakyGraph) ''a'' of None \<Rightarrow> False | Some spec \<Rightarrow> True)"
    by code_simp
  then show ?thesis by (simp add: flakySpec_def split: option.split_asm)
qed

lemma failGraph_b: "map_of (sg_nodes failGraph) ''b'' = Some failSpec"
proof -
  have "(case map_of (sg_nodes failGraph) ''b'' of None \<Rightarrow> False | Some spec \<Rightarrow> True)"
    by code_simp
  then show ?thesis by (simp add: failSpec_def split: option.split_asm)
qed

lemma failSpec_handler: "(case errorHandler (ns_options failSpec) of None \<Rightarrow> True | Some h \<Rightarrow> False)"
  by code_simp

lemma sampleGraph_wf: "sg_wf sampleGraph"
proof -
  have "builder (sbind (addNode ''a'' (Some sampleHandler) defaultNodeOptions) (\<lambda>_.
      sbind (setEntryPoint ''a'') (\<lambda>_. setFinishPoint ''a'')))"
    by (intro builder_bind builder_addNode) (simp_all add: setEntryPoint_def setFinishPoint_def builder_addEdge)
  then show ?thesis using sg_wf_empty by (simp add: sampleGraph_def builder_def)
qed

section \<open>A thread with two checkpoints\<close>

definition childCheckpoint :: Checkpoint where
  "childCheckpoint = sampleCheckpoint\<lparr>cp_checkpointId := ''child'', cp_parent := Some ''r-step-0'', cp_step := 1\<rparr>"

definition twoSaver :: InMemorySaver where
  "twoSaver = snd (IMS_put childCheckpoint usedSaver)"

lemma twoSaver_wf: "ims_wf twoSaver"
  unfolding twoSaver_def by (rule IMS_put_wf [OF usedSaver_wf])

lemma twoSaver_list: "threadCheckpoints twoSaver ''t'' = [sampleCheckpoint, childCheckpoint]"
  by code_simp

lemma twoSaver_entries:
  assumes "ims_abs twoSaver (''t'', n, i) = Some c"
  shows "c \<in> {sampleCheckpoint, childCheckpoint} \<and> cp_checkpointId c = i"
  using assms by (auto simp: ims_abs_def twoSaver_list find_Some_iff split: if_split_asm)

lemma twoSaver_parents:
  "cp_parent sampleCheckpoint = None" "cp_checkpointId sampleCheckpoint = ''r-step-0''"
  "cp_parent childCheckpoint = Some ''r-step-0''" "cp_checkpointId childCheckpoint = ''child''"
  by code_simp+

definition copyOptions :: CheckpointCopyThreadOptions where
  "copyOptions = \<lparr>co_source = ''t'', co_target = ''u'', co_ns = None, co_targetNs = None, co_overwriteTarget = True\<rparr>"

lemma copy_ok:
  "(case IMS_copyThread (=) copyOptions twoSaver of (Inr mr, _) \<Rightarrow> mr_latest mr = ''child'' | _ \<Rightarrow> False)"
  by code_simp

section \<open>Interrupts and configurations\<close>

definition samplePending :: PendingInterrupt where
  "samplePending = \<lparr>pi_interrupt = \<lparr>in_id = ''ask'', in_value = JStr ''name?'', in_resumeValues = JObj []\<rparr>,
     pi_node = ''a'', pi_order = Some 2\<rparr>"

lemma samplePending_ok:
  "(case withInterruptMetadata (JObj []) [samplePending] 4 of Inl e \<Rightarrow> False | Inr st \<Rightarrow> True)"
  by code_simp

definition sampleRunnable :: RunnableConfig where
  "sampleRunnable = emptyConfig\<lparr>cf_tags := [''x''], cf_recursionLimit := Some 25, cf_runName := ''demo'',
     cf_metadata := JObj [(''user'', JStr ''u'')], cf_configurable := JObj [(''user'', JStr ''u'')]\<rparr>"

lemma sampleRunnable_wf: "config_wf sampleRunnable"
proof -
  have "is_object (cf_metadata sampleRunnable)" "is_object (cf_configurable sampleRunnable)"
    "propagateMetadata (cf_metadata sampleRunnable) (cf_configurable sampleRunnable) = cf_metadata sampleRunnable"
    by code_simp+
  moreover have "cf_recursionLimit sampleRunnable = Some 25" "cf_maxConcurrency sampleRunnable = None"
    by (simp_all add: sampleRunnable_def emptyConfig_def)
  ultimately show ?thesis by (simp add: config_wf_def)
qed

lemma lostField_parses:
  "(case RunnableConfig_fromJson (JObj [(''app'', JStr ''x''), (''configurable'', JObj []), (''zone'', JStr ''y'')]) of
      Inl e \<Rightarrow> False | Inr c \<Rightarrow> True)"
  by code_simp

section \<open>A graph as a node\<close>

definition childOptions :: "InMemorySaver SubgraphOptions" where
  "childOptions = \<lparr>so_options = sampleOptions\<lparr>opt_eventTypes := [ToolCallStarted],
       opt_limits := ResourceLimits_maxSteps 2 ResourceLimits_unlimited\<rparr>,
     so_inheritThreadId = True, so_threadIdSuffix = [], so_persistence = PerInvocation, so_ns = []\<rparr>"

definition parentRuntime :: Runtime where
  "parentRuntime = \<lparr>rt_runId = ''r'', rt_threadId = ''t'', rt_ns = [], rt_taskId = ''x'', rt_step = 1,
     rt_nodeId = ''sub'', rt_resumeValue = None, rt_attempt = 1\<rparr>"

definition parentState :: json where
  "parentState = obj [(''seen'', JStr ''no''), (''topic'', JStr ''b'')]"

lemma childRun_completed:
  "(case invokeSubgraph (Suc (stepBound (opt_limits (so_options childOptions)))) sampleCompiled parentState
       (childRunOptions childOptions None None parentRuntime) emptySaver 0 of
      Some (Inr child, sv) \<Rightarrow> rr_status child = Completed \<and>
        rr_state child = obj [(''seen'', JStr ''a''), (''topic'', JStr ''b'')]
    | _ \<Rightarrow> False)"
  by code_simp

lemma subgraphOutput_sample:
  assumes "rr_status child = Completed" and "rr_state child = obj [(''seen'', JStr ''a''), (''topic'', JStr ''b'')]"
  shows "case subgraphOutput (=) parentRuntime parentState child of
      Inr out \<Rightarrow> no_update out = obj [(''seen'', JStr ''a'')] | _ \<Rightarrow> False"
proof -
  have "stateDiffUpdate (=) parentState (obj [(''seen'', JStr ''a''), (''topic'', JStr ''b'')]) =
      Inr (obj [(''seen'', JStr ''a'')])" by code_simp
  with assms show ?thesis
    by (auto simp: subgraphOutput_def NodeOutput_update_def NodeOutput_command_def Command_gotoNodes_def
        result_simps split: option.split)
qed

end
