(* ===== verification/Rate_Limit.thy ===== *)
theory Rate_Limit
  imports LG_Prelude
begin

text \<open>
  The token bucket of \<^verbatim>\<open>src/src/foundation/rate_limit/rate_limiter.cpp\<close>.  Token counts are the
  code's 64-bit unsigned integers, with their wrap-around.  A time point or a duration is its
  number of nanoseconds, an integer; the reading of the clock is an argument of the operations
  that read it.  A sequence of calls is a list of readings with the permits asked for; the lemmas
  bound what a sequence is granted, whatever the readings, and show that a refused call succeeds
  after the wait it was told.
\<close>

section \<open>Policy\<close>

record rate_policy =
  rp_capacity :: "64 word"
  rp_refill :: "64 word"
  rp_interval :: int

definition RateLimitPolicy_perSecond :: "64 word \<Rightarrow> 64 word \<Rightarrow> rate_policy" where
  "RateLimitPolicy_perSecond rate burst =
     \<lparr>rp_capacity = (if burst = 0 then rate else burst), rp_refill = rate,
      rp_interval = 1000000000\<rparr>"

definition RateLimitPolicy_validate :: "rate_policy \<Rightarrow> status" where
  "RateLimitPolicy_validate p =
     (if rp_capacity p = 0
      then mkStatus InvalidArgument ''rate limit capacity must be greater than 0''
      else if rp_refill p = 0
      then mkStatus InvalidArgument ''rate limit refill must be greater than 0''
      else if rp_interval p \<le> 0
      then mkStatus InvalidArgument ''rate limit interval must be positive''
      else okStatus)"

record rate_result =
  rt_allowed :: bool
  rt_retryAfter :: int
  rt_remaining :: "64 word"
  rt_status :: status

text \<open>The members of the limiter.\<close>

record rate_limiter =
  rl_policy :: rate_policy
  rl_tokens :: "64 word"
  rl_updatedAt :: int

definition durationMax :: int where
  "durationMax = 2 ^ 63 - 1"

section \<open>Operations\<close>

definition intervalsForTokens :: "64 word \<Rightarrow> 64 word \<Rightarrow> 64 word" where
  "intervalsForTokens tokens refill =
     (if tokens = 0 \<or> refill = 0 then 0 else (tokens + refill - 1) div refill)"

definition RateLimiter_new :: "rate_policy \<Rightarrow> int \<Rightarrow> rate_limiter" where
  "RateLimiter_new p now = \<lparr>rl_policy = p, rl_tokens = rp_capacity p, rl_updatedAt = now\<rparr>"

definition refillAmount :: "rate_policy \<Rightarrow> int \<Rightarrow> 64 word" where
  "refillAmount p elapsedIntervals =
     (if of_int elapsedIntervals > (- 1) div rp_refill p then - 1
      else of_int elapsedIntervals * rp_refill p)"

definition RateLimiter_refill :: "int \<Rightarrow> rate_limiter \<Rightarrow> rate_limiter" where
  "RateLimiter_refill now l =
     (let p = rl_policy l in
      if now \<le> rl_updatedAt l then l
      else let elapsedIntervals = (now - rl_updatedAt l) div rp_interval p in
      if elapsedIntervals \<le> 0 then l
      else let add = refillAmount p elapsedIntervals in
      l\<lparr>rl_tokens :=
          (if add \<ge> rp_capacity p \<or> rl_tokens l > rp_capacity p - add then rp_capacity p
           else rl_tokens l + add),
        rl_updatedAt := rl_updatedAt l + rp_interval p * elapsedIntervals\<rparr>)"

text \<open>
  The product of the interval and the unsigned count is an unsigned duration, so the time the
  tokens are ready, its comparison with the clock and the difference are computed unsigned; the
  difference returns to a signed duration at the end.
\<close>

definition RateLimiter_retryAfter :: "64 word \<Rightarrow> int \<Rightarrow> rate_limiter \<Rightarrow> int" where
  "RateLimiter_retryAfter permits now l =
     (let p = rl_policy l in
      if rl_tokens l \<ge> permits then 0
      else let intervals = intervalsForTokens (permits - rl_tokens l) (rp_refill p) in
      if rp_interval p > 0 \<and> uint intervals > durationMax div rp_interval p then durationMax
      else let readyAt = of_int (rl_updatedAt l) + of_int (rp_interval p) * intervals in
      if readyAt \<le> (of_int now :: 64 word) then 0 else sint (readyAt - of_int now))"

definition RateLimiter_acquire ::
  "64 word \<Rightarrow> int \<Rightarrow> rate_limiter \<Rightarrow> rate_result \<times> rate_limiter" where
  "RateLimiter_acquire permits now l =
     (let s = RateLimitPolicy_validate (rl_policy l) in
      if \<not> isOk s
      then (\<lparr>rt_allowed = False, rt_retryAfter = 0, rt_remaining = rl_tokens l, rt_status = s\<rparr>, l)
      else if permits = 0
      then (\<lparr>rt_allowed = True, rt_retryAfter = 0, rt_remaining = rl_tokens l,
             rt_status = okStatus\<rparr>, l)
      else if permits > rp_capacity (rl_policy l)
      then (\<lparr>rt_allowed = False, rt_retryAfter = durationMax, rt_remaining = rl_tokens l,
             rt_status = mkStatus ResourceExhausted
               ''requested permits exceed rate limit capacity''\<rparr>, l)
      else let l = RateLimiter_refill now l in
      if rl_tokens l \<ge> permits
      then let l = l\<lparr>rl_tokens := rl_tokens l - permits\<rparr> in
        (\<lparr>rt_allowed = True, rt_retryAfter = 0, rt_remaining = rl_tokens l,
          rt_status = okStatus\<rparr>, l)
      else
        (\<lparr>rt_allowed = False, rt_retryAfter = RateLimiter_retryAfter permits now l,
          rt_remaining = rl_tokens l,
          rt_status = mkStatus ResourceExhausted ''rate limit exceeded''\<rparr>, l))"

definition RateLimiter_reset :: "int \<Rightarrow> rate_limiter \<Rightarrow> rate_limiter" where
  "RateLimiter_reset now l = l\<lparr>rl_tokens := rp_capacity (rl_policy l), rl_updatedAt := now\<rparr>"

text \<open>A sequence of calls: the permits granted over it, and the limiter after it.\<close>

fun acquireAll :: "(int \<times> 64 word) list \<Rightarrow> rate_limiter \<Rightarrow> nat \<times> rate_limiter" where
  "acquireAll [] l = (0, l)"
| "acquireAll ((now, permits) # calls) l =
     (let (r, l) = RateLimiter_acquire permits now l; (n, l) = acquireAll calls l in
      ((if rt_allowed r then unat permits else 0) + n, l))"

section \<open>Invariant\<close>

lemma mult_div_le_int: "0 < i \<Longrightarrow> i * (e div i) \<le> (e :: int)"
  using mult_div_mod_eq [of i e] pos_mod_sign [of i e] by linarith

definition rate_valid :: "rate_policy \<Rightarrow> bool" where
  "rate_valid p \<longleftrightarrow> rp_capacity p \<noteq> 0 \<and> rp_refill p \<noteq> 0 \<and> 0 < rp_interval p"

definition limiter_wf :: "rate_limiter \<Rightarrow> bool" where
  "limiter_wf l \<longleftrightarrow> rl_tokens l \<le> rp_capacity (rl_policy l)"

lemma validate_rate_valid: "isOk (RateLimitPolicy_validate p) \<longleftrightarrow> rate_valid p"
  by (auto simp: RateLimitPolicy_validate_def rate_valid_def)

text \<open>The product that decides a refill is the saturated one.\<close>

lemma refillAmount_unat:
  assumes "0 < n" and "n < 2 ^ 63" and "rp_refill p \<noteq> 0"
  shows "unat (refillAmount p n) = min (nat n * unat (rp_refill p)) (2 ^ 64 - 1)"
proof -
  let ?r = "unat (rp_refill p)"
  have r: "0 < ?r" using assms(3) by (simp add: unat_gt_0)
  have n: "unat (of_int n :: 64 word) = nat n"
    using assms by (simp add: unat_eq_nat_uint uint_word_of_int_eq take_bit_int_eq_self)
  have m: "unat ((- 1 :: 64 word) div rp_refill p) = (2 ^ 64 - 1) div ?r"
    by (simp add: unat_div unsigned_minus_1_eq_mask mask_eq_exp_minus_1)
  show ?thesis
  proof (cases "nat n * ?r \<le> 2 ^ 64 - 1")
    case True
    then have "nat n \<le> (2 ^ 64 - 1) div ?r" using r by (simp add: less_eq_div_iff_mult_less_eq)
    then have "\<not> of_int n > (- 1 :: 64 word) div rp_refill p"
      by (simp add: word_less_nat_alt n m)
    then have "refillAmount p n = of_int n * rp_refill p" by (simp add: refillAmount_def)
    moreover have "nat n * ?r < 2 ^ LENGTH(64)" using True by simp
    ultimately have "unat (refillAmount p n) = nat n * ?r"
      using n by (simp add: unat_mult_lem [THEN iffD1])
    with True show ?thesis by simp
  next
    case False
    then have "(2 ^ 64 - 1) div ?r < nat n" using r by (simp add: div_less_iff_less_mult)
    then have "refillAmount p n = - 1"
      by (simp add: refillAmount_def word_less_nat_alt n m)
    with False show ?thesis by (simp add: unsigned_minus_1_eq_mask mask_eq_exp_minus_1)
  qed
qed

text \<open>A refill adds the tokens of the elapsed intervals, up to the capacity.\<close>

definition refilled :: "rate_limiter \<Rightarrow> int \<Rightarrow> nat" where
  "refilled l now =
     min (unat (rp_capacity (rl_policy l)))
       (unat (rl_tokens l) +
        nat ((now - rl_updatedAt l) div rp_interval (rl_policy l)) * unat (rp_refill (rl_policy l)))"

lemma refill_tokens_aux:
  fixes t c a :: "64 word"
  assumes "t \<le> c"
  shows "unat (if a \<ge> c \<or> t > c - a then c else t + a) = min (unat c) (unat t + unat a)"
proof (cases "a \<ge> c")
  case True
  then show ?thesis by (simp add: word_le_nat_alt)
next
  case False
  then have a: "unat (c - a) = unat c - unat a" "unat a < unat c"
    by (simp_all add: unat_sub word_le_nat_alt)
  show ?thesis
  proof (cases "t > c - a")
    case True
    with a show ?thesis by (simp add: word_less_nat_alt)
  next
    case F: False
    with a have "unat t + unat a \<le> unat c" by (simp add: word_less_nat_alt)
    moreover from this have "unat t + unat a < 2 ^ LENGTH(64)"
      using unsigned_less [of c, where ?'a = nat] by linarith
    then have "unat (t + a) = unat t + unat a" by (simp add: unat_add_lem [THEN iffD1])
    ultimately show ?thesis using False F by simp
  qed
qed

lemma refill_policy [simp]: "rl_policy (RateLimiter_refill now l) = rl_policy l"
  by (simp add: RateLimiter_refill_def Let_def)

lemma refill_tokens:
  assumes "limiter_wf l" and "rate_valid (rl_policy l)" and "now - rl_updatedAt l < 2 ^ 63"
    and "rl_updatedAt l \<le> now"
  shows "unat (rl_tokens (RateLimiter_refill now l)) = refilled l now"
proof -
  let ?p = "rl_policy l" and ?n = "(now - rl_updatedAt l) div rp_interval (rl_policy l)"
  have le: "unat (rl_tokens l) \<le> unat (rp_capacity ?p)"
    using assms(1) by (simp add: limiter_wf_def word_le_nat_alt)
  show ?thesis
  proof (cases "now \<le> rl_updatedAt l \<or> ?n \<le> 0")
    case True
    with assms(4) have "?n \<le> 0" by auto
    with True le show ?thesis
      by (auto simp: RateLimiter_refill_def Let_def refilled_def)
  next
    case False
    have "?n \<le> now - rl_updatedAt l"
      using False assms(2) zdiv_mono2 [of "now - rl_updatedAt l" 1 "rp_interval ?p"]
      by (simp add: rate_valid_def)
    with False assms have n: "0 < ?n" "?n < 2 ^ 63" by auto
    let ?a = "refillAmount ?p ?n"
    have "unat (rl_tokens (RateLimiter_refill now l)) = min (unat (rp_capacity ?p)) (unat (rl_tokens l) + unat ?a)"
      using False assms(1) refill_tokens_aux [of "rl_tokens l" "rp_capacity ?p" ?a]
      by (simp add: RateLimiter_refill_def Let_def limiter_wf_def)
    also have "\<dots> = refilled l now"
      using refillAmount_unat [OF n, of ?p] assms(2) unsigned_less [of "rp_capacity ?p", where ?'a = nat]
      by (auto simp: refilled_def rate_valid_def)
    finally show ?thesis .
  qed
qed

lemma refill_wf [simp]: "limiter_wf l \<Longrightarrow> limiter_wf (RateLimiter_refill now l)"
  using refill_tokens_aux [of "rl_tokens l" "rp_capacity (rl_policy l)"]
  by (auto simp: limiter_wf_def word_le_nat_alt RateLimiter_refill_def Let_def)

lemma acquire_policy [simp]: "rl_policy (snd (RateLimiter_acquire permits now l)) = rl_policy l"
  by (simp add: RateLimiter_acquire_def Let_def)

lemma acquire_wf: "limiter_wf l \<Longrightarrow> limiter_wf (snd (RateLimiter_acquire permits now l))"
  using refill_wf [of l now]
  by (auto simp: RateLimiter_acquire_def Let_def limiter_wf_def word_le_nat_alt unat_sub)

lemma reset_wf [simp]: "limiter_wf (RateLimiter_reset now l)"
  by (simp add: RateLimiter_reset_def limiter_wf_def)

lemma new_wf [simp]: "limiter_wf (RateLimiter_new p now)"
  by (simp add: RateLimiter_new_def limiter_wf_def)

section \<open>What a sequence of calls is granted\<close>

text \<open>
  The tokens in hand and the permits granted never exceed the capacity and the refills of the
  whole intervals since the start.
\<close>

definition supplied :: "rate_policy \<Rightarrow> int \<Rightarrow> int \<Rightarrow> nat" where
  "supplied p start now = unat (rp_refill p) * nat ((now - start) div rp_interval p)"

definition on_schedule :: "int \<Rightarrow> int \<Rightarrow> nat \<Rightarrow> rate_limiter \<Rightarrow> bool" where
  "on_schedule start until granted l \<longleftrightarrow>
     limiter_wf l \<and> start \<le> rl_updatedAt l \<and> rl_updatedAt l \<le> until \<and>
     rp_interval (rl_policy l) dvd rl_updatedAt l - start \<and>
     granted + unat (rl_tokens l)
       \<le> unat (rp_capacity (rl_policy l)) + supplied (rl_policy l) start (rl_updatedAt l)"

lemma supplied_mono:
  "0 < rp_interval p \<Longrightarrow> t \<le> t' \<Longrightarrow> supplied p start t \<le> supplied p start t'"
  by (simp add: supplied_def zdiv_mono1 nat_mono)

lemma supplied_advance:
  assumes "0 < rp_interval p" and "rp_interval p dvd t - start" and "start \<le> t" and "0 \<le> n"
  shows "supplied p start (t + rp_interval p * n) = supplied p start t + unat (rp_refill p) * nat n"
proof -
  obtain k where k: "t - start = rp_interval p * k" using assms(2) by (elim dvdE)
  have "0 \<le> k" using k assms(1,3) by (metis diff_ge_0_iff_ge zero_le_mult_iff not_less)
  have "(t + rp_interval p * n - start) div rp_interval p = k + n"
    using k assms(1) by (simp add: algebra_simps) 
  moreover have "(t - start) div rp_interval p = k" using k assms(1) by simp
  ultimately show ?thesis
    using \<open>0 \<le> k\<close> assms(4) by (simp add: supplied_def nat_add_distrib algebra_simps)
qed

lemma refill_on_schedule:
  assumes "on_schedule start until g l" and "rate_valid (rl_policy l)" and "now \<le> until"
    and "until - start < 2 ^ 63"
  shows "on_schedule start until g (RateLimiter_refill now l)"
proof (cases "now \<le> rl_updatedAt l \<or> (now - rl_updatedAt l) div rp_interval (rl_policy l) \<le> 0")
  case True
  then have "RateLimiter_refill now l = l" by (auto simp: RateLimiter_refill_def Let_def)
  with assms(1) show ?thesis by simp
next
  case False
  let ?p = "rl_policy l"
  define n where "n = (now - rl_updatedAt l) div rp_interval ?p"
  define l' where "l' = RateLimiter_refill now l"
  have wf: "limiter_wf l" "start \<le> rl_updatedAt l" "rp_interval ?p dvd rl_updatedAt l - start"
    and pos: "0 < rp_interval ?p" "0 < n"
    using assms(1,2) False by (simp_all add: on_schedule_def rate_valid_def n_def)
  have at: "rl_updatedAt l' = rl_updatedAt l + rp_interval ?p * n"
    using False by (simp add: l'_def RateLimiter_refill_def Let_def n_def)
  have "rp_interval ?p * n \<le> now - rl_updatedAt l"
    using pos by (simp add: n_def mult_div_le_int)
  with at have upd: "rl_updatedAt l' \<le> until" using assms(3) by simp
  have "0 \<le> rp_interval ?p * n" using pos by simp
  then have low: "start \<le> rl_updatedAt l'" using at wf(2) by simp
  have "unat (rl_tokens l') \<le> unat (rl_tokens l) + nat n * unat (rp_refill ?p)"
    using refill_tokens [OF wf(1) assms(2), of now] wf(2) assms(3,4) False
    by (simp add: l'_def refilled_def n_def)
  moreover have "supplied ?p start (rl_updatedAt l')
      = supplied ?p start (rl_updatedAt l) + unat (rp_refill ?p) * nat n"
    using supplied_advance [OF pos(1) wf(3,2), of n] pos(2) by (simp add: at)
  moreover have "g + unat (rl_tokens l) \<le> unat (rp_capacity ?p) + supplied ?p start (rl_updatedAt l)"
    using assms(1) by (simp add: on_schedule_def)
  moreover have "rp_interval ?p dvd rl_updatedAt l' - start"
    using dvd_add [OF wf(3) dvd_triv_left [of "rp_interval ?p" n]] by (simp add: at diff_add_eq)
  ultimately show ?thesis
    using low upd refill_wf [OF wf(1), of now] refill_policy [of now l]
    unfolding on_schedule_def l'_def [symmetric] by (simp add: mult.commute)
qed

lemma acquire_on_schedule:
  assumes "on_schedule start until g l" and "rate_valid (rl_policy l)" and "now \<le> until"
    and "until - start < 2 ^ 63" and "RateLimiter_acquire permits now l = (r, l')"
  shows "on_schedule start until (g + (if rt_allowed r then unat permits else 0)) l'"
proof -
  have ok: "isOk (RateLimitPolicy_validate (rl_policy l))"
    using assms(2) by (simp add: validate_rate_valid)
  define m where "m = RateLimiter_refill now l"
  have m: "on_schedule start until g m" "rl_policy m = rl_policy l"
    using refill_on_schedule [OF assms(1-4)] by (simp_all add: m_def)
  consider "permits = 0" | "permits \<noteq> 0" "permits > rp_capacity (rl_policy l)"
    | "permits \<noteq> 0" "\<not> permits > rp_capacity (rl_policy l)" by blast
  then show ?thesis
  proof cases
    case 3
    show ?thesis
    proof (cases "permits \<le> rl_tokens m")
      case True
      then have "rt_allowed r" "l' = m\<lparr>rl_tokens := rl_tokens m - permits\<rparr>"
        using 3 assms(5) ok by (auto simp: RateLimiter_acquire_def Let_def m_def [symmetric])
      with m True show ?thesis
        by (auto simp: on_schedule_def limiter_wf_def unat_sub word_le_nat_alt)
    next
      case False
      then have "\<not> rt_allowed r" "l' = m"
        using 3 assms(5) ok by (auto simp: RateLimiter_acquire_def Let_def m_def [symmetric])
      with m show ?thesis by simp
    qed
  qed (use assms(1,5) ok in \<open>auto simp: RateLimiter_acquire_def Let_def\<close>)
qed

lemma acquireAll_on_schedule:
  assumes "on_schedule start until g l" and "rate_valid (rl_policy l)"
    and "\<forall>(now, permits) \<in> set calls. now \<le> until" and "until - start < 2 ^ 63"
  shows "on_schedule start until (g + fst (acquireAll calls l)) (snd (acquireAll calls l))"
  using assms
proof (induction calls arbitrary: g l)
  case (Cons c calls)
  obtain now permits where c: "c = (now, permits)" by (cases c)
  obtain r l' where a: "RateLimiter_acquire permits now l = (r, l')" by fastforce
  have pol: "rl_policy l' = rl_policy l" using acquire_policy [of permits now l] a by simp
  have "on_schedule start until (g + (if rt_allowed r then unat permits else 0)) l'"
    using Cons.prems a c by (intro acquire_on_schedule [OF _ _ _ _ a]) auto
  from Cons.IH [OF this] Cons.prems pol c show ?case
    by (simp add: a split_beta Let_def add.assoc)
qed simp

lemma new_on_schedule:
  "start \<le> until \<Longrightarrow> on_schedule start until 0 (RateLimiter_new p start)"
  by (simp add: on_schedule_def RateLimiter_new_def limiter_wf_def)

lemma acquireAll_policy [simp]: "rl_policy (snd (acquireAll calls l)) = rl_policy l"
proof (induction calls arbitrary: l)
  case (Cons c calls)
  obtain now permits where "c = (now, permits)" by (cases c)
  moreover have "rl_policy (snd (RateLimiter_acquire permits now l)) = rl_policy l" by simp
  ultimately show ?case using Cons.IH by (simp add: split_beta Let_def)
qed simp

lemma granted_bounded:
  assumes "rate_valid p" and "start \<le> until" and "until - start < 2 ^ 63"
    and "\<forall>(now, permits) \<in> set calls. now \<le> until"
  shows "fst (acquireAll calls (RateLimiter_new p start))
           \<le> unat (rp_capacity p) + supplied p start until"
proof -
  let ?l = "RateLimiter_new p start"
  have [simp]: "rl_policy ?l = p" by (simp add: RateLimiter_new_def)
  have "on_schedule start until (0 + fst (acquireAll calls ?l)) (snd (acquireAll calls ?l))"
    using assms by (intro acquireAll_on_schedule new_on_schedule) simp_all
  then have "rl_updatedAt (snd (acquireAll calls ?l)) \<le> until"
    and "fst (acquireAll calls ?l)
      \<le> unat (rp_capacity p) + supplied p start (rl_updatedAt (snd (acquireAll calls ?l)))"
    by (simp_all add: on_schedule_def)
  then show ?thesis
    using supplied_mono [of p "rl_updatedAt (snd (acquireAll calls ?l))" until start] assms(1)
    by (simp add: rate_valid_def)
qed

section \<open>The wait a refused call is told\<close>

text \<open>
  The rounding up is exact unless the sum in it wraps around.
\<close>

lemma intervalsForTokens_enough:
  assumes "d \<noteq> 0" and "f \<noteq> 0" and "unat d + unat f \<le> 2 ^ 64"
  shows "unat d \<le> unat (intervalsForTokens d f) * unat f \<and> intervalsForTokens d f \<noteq> 0"
proof -
  have pos: "0 < unat d" "0 < unat f" using assms by (simp_all add: unat_gt_0)
  have "unat (f - 1) = unat f - 1" using assms(2) by (simp add: unat_minus_one)
  moreover have "unat d + unat f - 1 < 2 ^ 64" using pos assms(3) by linarith
  ultimately have "unat (d + (f - 1)) = unat d + unat f - 1"
    using pos unat_add_lem [of d "f - 1"] by simp
  then have sum: "unat (d + f - 1) = unat d + unat f - 1" by (simp only: add_diff_eq)
  have "unat (intervalsForTokens d f) = (unat d + unat f - 1) div unat f"
    using assms sum by (simp add: intervalsForTokens_def unat_div)
  moreover have "unat d \<le> (unat d + unat f - 1) div unat f * unat f"
    using pos(2) dividend_less_div_times [of "unat f" "unat d + unat f - 1"] by linarith
  ultimately show ?thesis using pos by (metis mult_0 not_le unat_0)
qed

lemma intervalsForTokens_wraps:
  "intervalsForTokens 2 (- 1) = 0"
  by (simp add: intervalsForTokens_def)

lemma refill_later:
  assumes "0 < rp_interval (rl_policy l)"
  shows "rl_updatedAt l \<le> rl_updatedAt (RateLimiter_refill now l)"
  using assms by (auto simp: RateLimiter_refill_def Let_def)

lemma refill_recent:
  assumes "0 < rp_interval (rl_policy l)" and "rl_updatedAt l \<le> now"
  shows "rl_updatedAt (RateLimiter_refill now l) \<le> now"
    and "now < rl_updatedAt (RateLimiter_refill now l) + rp_interval (rl_policy l)"
proof -
  let ?i = "rp_interval (rl_policy l)" and ?e = "now - rl_updatedAt l"
  have e: "?e = ?i * (?e div ?i) + ?e mod ?i" by simp
  have m: "0 \<le> ?e mod ?i" "?e mod ?i < ?i" using assms(1) by simp_all
  have "0 \<le> ?e div ?i" using assms by (simp add: pos_imp_zdiv_nonneg_iff)
  then have "rl_updatedAt (RateLimiter_refill now l) = rl_updatedAt l + ?i * (?e div ?i)"
    using assms by (auto simp: RateLimiter_refill_def Let_def)
  with e m show "rl_updatedAt (RateLimiter_refill now l) \<le> now"
    "now < rl_updatedAt (RateLimiter_refill now l) + ?i" by linarith+
qed

text \<open>With a clock that is not negative the unsigned arithmetic is that of the integers.\<close>

lemma uint_of_int_small: "0 \<le> x \<Longrightarrow> x < 2 ^ 64 \<Longrightarrow> uint (of_int x :: 64 word) = x"
  by (simp add: uint_word_of_int_eq take_bit_int_eq_self)

lemma sint_of_int_small: "- (2 ^ 63) \<le> x \<Longrightarrow> x < 2 ^ 63 \<Longrightarrow> sint (of_int x :: 64 word) = x"
  by (simp add: int_word_sint)

lemma unsigned_wait:
  fixes k :: "64 word"
  assumes "0 \<le> u" and "u \<le> now" and "now < 2 ^ 63" and "0 < i" and "i * uint k \<le> durationMax"
    and "now < u + i * uint k"
  shows "(let readyAt = of_int u + of_int i * k in
     if readyAt \<le> (of_int now :: 64 word) then 0 else sint (readyAt - of_int now)) = u + i * uint k - now"
proof -
  let ?ready = "u + i * uint k" and ?d = "u + i * uint k - now"
  have ready: "(of_int u + of_int i * k :: 64 word) = of_int ?ready" by simp
  have "uint (of_int ?ready :: 64 word) = ?ready"
    by (rule uint_of_int_small) (use assms in \<open>auto simp: durationMax_def\<close>)
  moreover have "uint (of_int now :: 64 word) = now"
    by (rule uint_of_int_small) (use assms in auto)
  ultimately have later: "\<not> of_int ?ready \<le> (of_int now :: 64 word)"
    using assms(6) by (simp only: word_le_def not_le)
  have "(of_int ?ready - of_int now :: 64 word) = of_int ?d" by simp
  moreover have "sint (of_int ?d :: 64 word) = ?d"
    by (rule sint_of_int_small) (use assms in \<open>auto simp: durationMax_def\<close>)
  ultimately show ?thesis using later by (simp only: ready Let_def if_False)
qed

lemma acquire_after_wait:
  assumes wf: "limiter_wf l" "rate_valid (rl_policy l)"
    and clock: "0 \<le> rl_updatedAt l" "rl_updatedAt l \<le> now" "now < 2 ^ 63"
    and p: "permits \<noteq> 0" "permits \<le> rp_capacity (rl_policy l)"
    and nowrap: "unat permits + unat (rp_refill (rl_policy l)) \<le> 2 ^ 64"
    and refused: "RateLimiter_acquire permits now l = (r, l')" "\<not> rt_allowed r"
    and finite: "rt_retryAfter r < durationMax"
  shows "0 < rt_retryAfter r \<and>
         rt_allowed (fst (RateLimiter_acquire permits (now + rt_retryAfter r) l'))"
proof -
  let ?p = "rl_policy l"
  have ok: "isOk (RateLimitPolicy_validate ?p)" and i: "0 < rp_interval ?p"
    using wf(2) by (simp_all add: validate_rate_valid rate_valid_def)
  have l': "l' = RateLimiter_refill now l" "\<not> permits \<le> rl_tokens l'"
    and ra: "rt_retryAfter r = RateLimiter_retryAfter permits now l'"
    using refused ok p by (auto simp: RateLimiter_acquire_def Let_def split: if_splits)
  have wf': "limiter_wf l'" "rl_policy l' = ?p" using wf(1) l'(1) by simp_all
  define d where "d = permits - rl_tokens l'"
  define k where "k = intervalsForTokens d (rp_refill ?p)"
  have d: "unat d = unat permits - unat (rl_tokens l')" "unat (rl_tokens l') < unat permits"
    using l'(2) by (simp_all add: d_def unat_sub word_le_nat_alt)
  then have "d \<noteq> 0" by (metis unat_0 zero_less_diff less_irrefl)
  with nowrap d wf(2) have k: "unat d \<le> unat k * unat (rp_refill ?p)" "k \<noteq> 0"
    using intervalsForTokens_enough [of d "rp_refill ?p"] by (simp_all add: k_def rate_valid_def)
  define ready where "ready = rl_updatedAt l' + rp_interval ?p * uint k"
  have lt: "\<not> uint k > durationMax div rp_interval ?p"
    using finite ra l'(2) i by (auto simp: RateLimiter_retryAfter_def Let_def wf'(2) k_def d_def)
  have "0 < uint k" using k(2) by (simp add: word_neq_0_conv [symmetric] uint_0_iff less_le)
  then have ge: "rp_interval ?p \<le> rp_interval ?p * uint k" using i by simp
  have near: "rl_updatedAt l' \<le> now" "now < ready"
    using refill_recent [OF i clock(2)] ge unfolding l'(1) [symmetric] ready_def by linarith+
  have "rp_interval ?p * uint k \<le> rp_interval ?p * (durationMax div rp_interval ?p)"
    using lt i by simp
  also have "\<dots> \<le> durationMax"
    using i by (rule mult_div_le_int)
  finally have wait: "rp_interval ?p * uint k \<le> durationMax" .
  then have span: "ready - rl_updatedAt l' < 2 ^ 63"
    by (simp add: ready_def durationMax_def)
  have "0 \<le> rl_updatedAt l'" using refill_later [OF i, of now] clock(1) l'(1) by simp
  then have "rt_retryAfter r = ready - now"
    using unsigned_wait [OF _ near(1) clock(3) i wait] near(2) ra l'(2) lt
    by (simp add: RateLimiter_retryAfter_def wf'(2) k_def d_def ready_def Let_def)
  note r = this
  have "unat permits \<le> refilled l' ready"
    using k(1) d i p(2) by (simp add: refilled_def wf'(2) ready_def word_le_nat_alt)
  also have "\<dots> = unat (rl_tokens (RateLimiter_refill ready l'))"
    using refill_tokens [OF wf'(1), of ready] wf(2) span near by (simp add: wf'(2))
  finally have "permits \<le> rl_tokens (RateLimiter_refill ready l')"
    by (simp add: word_le_nat_alt)
  then have "rt_allowed (fst (RateLimiter_acquire permits ready l'))"
    using ok p by (simp add: RateLimiter_acquire_def Let_def wf'(2))
  with r near show ?thesis by simp
qed

end
