(* ===== verification/Circuit_Breaker.thy ===== *)
theory Circuit_Breaker
  imports LG_Prelude
begin

text \<open>
  The circuit breaker of \<^verbatim>\<open>src/src/foundation/rate_limit/circuit_breaker.cpp\<close>: the three states,
  the counters as 32-bit words and the queue of half-open probes.  A time is its number of
  nanoseconds and the reading of the clock is an argument; log lines are not part of the model.
  The lemmas give the invariant of the members, the condition under which a closed breaker trips,
  what an open one refuses and how many probes a half-open one lets through.
\<close>

section \<open>Policy and members\<close>

datatype circuit_state = Closed | Open | HalfOpen

fun circuitStateName :: "circuit_state \<Rightarrow> string" where
  "circuitStateName Closed = ''closed''"
| "circuitStateName Open = ''open''"
| "circuitStateName HalfOpen = ''half_open''"

record breaker_policy =
  bp_failureThreshold :: "32 word"
  bp_successThreshold :: "32 word"
  bp_halfOpenMaxCalls :: "32 word"
  bp_openTimeout :: int
  bp_halfOpenProbeTimeout :: int

definition CircuitBreakerPolicy :: breaker_policy where
  "CircuitBreakerPolicy = \<lparr>bp_failureThreshold = 5, bp_successThreshold = 1,
     bp_halfOpenMaxCalls = 1, bp_openTimeout = 30000000000,
     bp_halfOpenProbeTimeout = 30000000000\<rparr>"

definition CircuitBreakerPolicy_validate :: "breaker_policy \<Rightarrow> status" where
  "CircuitBreakerPolicy_validate p =
     (if bp_failureThreshold p = 0
      then mkStatus InvalidArgument ''circuit breaker failure threshold must be greater than 0''
      else if bp_successThreshold p = 0
      then mkStatus InvalidArgument ''circuit breaker success threshold must be greater than 0''
      else if bp_halfOpenMaxCalls p = 0
      then mkStatus InvalidArgument ''circuit breaker half-open max calls must be greater than 0''
      else if bp_openTimeout p \<le> 0
      then mkStatus InvalidArgument ''circuit breaker open timeout must be positive''
      else if bp_halfOpenProbeTimeout p \<le> 0
      then mkStatus InvalidArgument ''circuit breaker half-open probe timeout must be positive''
      else okStatus)"

record breaker_result =
  br_allowed :: bool
  br_state :: circuit_state
  br_retryAfter :: int
  br_status :: status

record breaker =
  cb_policy :: breaker_policy
  cb_state :: circuit_state
  cb_failures :: "32 word"
  cb_successes :: "32 word"
  cb_probes :: "int list"
  cb_openedAt :: int

definition CircuitBreaker_new :: "breaker_policy \<Rightarrow> breaker" where
  "CircuitBreaker_new p = \<lparr>cb_policy = p, cb_state = Closed, cb_failures = 0, cb_successes = 0,
     cb_probes = [], cb_openedAt = 0\<rparr>"

section \<open>Transitions\<close>

definition openBreaker :: "int \<Rightarrow> breaker \<Rightarrow> breaker" where
  "openBreaker now b = b\<lparr>cb_state := Open, cb_openedAt := now, cb_failures := 0,
     cb_successes := 0, cb_probes := []\<rparr>"

definition closeBreaker :: "breaker \<Rightarrow> breaker" where
  "closeBreaker b = b\<lparr>cb_state := Closed, cb_failures := 0, cb_successes := 0,
     cb_probes := [], cb_openedAt := 0\<rparr>"

definition enterHalfOpen :: "breaker \<Rightarrow> breaker" where
  "enterHalfOpen b = b\<lparr>cb_state := HalfOpen, cb_failures := 0, cb_successes := 0,
     cb_probes := []\<rparr>"

definition expireHalfOpenProbes :: "int \<Rightarrow> breaker \<Rightarrow> breaker" where
  "expireHalfOpenProbes now b =
     b\<lparr>cb_probes := dropWhile (\<lambda>t. now - t \<ge> bp_halfOpenProbeTimeout (cb_policy b)) (cb_probes b)\<rparr>"

definition releaseHalfOpenProbe :: "breaker \<Rightarrow> breaker" where
  "releaseHalfOpenProbe b = b\<lparr>cb_probes := tl (cb_probes b)\<rparr>"

definition remainingOpenTime :: "int \<Rightarrow> breaker \<Rightarrow> int" where
  "remainingOpenTime now b =
     (let elapsed = now - cb_openedAt b in
      if elapsed \<ge> bp_openTimeout (cb_policy b) then 0
      else bp_openTimeout (cb_policy b) - elapsed)"

definition halfOpenRetryAfter :: "int \<Rightarrow> breaker \<Rightarrow> int" where
  "halfOpenRetryAfter now b =
     (case cb_probes b of [] \<Rightarrow> 0
      | t # _ \<Rightarrow>
        let elapsed = now - t in
        if elapsed \<ge> bp_halfOpenProbeTimeout (cb_policy b) then 0
        else bp_halfOpenProbeTimeout (cb_policy b) - elapsed)"

section \<open>Operations\<close>

text \<open>The part of \<^verbatim>\<open>acquire\<close> after the test of an open breaker.\<close>

definition admitCall :: "int \<Rightarrow> breaker \<Rightarrow> breaker_result \<times> breaker" where
  "admitCall now b =
     (let b = (if cb_state b = HalfOpen then expireHalfOpenProbes now b else b) in
      if cb_state b = HalfOpen \<and> length (cb_probes b) \<ge> unat (bp_halfOpenMaxCalls (cb_policy b))
      then (\<lparr>br_allowed = False, br_state = cb_state b, br_retryAfter = halfOpenRetryAfter now b,
             br_status = mkStatus Unavailable ''circuit breaker half-open probe limit reached''\<rparr>, b)
      else let b = (if cb_state b = HalfOpen then b\<lparr>cb_probes := cb_probes b @ [now]\<rparr> else b) in
      (\<lparr>br_allowed = True, br_state = cb_state b, br_retryAfter = 0, br_status = okStatus\<rparr>, b))"

definition CircuitBreaker_acquire :: "int \<Rightarrow> breaker \<Rightarrow> breaker_result \<times> breaker" where
  "CircuitBreaker_acquire now b =
     (let s = CircuitBreakerPolicy_validate (cb_policy b) in
      if \<not> isOk s
      then (\<lparr>br_allowed = False, br_state = cb_state b, br_retryAfter = 0, br_status = s\<rparr>, b)
      else if cb_state b = Open
      then let retryAfter = remainingOpenTime now b in
        if retryAfter > 0
        then (\<lparr>br_allowed = False, br_state = cb_state b, br_retryAfter = retryAfter,
               br_status = mkStatus Unavailable ''circuit breaker is open''\<rparr>, b)
        else admitCall now (enterHalfOpen b)
      else admitCall now b)"

definition CircuitBreaker_recordSuccess :: "int \<Rightarrow> breaker \<Rightarrow> breaker" where
  "CircuitBreaker_recordSuccess now b =
     (if cb_state b = Open then b
      else let b = b\<lparr>cb_failures := 0\<rparr> in
      if cb_state b = HalfOpen
      then let b = expireHalfOpenProbes now b in
        if cb_probes b = [] then b
        else let b = releaseHalfOpenProbe b; b = b\<lparr>cb_successes := cb_successes b + 1\<rparr> in
        if cb_successes b \<ge> bp_successThreshold (cb_policy b) then closeBreaker b else b
      else b\<lparr>cb_successes := 0\<rparr>)"

definition CircuitBreaker_recordFailure :: "int \<Rightarrow> breaker \<Rightarrow> breaker" where
  "CircuitBreaker_recordFailure now b =
     (if cb_state b = Open then b
      else if cb_state b = HalfOpen
      then let b = expireHalfOpenProbes now b in
        if cb_probes b = [] then b else openBreaker now b
      else let b = b\<lparr>cb_failures := cb_failures b + 1\<rparr> in
        if cb_failures b \<ge> bp_failureThreshold (cb_policy b) then openBreaker now b else b)"

definition CircuitBreaker_reset :: "breaker \<Rightarrow> breaker" where
  "CircuitBreaker_reset b = closeBreaker b"

lemmas breaker_defs = openBreaker_def closeBreaker_def enterHalfOpen_def expireHalfOpenProbes_def
  releaseHalfOpenProbe_def CircuitBreaker_reset_def

text \<open>The calls of a client, and the permissions it gets.\<close>

datatype breaker_call = Acquire | Success | Failure | Reset

fun breakerStep :: "int \<times> breaker_call \<Rightarrow> breaker \<Rightarrow> breaker_result option \<times> breaker" where
  "breakerStep (now, Acquire) b =
     (let (r, b) = CircuitBreaker_acquire now b in (Some r, b))"
| "breakerStep (now, Success) b = (None, CircuitBreaker_recordSuccess now b)"
| "breakerStep (now, Failure) b = (None, CircuitBreaker_recordFailure now b)"
| "breakerStep (now, Reset) b = (None, CircuitBreaker_reset b)"

fun breakerRun :: "(int \<times> breaker_call) list \<Rightarrow> breaker \<Rightarrow> breaker_result list \<times> breaker" where
  "breakerRun [] b = ([], b)"
| "breakerRun (c # cs) b =
     (let (r, b) = breakerStep c b; (rs, b) = breakerRun cs b in
      ((case r of None \<Rightarrow> rs | Some x \<Rightarrow> x # rs), b))"

section \<open>Invariant\<close>

definition breaker_valid :: "breaker_policy \<Rightarrow> bool" where
  "breaker_valid p \<longleftrightarrow> bp_failureThreshold p \<noteq> 0 \<and> bp_successThreshold p \<noteq> 0 \<and>
     bp_halfOpenMaxCalls p \<noteq> 0 \<and> 0 < bp_openTimeout p \<and> 0 < bp_halfOpenProbeTimeout p"

text \<open>The members at a time: counters below their thresholds, probes in order and not too many.\<close>

definition breaker_wf :: "int \<Rightarrow> breaker \<Rightarrow> bool" where
  "breaker_wf now b \<longleftrightarrow>
     sorted (cb_probes b) \<and> (\<forall>t \<in> set (cb_probes b). t \<le> now) \<and>
     (case cb_state b of
        Closed \<Rightarrow> cb_probes b = [] \<and> cb_successes b = 0 \<and>
          cb_failures b < bp_failureThreshold (cb_policy b)
      | Open \<Rightarrow> cb_probes b = [] \<and> cb_successes b = 0 \<and> cb_failures b = 0
      | HalfOpen \<Rightarrow> cb_failures b = 0 \<and> cb_successes b < bp_successThreshold (cb_policy b) \<and>
          length (cb_probes b) \<le> unat (bp_halfOpenMaxCalls (cb_policy b)))"

lemma validate_breaker_valid: "isOk (CircuitBreakerPolicy_validate p) \<longleftrightarrow> breaker_valid p"
  by (auto simp: CircuitBreakerPolicy_validate_def breaker_valid_def)

lemma new_breaker_wf: "breaker_valid p \<Longrightarrow> breaker_wf now (CircuitBreaker_new p)"
  by (simp add: breaker_wf_def CircuitBreaker_new_def breaker_valid_def word_gt_0)

text \<open>Dropping from the front removes exactly the probes that are too old.\<close>

lemma dropWhile_old:
  "sorted ts \<Longrightarrow> dropWhile (\<lambda>t. d \<le> now - t) ts = filter (\<lambda>t. now - t < d) (ts :: int list)"
proof (induction ts)
  case (Cons t ts)
  show ?case
  proof (cases "d \<le> now - t")
    case False
    with Cons.prems have "\<forall>u \<in> set ts. now - u < d" by auto
    with False show ?thesis by simp
  qed (use Cons in simp)
qed simp

lemma expire_filter:
  "breaker_wf t b \<Longrightarrow>
     cb_probes (expireHalfOpenProbes now b) =
       filter (\<lambda>u. now - u < bp_halfOpenProbeTimeout (cb_policy b)) (cb_probes b)"
  by (simp add: expireHalfOpenProbes_def breaker_wf_def dropWhile_old)

lemma expire_fields [simp]:
  "cb_policy (expireHalfOpenProbes now b) = cb_policy b"
  "cb_state (expireHalfOpenProbes now b) = cb_state b"
  "cb_failures (expireHalfOpenProbes now b) = cb_failures b"
  "cb_successes (expireHalfOpenProbes now b) = cb_successes b"
  by (simp_all add: expireHalfOpenProbes_def)

lemma expire_wf:
  assumes "breaker_wf t b" and "t \<le> now"
  shows "breaker_wf now (expireHalfOpenProbes now b)"
proof -
  let ?c = "expireHalfOpenProbes now b"
  have len: "length (cb_probes ?c) \<le> length (cb_probes b)"
    by (simp add: expire_filter [OF assms(1)])
  have "sorted (cb_probes ?c)" "\<forall>u \<in> set (cb_probes ?c). u \<le> now" "cb_probes b = [] \<Longrightarrow> cb_probes ?c = []"
    using assms by (auto simp: expire_filter [OF assms(1)] breaker_wf_def sorted_wrt_filter)
  with assms len show ?thesis by (auto simp: breaker_wf_def split: circuit_state.splits)
qed

lemma breaker_wf_later: "breaker_wf t b \<Longrightarrow> t \<le> now \<Longrightarrow> breaker_wf now b"
  by (auto simp: breaker_wf_def split: circuit_state.splits)

lemma enterHalfOpen_wf: "breaker_valid (cb_policy b) \<Longrightarrow> breaker_wf now (enterHalfOpen b)"
  by (simp add: breaker_wf_def enterHalfOpen_def breaker_valid_def word_gt_0)

lemma openBreaker_wf [simp]: "breaker_wf now (openBreaker t b)"
  by (simp add: breaker_wf_def openBreaker_def)

lemma closeBreaker_wf: "breaker_valid (cb_policy b) \<Longrightarrow> breaker_wf now (closeBreaker b)"
  by (simp add: breaker_wf_def closeBreaker_def breaker_valid_def word_gt_0)

lemma admitCall_wf:
  assumes "breaker_wf t b" and "t \<le> now"
  shows "breaker_wf now (snd (admitCall now b))"
proof (cases "cb_state b = HalfOpen")
  case True
  with expire_wf [OF assms] show ?thesis
    by (auto simp: admitCall_def Let_def breaker_wf_def sorted_append)
qed (use breaker_wf_later [OF assms] in \<open>simp add: admitCall_def\<close>)

lemma acquire_breaker_wf:
  assumes "breaker_wf t b" and "t \<le> now"
  shows "breaker_wf now (snd (CircuitBreaker_acquire now b))"
  using breaker_wf_later [OF assms] admitCall_wf [OF assms]
    admitCall_wf [OF enterHalfOpen_wf assms(2), of b]
  by (simp add: CircuitBreaker_acquire_def Let_def validate_breaker_valid)

lemma word_less_suc:
  assumes "(x :: 'a::len word) < y"
  shows "unat (x + 1) = unat x + 1"
proof -
  have "unat x < unat y" using assms by (simp add: word_less_nat_alt)
  moreover have "unat y < 2 ^ LENGTH('a)" by (rule unsigned_less)
  moreover have "unat (1 :: 'a word) = 1" by simp
  ultimately have "unat x + unat (1 :: 'a word) < 2 ^ LENGTH('a)" by linarith
  then show ?thesis by (simp add: unat_add_lem [THEN iffD1])
qed

lemma recordSuccess_wf:
  assumes "breaker_wf t b" and "t \<le> now" and "breaker_valid (cb_policy b)"
  shows "breaker_wf now (CircuitBreaker_recordSuccess now b)"
proof (cases "cb_state b")
  case HalfOpen
  let ?b = "b\<lparr>cb_failures := 0\<rparr>"
  have "breaker_wf t ?b" using assms(1) HalfOpen by (simp add: breaker_wf_def)
  from expire_wf [OF this assms(2)] have c: "breaker_wf now (expireHalfOpenProbes now ?b)" .
  show ?thesis
  proof (cases "cb_probes (expireHalfOpenProbes now ?b)")
    case Nil
    with c HalfOpen show ?thesis by (simp add: CircuitBreaker_recordSuccess_def Let_def)
  next
    case (Cons u us)
    with c HalfOpen assms(3) show ?thesis
      by (auto simp: CircuitBreaker_recordSuccess_def Let_def releaseHalfOpenProbe_def closeBreaker_wf)
        (auto simp: breaker_wf_def)
  qed
qed (use breaker_wf_later [OF assms(1,2)] assms(3) in
    \<open>auto simp: CircuitBreaker_recordSuccess_def Let_def breaker_wf_def breaker_valid_def word_gt_0\<close>)

lemma recordFailure_wf:
  assumes "breaker_wf t b" and "t \<le> now"
  shows "breaker_wf now (CircuitBreaker_recordFailure now b)"
  using expire_wf [OF assms] breaker_wf_later [OF assms]
  by (cases "cb_state b")
    (auto simp: CircuitBreaker_recordFailure_def Let_def, auto simp: breaker_wf_def)

lemma breaker_policy_fixed [simp]:
  "cb_policy (snd (breakerStep c b)) = cb_policy b"
proof -
  obtain now k where "c = (now, k)" by (cases c)
  then show ?thesis
    by (cases k) (auto simp: CircuitBreaker_acquire_def admitCall_def CircuitBreaker_recordSuccess_def
        CircuitBreaker_recordFailure_def breaker_defs Let_def split: prod.splits if_splits)
qed

lemma breakerStep_wf:
  assumes "breaker_wf t b" and "breaker_valid (cb_policy b)" and "t \<le> now"
  shows "breaker_wf now (snd (breakerStep (now, k) b))"
  using assms acquire_breaker_wf [OF assms(1,3)] recordSuccess_wf [OF assms(1,3,2)]
    recordFailure_wf [OF assms(1,3)] closeBreaker_wf [OF assms(2)]
  by (cases k) (auto simp: CircuitBreaker_reset_def split: prod.splits)

lemma breakerRun_wf:
  assumes "breaker_wf t b" and "breaker_valid (cb_policy b)" and "sorted (t # map fst calls)"
  shows "breaker_wf (last (t # map fst calls)) (snd (breakerRun calls b))"
  using assms
proof (induction calls arbitrary: t b)
  case (Cons c calls)
  obtain now k where c: "c = (now, k)" by (cases c)
  have "breaker_wf now (snd (breakerStep c b))"
    using breakerStep_wf [of t b now k] Cons.prems by (simp add: c)
  from Cons.IH [OF this] Cons.prems c show ?case by (simp add: split_beta Let_def)
qed simp

section \<open>When a closed breaker trips\<close>

text \<open>A sequence of outcomes: each call ended well or not, at some time.\<close>

definition outcomeCalls :: "(int \<times> bool) list \<Rightarrow> (int \<times> breaker_call) list" where
  "outcomeCalls = map (\<lambda>(now, good). (now, if good then Success else Failure))"

definition trailingFailures :: "bool list \<Rightarrow> nat" where
  "trailingFailures os = length (takeWhile Not (rev os))"

lemma breakerRun_append:
  "snd (breakerRun (cs @ ds) b) = snd (breakerRun ds (snd (breakerRun cs b)))"
  by (induction cs arbitrary: b) (simp_all add: split_beta Let_def)

lemma trailingFailures_snoc [simp]:
  "trailingFailures (os @ [good]) = (if good then 0 else Suc (trailingFailures os))"
  by (simp add: trailingFailures_def)

lemma suffix_replicate:
  "suffix (replicate n False) os \<longleftrightarrow> n \<le> trailingFailures os"
proof (induction os arbitrary: n rule: rev_induct)
  case Nil
  then show ?case by (cases n) (simp_all add: trailingFailures_def)
next
  case (snoc good os)
  show ?case
  proof (cases n)
    case (Suc m)
    have "replicate n False = replicate m False @ [False]"
      by (simp add: Suc replicate_append_same)
    with snoc.IH [of m] show ?thesis by (auto simp: Suc)
  qed simp
qed

lemma sublist_snoc_iff: "sublist xs (os @ [x]) \<longleftrightarrow> sublist xs os \<or> suffix xs (os @ [x])"
  by (auto simp: sublist_append sublist_Cons_right prefix_Cons)

definition tripped :: "32 word \<Rightarrow> bool list \<Rightarrow> bool" where
  "tripped k os \<longleftrightarrow> sublist (replicate (unat k) False) os"

lemma tripped_snoc:
  "tripped k (os @ [good]) \<longleftrightarrow> tripped k os \<or> unat k \<le> trailingFailures (os @ [good])"
  by (simp only: tripped_def sublist_snoc_iff suffix_replicate)

lemma outcomes_state:
  fixes outcomes
  assumes "breaker_valid p"
  defines "b \<equiv> snd (breakerRun (outcomeCalls outcomes) (CircuitBreaker_new p))"
  shows "cb_policy b = p \<and>
     (if tripped (bp_failureThreshold p) (map snd outcomes) then cb_state b = Open
      else cb_state b = Closed \<and> unat (cb_failures b) = trailingFailures (map snd outcomes) \<and>
           trailingFailures (map snd outcomes) < unat (bp_failureThreshold p))"
  unfolding b_def
proof (induction outcomes rule: rev_induct)
  case Nil
  have "0 < unat (bp_failureThreshold p)" using assms(1) by (simp add: breaker_valid_def unat_gt_0)
  then show ?case
    by (simp add: outcomeCalls_def tripped_def CircuitBreaker_new_def trailingFailures_def)
next
  case (snoc o1 outcomes)
  obtain now good where o1: "o1 = (now, good)" by (cases o1)
  let ?b = "snd (breakerRun (outcomeCalls outcomes) (CircuitBreaker_new p))"
  let ?t = "bp_failureThreshold p"
  have step: "snd (breakerRun (outcomeCalls (outcomes @ [o1])) (CircuitBreaker_new p)) =
      (if good then CircuitBreaker_recordSuccess now ?b else CircuitBreaker_recordFailure now ?b)"
    by (simp add: outcomeCalls_def o1 breakerRun_append split_beta Let_def)
  have pos: "0 < unat ?t" using assms(1) by (simp add: breaker_valid_def unat_gt_0)
  show ?case
  proof (cases "tripped ?t (map snd outcomes)")
    case True
    with snoc.IH have "cb_state ?b = Open" "cb_policy ?b = p" by simp_all
    with True show ?thesis
      unfolding step by (simp add: o1 tripped_snoc CircuitBreaker_recordSuccess_def
          CircuitBreaker_recordFailure_def)
  next
    case False
    with snoc.IH have c: "cb_state ?b = Closed" "cb_policy ?b = p"
      "unat (cb_failures ?b) = trailingFailures (map snd outcomes)"
      "trailingFailures (map snd outcomes) < unat ?t" by simp_all
    from c(3,4) have "cb_failures ?b < ?t" by (simp add: word_less_nat_alt)
    note word_less_suc [OF this]
    with False c pos show ?thesis
      unfolding step by (simp add: o1 tripped_snoc CircuitBreaker_recordSuccess_def Let_def
          CircuitBreaker_recordFailure_def openBreaker_def word_le_nat_alt not_le)
  qed
qed

lemma breaker_trips:
  "breaker_valid p \<Longrightarrow>
     cb_state (snd (breakerRun (outcomeCalls outcomes) (CircuitBreaker_new p))) =
       (if tripped (bp_failureThreshold p) (map snd outcomes) then Open else Closed)"
  using outcomes_state [of p outcomes] by (simp split: if_splits)

section \<open>An open breaker\<close>

lemma breakerStep_open:
  assumes "cb_state b = Open" and "breaker_valid (cb_policy b)" and "k \<noteq> Reset"
    and "now < cb_openedAt b + bp_openTimeout (cb_policy b)"
  shows "breakerStep (now, k) b =
    ((if k = Acquire
      then Some \<lparr>br_allowed = False, br_state = Open,
             br_retryAfter = cb_openedAt b + bp_openTimeout (cb_policy b) - now,
             br_status = mkStatus Unavailable ''circuit breaker is open''\<rparr>
      else None), b)"
  using assms by (cases k) (simp_all add: CircuitBreaker_acquire_def Let_def validate_breaker_valid
      remainingOpenTime_def CircuitBreaker_recordSuccess_def CircuitBreaker_recordFailure_def)

lemma open_breaker_refuses:
  assumes "cb_state b = Open" and "breaker_valid (cb_policy b)"
    and "\<forall>(now, k) \<in> set calls. k \<noteq> Reset \<and> now < cb_openedAt b + bp_openTimeout (cb_policy b)"
  shows "snd (breakerRun calls b) = b \<and>
    (\<forall>r \<in> set (fst (breakerRun calls b)). \<not> br_allowed r \<and> 0 < br_retryAfter r)"
  using assms(3)
proof (induction calls)
  case (Cons c calls)
  obtain now k where c: "c = (now, k)" by (cases c)
  note step = breakerStep_open [OF assms(1,2), of k now]
  from Cons c step show ?case by (cases k) (simp_all add: split_beta Let_def)
qed simp

section \<open>A half-open breaker\<close>

text \<open>
  Probes that arrive close together: as many are let through as the policy allows, and the
  others are refused.
\<close>

definition acquireCalls :: "int list \<Rightarrow> (int \<times> breaker_call) list" where
  "acquireCalls = map (\<lambda>now. (now, Acquire))"

lemma halfOpen_acquire:
  assumes "cb_state b = HalfOpen" and "breaker_valid (cb_policy b)"
    and "\<forall>t \<in> set (cb_probes b). now < t + bp_halfOpenProbeTimeout (cb_policy b)"
  shows "br_allowed (fst (CircuitBreaker_acquire now b)) \<longleftrightarrow>
           length (cb_probes b) < unat (bp_halfOpenMaxCalls (cb_policy b))"
    and "snd (CircuitBreaker_acquire now b) =
           (if length (cb_probes b) < unat (bp_halfOpenMaxCalls (cb_policy b))
            then b\<lparr>cb_probes := cb_probes b @ [now]\<rparr> else b)"
proof -
  have "dropWhile (\<lambda>t. bp_halfOpenProbeTimeout (cb_policy b) \<le> now - t) (cb_probes b) = cb_probes b"
    using assms(3) by (cases "cb_probes b") auto
  then have "expireHalfOpenProbes now b = b" by (simp add: expireHalfOpenProbes_def)
  with assms show "br_allowed (fst (CircuitBreaker_acquire now b)) \<longleftrightarrow>
      length (cb_probes b) < unat (bp_halfOpenMaxCalls (cb_policy b))"
    "snd (CircuitBreaker_acquire now b) =
       (if length (cb_probes b) < unat (bp_halfOpenMaxCalls (cb_policy b))
        then b\<lparr>cb_probes := cb_probes b @ [now]\<rparr> else b)"
    by (simp_all add: CircuitBreaker_acquire_def admitCall_def Let_def validate_breaker_valid)
qed

lemma halfOpen_burst:
  assumes "cb_state b = HalfOpen" and "breaker_valid (cb_policy b)"
    and "\<forall>t \<in> set (cb_probes b) \<union> set ats. \<forall>u \<in> set ats.
      u < t + bp_halfOpenProbeTimeout (cb_policy b)"
    and "length (cb_probes b) \<le> unat (bp_halfOpenMaxCalls (cb_policy b))"
  shows "map br_allowed (fst (breakerRun (acquireCalls ats) b)) =
    (let free = unat (bp_halfOpenMaxCalls (cb_policy b)) - length (cb_probes b) in
     replicate (min free (length ats)) True @ replicate (length ats - free) False)"
  using assms
proof (induction ats arbitrary: b)
  case (Cons now ats)
  let ?b = "snd (CircuitBreaker_acquire now b)"
  let ?max = "unat (bp_halfOpenMaxCalls (cb_policy b))"
  have a: "br_allowed (fst (CircuitBreaker_acquire now b)) \<longleftrightarrow> length (cb_probes b) < ?max"
    "?b = (if length (cb_probes b) < ?max then b\<lparr>cb_probes := cb_probes b @ [now]\<rparr> else b)"
    using halfOpen_acquire [of b now] Cons.prems by auto
  have rest: "map br_allowed (fst (breakerRun (acquireCalls ats) ?b)) =
    (let free = ?max - length (cb_probes ?b) in
     replicate (min free (length ats)) True @ replicate (length ats - free) False)"
    using Cons.IH [of ?b] Cons.prems a(2) by auto
  have first: "map br_allowed (fst (breakerRun (acquireCalls (now # ats)) b)) =
    br_allowed (fst (CircuitBreaker_acquire now b)) # map br_allowed (fst (breakerRun (acquireCalls ats) ?b))"
    by (simp add: acquireCalls_def split_beta Let_def)
  show ?case
  proof (cases "length (cb_probes b) < ?max")
    case True
    then obtain f where f: "?max - length (cb_probes b) = Suc f" "?max - length (cb_probes ?b) = f"
      using a(2) by (cases "?max - length (cb_probes b)") auto
    show ?thesis unfolding first rest Let_def f using a(1) True by simp
  next
    case False
    with a(2) have f: "?max - length (cb_probes b) = 0" "?max - length (cb_probes ?b) = 0" by simp_all
    show ?thesis unfolding first rest Let_def f using a(1) False by simp
  qed
qed (simp add: acquireCalls_def)

lemma open_breaker_probes:
  assumes "cb_state b = Open" and "breaker_valid (cb_policy b)"
    and "\<forall>t \<in> set ats. cb_openedAt b + bp_openTimeout (cb_policy b) \<le> t"
    and "\<forall>t \<in> set ats. \<forall>u \<in> set ats. u < t + bp_halfOpenProbeTimeout (cb_policy b)"
  shows "map br_allowed (fst (breakerRun (acquireCalls ats) b)) =
    (let free = unat (bp_halfOpenMaxCalls (cb_policy b)) in
     replicate (min free (length ats)) True @ replicate (length ats - free) False)"
proof (cases ats)
  case (Cons now rest)
  have "CircuitBreaker_acquire now b = CircuitBreaker_acquire now (enterHalfOpen b)"
    using assms(1-3) Cons
    by (simp add: CircuitBreaker_acquire_def Let_def validate_breaker_valid remainingOpenTime_def
        enterHalfOpen_def)
  then have "breakerRun (acquireCalls ats) b = breakerRun (acquireCalls ats) (enterHalfOpen b)"
    by (simp add: Cons acquireCalls_def)
  then show ?thesis
    using halfOpen_burst [of "enterHalfOpen b" ats] assms(2,4) by (simp add: enterHalfOpen_def)
qed (simp add: acquireCalls_def)

end
