(* ===== verification/Sse_Parser.thy ===== *)
theory Sse_Parser
  imports LG_Prelude
begin

text \<open>
  The parser of server-sent events of \<^verbatim>\<open>src/src/foundation/network/sse_parser.cpp\<close>: the members
  of \<^verbatim>\<open>SseParser\<close>, the loop of \<^verbatim>\<open>feed\<close> over the lines in the buffer, \<^verbatim>\<open>consumeLine\<close>,
  \<^verbatim>\<open>dispatch\<close> and \<^verbatim>\<open>finish\<close>.  The callback is the client's: a function on the client's own
  state that returns a status or throws.  The lemmas show that the division of a stream into
  chunks does not matter, and that a stream of rendered events is delivered event by event.
\<close>

section \<open>Events and members\<close>

record sse_event =
  se_event :: string
  se_data :: string
  se_id :: string
  se_retry :: "nat option"

datatype callback_outcome = CallbackReturned status | CallbackThrew "string option"

type_synonym 'c sse_callback = "sse_event \<Rightarrow> 'c \<Rightarrow> callback_outcome \<times> 'c"

record sse_parser =
  sp_buffer :: string
  sp_event :: string
  sp_data :: string
  sp_id :: string
  sp_retry :: "nat option"
  sp_hasData :: bool

definition SseParser :: sse_parser where
  "SseParser = \<lparr>sp_buffer = [], sp_event = [], sp_data = [], sp_id = [], sp_retry = None,
     sp_hasData = False\<rparr>"

abbreviation newline :: char where
  "newline \<equiv> CHR 0x0A"

abbreviation carriage :: char where
  "carriage \<equiv> CHR 0x0D"

section \<open>Operations\<close>

definition SseParser_reset :: "sse_parser \<Rightarrow> sse_parser" where
  "SseParser_reset p = p\<lparr>sp_event := [], sp_data := [], sp_id := [], sp_retry := None,
     sp_hasData := False\<rparr>"

fun callbackStatus :: "callback_outcome \<Rightarrow> status" where
  "callbackStatus (CallbackReturned s) = s"
| "callbackStatus (CallbackThrew (Some what)) = mkStatus Unknown (''SSE callback failed: '' @ what)"
| "callbackStatus (CallbackThrew None) = mkStatus Unknown ''SSE callback failed''"

definition SseParser_dispatch ::
  "'c sse_callback \<Rightarrow> sse_parser \<Rightarrow> 'c \<Rightarrow> status \<times> sse_parser \<times> 'c" where
  "SseParser_dispatch callback p c =
     (if \<not> sp_hasData p then (okStatus, SseParser_reset p, c)
      else let event = \<lparr>se_event = (if sp_event p = [] then ''message'' else sp_event p),
                        se_data = sp_data p, se_id = sp_id p, se_retry = sp_retry p\<rparr>;
               (r, c) = callback event c in
           (callbackStatus r, SseParser_reset p, c))"

definition parseRetry :: "string \<Rightarrow> nat option \<Rightarrow> nat option" where
  "parseRetry text old =
     (case fromCharsU64 text of
        Some parsed \<Rightarrow> if parsed \<le> 2 ^ 63 - 1 then Some parsed else old
      | None \<Rightarrow> old)"

definition consumeField :: "string \<Rightarrow> string \<Rightarrow> sse_parser \<Rightarrow> sse_parser" where
  "consumeField field text p =
     (if field = ''event'' then p\<lparr>sp_event := text\<rparr>
      else if field = ''data''
      then p\<lparr>sp_data := (if sp_hasData p then sp_data p @ [newline] else sp_data p) @ text,
             sp_hasData := True\<rparr>
      else if field = ''id'' then p\<lparr>sp_id := text\<rparr>
      else if field = ''retry'' then p\<lparr>sp_retry := parseRetry text (sp_retry p)\<rparr>
      else p)"

definition fieldOf :: "string \<Rightarrow> string" where
  "fieldOf line = takeWhile (\<lambda>ch. ch \<noteq> CHR '':'') line"

definition valueOf :: "string \<Rightarrow> string" where
  "valueOf line =
     (case dropWhile (\<lambda>ch. ch \<noteq> CHR '':'') line of
        [] \<Rightarrow> []
      | _ # v \<Rightarrow> (if v \<noteq> [] \<and> hd v = CHR '' '' then tl v else v))"

definition SseParser_consumeLine ::
  "'c sse_callback \<Rightarrow> string \<Rightarrow> sse_parser \<Rightarrow> 'c \<Rightarrow> status \<times> sse_parser \<times> 'c" where
  "SseParser_consumeLine callback line p c =
     (if line = [] then SseParser_dispatch callback p c
      else if hd line = CHR '':'' then (okStatus, p, c)
      else (okStatus, consumeField (fieldOf line) (valueOf line) p, c))"

definition stripCarriage :: "string \<Rightarrow> string" where
  "stripCarriage line = (if line \<noteq> [] \<and> last line = carriage then butlast line else line)"

lemma consumeField_buffer [simp]: "sp_buffer (consumeField f v p) = sp_buffer p"
  by (simp add: consumeField_def)

lemma reset_buffer [simp]: "sp_buffer (SseParser_reset p) = sp_buffer p"
  by (simp add: SseParser_reset_def)

lemma consumeLine_buffer [simp]:
  "sp_buffer (fst (snd (SseParser_consumeLine callback line p c))) = sp_buffer p"
  by (auto simp: SseParser_consumeLine_def SseParser_dispatch_def Let_def split: prod.splits)

lemma dropWhile_shorter: "dropWhile P xs = y # ys \<Longrightarrow> length ys < length xs"
  using length_dropWhile_le [of P xs] by simp

text \<open>The loop of \<^verbatim>\<open>feed\<close>: one line of the buffer per round.\<close>

function feedLoop ::
  "'c sse_callback \<Rightarrow> sse_parser \<Rightarrow> 'c \<Rightarrow> status \<times> sse_parser \<times> 'c" where
  "feedLoop callback p c =
     (case dropWhile (\<lambda>ch. ch \<noteq> newline) (sp_buffer p) of
        [] \<Rightarrow> (okStatus, p, c)
      | _ # rest \<Rightarrow>
        let line = stripCarriage (takeWhile (\<lambda>ch. ch \<noteq> newline) (sp_buffer p));
            r = SseParser_consumeLine callback line (p\<lparr>sp_buffer := rest\<rparr>) c in
        if isOk (fst r) then feedLoop callback (fst (snd r)) (snd (snd r)) else r)"
  by pat_completeness auto
termination
  by (relation "measure (\<lambda>(callback, p, c). length (sp_buffer p))") (auto simp: split_beta dest: dropWhile_shorter)

declare feedLoop.simps [simp del]

definition SseParser_feed ::
  "'c sse_callback \<Rightarrow> string \<Rightarrow> sse_parser \<Rightarrow> 'c \<Rightarrow> status \<times> sse_parser \<times> 'c" where
  "SseParser_feed callback chunk p c = feedLoop callback (p\<lparr>sp_buffer := sp_buffer p @ chunk\<rparr>) c"

definition SseParser_finish ::
  "'c sse_callback \<Rightarrow> sse_parser \<Rightarrow> 'c \<Rightarrow> status \<times> sse_parser \<times> 'c" where
  "SseParser_finish callback p c =
     (if sp_buffer p \<noteq> []
      then let r = SseParser_consumeLine callback (stripCarriage (sp_buffer p))
                     (p\<lparr>sp_buffer := []\<rparr>) c in
        if isOk (fst r) then SseParser_dispatch callback (fst (snd r)) (snd (snd r)) else r
      else SseParser_dispatch callback p c)"

text \<open>A client that feeds the chunks it receives until one fails, and then finishes.\<close>

fun feedAll ::
  "'c sse_callback \<Rightarrow> string list \<Rightarrow> sse_parser \<Rightarrow> 'c \<Rightarrow> status \<times> sse_parser \<times> 'c" where
  "feedAll callback [] p c = (okStatus, p, c)"
| "feedAll callback (chunk # chunks) p c =
     (let r = SseParser_feed callback chunk p c in
      if isOk (fst r) then feedAll callback chunks (fst (snd r)) (snd (snd r)) else r)"

definition sseStream :: "'c sse_callback \<Rightarrow> string list \<Rightarrow> 'c \<Rightarrow> status \<times> 'c" where
  "sseStream callback chunks c =
     (let r = feedAll callback chunks SseParser c in
      if isOk (fst r)
      then let r = SseParser_finish callback (fst (snd r)) (snd (snd r)) in (fst r, snd (snd r))
      else (fst r, snd (snd r)))"

section \<open>Chunks\<close>

lemma feedLoop_done:
  assumes "newline \<notin> set (sp_buffer p)"
  shows "feedLoop callback p c = (okStatus, p, c)"
proof -
  have "dropWhile (\<lambda>ch. ch \<noteq> newline) (sp_buffer p) = []" using assms by auto
  then show ?thesis by (subst feedLoop.simps) (simp only: list.case)
qed

lemma feedLoop_line:
  assumes "dropWhile (\<lambda>ch. ch \<noteq> newline) (sp_buffer p) = nl # rest"
  shows "feedLoop callback p c =
    (let r = SseParser_consumeLine callback
               (stripCarriage (takeWhile (\<lambda>ch. ch \<noteq> newline) (sp_buffer p)))
               (p\<lparr>sp_buffer := rest\<rparr>) c in
     if isOk (fst r) then feedLoop callback (fst (snd r)) (snd (snd r)) else r)"
  by (subst feedLoop.simps) (simp only: assms list.case Let_def)

text \<open>The buffer after a loop has no complete line left, unless the loop failed.\<close>

lemma feedLoop_drained:
  "isOk (fst (feedLoop callback p c)) \<Longrightarrow>
     newline \<notin> set (sp_buffer (fst (snd (feedLoop callback p c))))"
proof (induction callback p c rule: feedLoop.induct)
  case (1 callback p c)
  show ?case
  proof (cases "dropWhile (\<lambda>ch. ch \<noteq> newline) (sp_buffer p)")
    case Nil
    then have "newline \<notin> set (sp_buffer p)" by auto
    then show ?thesis by (simp add: feedLoop_done)
  next
    case (Cons nl rest)
    with 1 show ?thesis by (simp add: feedLoop_line Let_def split: if_splits)
  qed
qed

text \<open>Text appended to the buffer is only looked at once the lines before it are done.\<close>

lemma dropWhile_append_Cons:
  "dropWhile P xs = y # ys \<Longrightarrow>
     dropWhile P (xs @ zs) = y # ys @ zs \<and> takeWhile P (xs @ zs) = takeWhile P xs"
  by (induction xs) (auto split: if_splits)

definition withMore :: "string \<Rightarrow> sse_parser \<Rightarrow> sse_parser" where
  "withMore extra p = p\<lparr>sp_buffer := sp_buffer p @ extra\<rparr>"

lemma consumeLine_withMore:
  "SseParser_consumeLine callback line (withMore extra p) c =
     (let (s, q, d) = SseParser_consumeLine callback line p c in (s, withMore extra q, d))"
  by (auto simp: SseParser_consumeLine_def SseParser_dispatch_def withMore_def consumeField_def
      SseParser_reset_def Let_def split: prod.splits)

lemma feedLoop_append:
  "feedLoop callback (withMore extra p) c =
     (let (s, q, d) = feedLoop callback p c in
      if isOk s then feedLoop callback (withMore extra q) d else (s, withMore extra q, d))"
proof (induction callback p c rule: feedLoop.induct)
  case (1 callback p c)
  show ?case
  proof (cases "dropWhile (\<lambda>ch. ch \<noteq> newline) (sp_buffer p)")
    case Nil
    then have "newline \<notin> set (sp_buffer p)" by auto
    then show ?thesis by (simp add: feedLoop_done)
  next
    case (Cons nl rest)
    note drop = dropWhile_append_Cons [OF Cons, of extra]
    define line where "line = stripCarriage (takeWhile (\<lambda>ch. ch \<noteq> newline) (sp_buffer p))"
    obtain s q d where r: "SseParser_consumeLine callback line (p\<lparr>sp_buffer := rest\<rparr>) c = (s, q, d)"
      by (cases "SseParser_consumeLine callback line (p\<lparr>sp_buffer := rest\<rparr>) c") auto
    have "(withMore extra p)\<lparr>sp_buffer := rest @ extra\<rparr> = withMore extra (p\<lparr>sp_buffer := rest\<rparr>)"
      by (simp add: withMore_def)
    then have "SseParser_consumeLine callback line ((withMore extra p)\<lparr>sp_buffer := rest @ extra\<rparr>) c
        = (s, withMore extra q, d)"
      by (simp add: consumeLine_withMore r)
    then have appended: "feedLoop callback (withMore extra p) c =
        (if isOk s then feedLoop callback (withMore extra q) d else (s, withMore extra q, d))"
      using drop by (simp add: feedLoop_line withMore_def line_def Let_def)
    have "feedLoop callback p c = (if isOk s then feedLoop callback q d else (s, q, d))"
      using Cons r by (simp add: feedLoop_line line_def Let_def)
    with appended 1 [OF Cons line_def refl] r show ?thesis by auto
  qed
qed

lemma feed_withMore: "SseParser_feed callback a p c = feedLoop callback (withMore a p) c"
  by (simp add: SseParser_feed_def withMore_def)

lemma withMore_append: "withMore (a @ b) p = withMore b (withMore a p)"
  by (simp add: withMore_def)

lemma feed_append:
  "SseParser_feed callback (a @ b) p c =
     (let (s, q, d) = SseParser_feed callback a p c in
      if isOk s then SseParser_feed callback b q d else (s, withMore b q, d))"
  unfolding feed_withMore withMore_append by (rule feedLoop_append)

lemma feedLoop_ok: "isOk (fst (feedLoop callback p c)) \<Longrightarrow> fst (feedLoop callback p c) = okStatus"
proof (induction callback p c rule: feedLoop.induct)
  case (1 callback p c)
  show ?case
  proof (cases "dropWhile (\<lambda>ch. ch \<noteq> newline) (sp_buffer p)")
    case Nil
    then have "newline \<notin> set (sp_buffer p)" by auto
    then show ?thesis by (simp add: feedLoop_done)
  next
    case (Cons nl rest)
    with 1 show ?thesis by (simp add: feedLoop_line Let_def split: if_splits)
  qed
qed

lemma feed_ok:
  "isOk (fst (SseParser_feed callback a p c)) \<Longrightarrow> fst (SseParser_feed callback a p c) = okStatus"
  by (simp add: feed_withMore feedLoop_ok)

lemma feed_nothing: "newline \<notin> set (sp_buffer p) \<Longrightarrow> SseParser_feed callback [] p c = (okStatus, p, c)"
  by (simp add: SseParser_feed_def feedLoop_done)

lemma feedAll_concat:
  assumes "newline \<notin> set (sp_buffer p)"
  shows "fst (feedAll callback chunks p c) = fst (SseParser_feed callback (concat chunks) p c) \<and>
    snd (snd (feedAll callback chunks p c)) = snd (snd (SseParser_feed callback (concat chunks) p c)) \<and>
    (isOk (fst (feedAll callback chunks p c)) \<longrightarrow>
       feedAll callback chunks p c = SseParser_feed callback (concat chunks) p c)"
  using assms
proof (induction chunks arbitrary: p c)
  case Nil
  then show ?case by (simp add: feed_nothing)
next
  case (Cons chunk chunks)
  obtain s q d where r: "SseParser_feed callback chunk p c = (s, q, d)"
    by (cases "SseParser_feed callback chunk p c") auto
  show ?case
  proof (cases "isOk s")
    case True
    then have "newline \<notin> set (sp_buffer q)"
      using r feedLoop_drained [of callback "p\<lparr>sp_buffer := sp_buffer p @ chunk\<rparr>" c]
      by (simp add: SseParser_feed_def)
    note IH = Cons.IH [OF this, of d]
    have f: "SseParser_feed callback (concat (chunk # chunks)) p c =
        SseParser_feed callback (concat chunks) q d"
      by (simp add: feed_append r True)
    have g: "feedAll callback (chunk # chunks) p c = feedAll callback chunks q d"
      by (simp add: r True)
    show ?thesis unfolding f g by (rule IH)
  qed (simp add: feed_append r)
qed

lemma sseStream_chunks: "sseStream callback chunks c = sseStream callback [concat chunks] c"
proof -
  have "newline \<notin> set (sp_buffer SseParser)" by (simp add: SseParser_def)
  note a = feedAll_concat [OF this, of callback chunks c]
  define r where "r = SseParser_feed callback (concat chunks) SseParser c"
  have "feedAll callback [concat chunks] SseParser c = r"
    using feed_ok [of callback "concat chunks" SseParser c]
    by (cases r) (auto simp: r_def [symmetric] Let_def)
  moreover have "fst (feedAll callback chunks SseParser c) = fst r"
    "snd (snd (feedAll callback chunks SseParser c)) = snd (snd r)"
    "isOk (fst r) \<Longrightarrow> feedAll callback chunks SseParser c = r"
    using a unfolding r_def by argo+
  ultimately show ?thesis by (cases "isOk (fst r)") (simp_all add: sseStream_def Let_def)
qed

section \<open>Delivery\<close>

text \<open>An event as a stream carries it, and what the callback sees of a list of events.\<close>

fun splitLines :: "string \<Rightarrow> string list" where
  "splitLines [] = [[]]"
| "splitLines (ch # cs) =
     (if ch = newline then [] # splitLines cs
      else case splitLines cs of [] \<Rightarrow> [[ch]] | l # ls \<Rightarrow> (ch # l) # ls)"

definition renderLine :: "string \<Rightarrow> string \<Rightarrow> string" where
  "renderLine field text = field @ '': '' @ text @ [newline]"

definition renderEvent :: "sse_event \<Rightarrow> string" where
  "renderEvent e =
     renderLine ''event'' (se_event e) @ concat (map (renderLine ''data'') (splitLines (se_data e))) @
     (if se_id e = [] then [] else renderLine ''id'' (se_id e)) @
     (case se_retry e of None \<Rightarrow> [] | Some n \<Rightarrow> renderLine ''retry'' (to_string n)) @ [newline]"

definition line_ok :: "string \<Rightarrow> bool" where
  "line_ok l \<longleftrightarrow> newline \<notin> set l \<and> (l \<noteq> [] \<longrightarrow> last l \<noteq> carriage)"

definition event_ok :: "sse_event \<Rightarrow> bool" where
  "event_ok e \<longleftrightarrow> se_event e \<noteq> [] \<and> line_ok (se_event e) \<and> line_ok (se_id e) \<and>
     (\<forall>l \<in> set (splitLines (se_data e)). line_ok l) \<and>
     (case se_retry e of None \<Rightarrow> True | Some n \<Rightarrow> n < 2 ^ 63)"

fun deliver :: "'c sse_callback \<Rightarrow> sse_event list \<Rightarrow> 'c \<Rightarrow> status \<times> 'c" where
  "deliver callback [] c = (okStatus, c)"
| "deliver callback (e # es) c =
     (let (r, d) = callback e c in
      if isOk (callbackStatus r) then deliver callback es d else (callbackStatus r, d))"

lemma splitLines_nonempty [simp]: "splitLines d \<noteq> []"
  by (induction d) (auto split: list.splits)

lemma splitLines_join:
  "splitLines d = l # ls \<Longrightarrow> d = l @ concat (map (\<lambda>l. newline # l) ls)"
proof (induction d arbitrary: l ls)
  case (Cons ch d)
  obtain m ms where d: "splitLines d = m # ms" by (cases "splitLines d") simp_all
  from Cons.prems have ls: "l # ls = (if ch = newline then [] # m # ms else (ch # m) # ms)"
    by (simp add: d split: if_splits)
  show ?case
  proof (cases "ch = newline")
    case True
    with ls have "l = []" "ls = m # ms" by simp_all
    with True Cons.IH [OF d] show ?thesis by simp
  next
    case False
    with ls have "l = ch # m" "ls = ms" by simp_all
    with Cons.IH [OF d] show ?thesis by simp
  qed
qed simp

lemma split_at:
  "ch \<notin> set l \<Longrightarrow> dropWhile (\<lambda>x. x \<noteq> ch) (l @ ch # r) = ch # r"
  "ch \<notin> set l \<Longrightarrow> takeWhile (\<lambda>x. x \<noteq> ch) (l @ ch # r) = l"
  by (induction l) auto

lemma feed_line:
  assumes "sp_buffer p = []" and "newline \<notin> set l"
  shows "SseParser_feed callback (l @ newline # rest) p c =
    (let (s, q, d) = SseParser_consumeLine callback (stripCarriage l) p c in
     if isOk s then SseParser_feed callback rest q d else (s, withMore rest q, d))"
proof -
  let ?p = "withMore (l @ newline # rest) p"
  have "dropWhile (\<lambda>ch. ch \<noteq> newline) (sp_buffer ?p) = newline # rest"
    and take: "takeWhile (\<lambda>ch. ch \<noteq> newline) (sp_buffer ?p) = l"
    using assms by (simp_all add: withMore_def split_at)
  note feedLoop_line [OF this(1), of callback c]
  moreover have "?p\<lparr>sp_buffer := rest\<rparr> = withMore rest p" using assms by (simp add: withMore_def)
  ultimately show ?thesis
    by (simp add: feed_withMore take consumeLine_withMore split_beta Let_def)
qed

lemma feed_field:
  assumes "sp_buffer p = []" and "line_ok text" and "newline \<notin> set field"
    and "field \<noteq> []" and "CHR '':'' \<notin> set field"
  shows "SseParser_feed callback (renderLine field text @ rest) p c =
    SseParser_feed callback rest (consumeField field text p) c"
proof -
  let ?l = "field @ '': '' @ text"
  have strip: "stripCarriage ?l = ?l" using assms(2) by (auto simp: stripCarriage_def line_ok_def)
  have l: "?l = field @ CHR '':'' # CHR '' '' # text" by simp
  have "fieldOf ?l = field" unfolding l fieldOf_def using assms(5) by (rule split_at(2))
  moreover have "valueOf ?l = text" unfolding l valueOf_def split_at(1) [OF assms(5)] by simp
  moreover have "hd ?l \<noteq> CHR '':''" using assms(4,5) by (cases field) auto
  ultimately have "SseParser_consumeLine callback ?l p c = (okStatus, consumeField field text p, c)"
    using assms(4) by (simp add: SseParser_consumeLine_def)
  moreover have "newline \<notin> set ?l" using assms(2,3) by (simp add: line_ok_def)
  ultimately show ?thesis
    using feed_line [OF assms(1), of ?l callback rest c] strip by (simp add: renderLine_def)
qed

lemma feed_more_data:
  assumes "sp_buffer p = []" and "sp_hasData p" and "\<forall>l \<in> set ls. line_ok l"
  shows "SseParser_feed callback (concat (map (renderLine ''data'') ls) @ rest) p c =
    SseParser_feed callback rest
      (p\<lparr>sp_data := sp_data p @ concat (map (\<lambda>l. newline # l) ls)\<rparr>) c"
  using assms
proof (induction ls arbitrary: p)
  case (Cons l ls)
  let ?q = "p\<lparr>sp_data := sp_data p @ newline # l\<rparr>"
  have "consumeField ''data'' l p = ?q"
    using Cons.prems(2) by (cases p) (simp add: consumeField_def)
  with Cons.prems Cons.IH [of ?q] show ?case by (simp add: feed_field)
qed simp

lemma feed_data:
  assumes "sp_buffer p = []" and "\<not> sp_hasData p" and "sp_data p = []"
    and "\<forall>l \<in> set (splitLines d). line_ok l"
  shows "SseParser_feed callback (concat (map (renderLine ''data'') (splitLines d)) @ rest) p c =
    SseParser_feed callback rest (p\<lparr>sp_data := d, sp_hasData := True\<rparr>) c"
proof -
  obtain l ls where d: "splitLines d = l # ls" by (cases "splitLines d") simp_all
  let ?q = "consumeField ''data'' l p"
  have q: "?q = p\<lparr>sp_data := l, sp_hasData := True\<rparr>"
    using assms(2,3) by (simp add: consumeField_def)
  have "SseParser_feed callback (concat (map (renderLine ''data'') (splitLines d)) @ rest) p c =
    SseParser_feed callback (concat (map (renderLine ''data'') ls) @ rest) ?q c"
    using assms(1,4) by (simp add: d feed_field)
  also have "\<dots> = SseParser_feed callback rest
      (?q\<lparr>sp_data := sp_data ?q @ concat (map (\<lambda>l. newline # l) ls)\<rparr>) c"
    using assms(1,4) by (intro feed_more_data) (simp_all add: q d)
  also have "?q\<lparr>sp_data := sp_data ?q @ concat (map (\<lambda>l. newline # l) ls)\<rparr> =
      p\<lparr>sp_data := d, sp_hasData := True\<rparr>"
    using splitLines_join [OF d] by (simp add: q)
  finally show ?thesis .
qed

lemma parseRetry_to_string: "n < 2 ^ 63 \<Longrightarrow> parseRetry (to_string n) old = Some n"
  by (simp add: parseRetry_def)

lemma last_neq: "ch \<notin> set xs \<Longrightarrow> xs \<noteq> [] \<Longrightarrow> last xs \<noteq> ch"
  by (induction xs) auto

lemma line_ok_to_string [simp]: "line_ok (to_string n)"
proof -
  have "newline \<notin> set (to_string n)" "carriage \<notin> set (to_string n)"
    by (intro to_string_not_mem; simp add: digitChars_def)+
  then show ?thesis by (simp add: line_ok_def last_neq)
qed

text \<open>One event on an idle parser.\<close>

lemma feed_event:
  assumes "event_ok e"
  shows "SseParser_feed callback (renderEvent e @ rest) SseParser c =
    (let (r, d) = callback e c in
     if isOk (callbackStatus r) then SseParser_feed callback rest SseParser d
     else (callbackStatus r, withMore rest SseParser, d))"
proof -
  let ?p1 = "SseParser\<lparr>sp_event := se_event e\<rparr>"
  let ?p2 = "?p1\<lparr>sp_data := se_data e, sp_hasData := True\<rparr>"
  let ?p3 = "?p2\<lparr>sp_id := se_id e\<rparr>"
  let ?p4 = "?p3\<lparr>sp_retry := se_retry e\<rparr>"
  let ?retry = "case se_retry e of None \<Rightarrow> [] | Some n \<Rightarrow> renderLine ''retry'' (to_string n)"
  have event: "\<lparr>se_event = se_event e, se_data = se_data e, se_id = se_id e,
      se_retry = se_retry e\<rparr> = e" by (cases e) simp
  have p1: "SseParser_feed callback (renderLine ''event'' (se_event e) @ t) SseParser c
      = SseParser_feed callback t ?p1 c" for t
    using assms by (simp add: event_ok_def feed_field SseParser_def consumeField_def)
  have p2: "SseParser_feed callback (concat (map (renderLine ''data'') (splitLines (se_data e))) @ t) ?p1 c
      = SseParser_feed callback t ?p2 c" for t
    using assms by (intro feed_data) (simp_all add: event_ok_def SseParser_def)
  have p3: "SseParser_feed callback ((if se_id e = [] then [] else renderLine ''id'' (se_id e)) @ t) ?p2 c
      = SseParser_feed callback t ?p3 c" for t
    using assms by (simp add: event_ok_def feed_field SseParser_def consumeField_def)
  have p4: "SseParser_feed callback (?retry @ t) ?p3 c = SseParser_feed callback t ?p4 c" for t
    using assms
    by (auto simp: event_ok_def feed_field SseParser_def consumeField_def parseRetry_to_string
        split: option.splits)
  have "SseParser_feed callback (renderEvent e @ rest) SseParser c =
      SseParser_feed callback (newline # rest) ?p4 c"
    unfolding renderEvent_def append_assoc p1 p2 p3 p4 by simp
  also have "\<dots> = (let (r, d) = callback e c in
     if isOk (callbackStatus r) then SseParser_feed callback rest SseParser d
     else (callbackStatus r, withMore rest SseParser, d))"
    using assms feed_line [of ?p4 "[]" callback rest c]
    by (simp add: event stripCarriage_def SseParser_consumeLine_def SseParser_dispatch_def event_ok_def
        SseParser_def SseParser_reset_def split_beta Let_def)
  finally show ?thesis .
qed

lemma feed_events:
  assumes "\<forall>e \<in> set es. event_ok e"
  shows "let (s, q, d) = SseParser_feed callback (concat (map renderEvent es)) SseParser c in
    (s, d) = deliver callback es c \<and> (isOk s \<longrightarrow> q = SseParser)"
  using assms
proof (induction es arbitrary: c)
  case Nil
  have "SseParser_feed callback [] SseParser c = (okStatus, SseParser, c)"
    by (intro feed_nothing) (simp add: SseParser_def)
  then show ?case by simp
next
  case (Cons e es)
  then show ?case by (auto simp: feed_event split_beta Let_def)
qed

lemma sseStream_delivers:
  assumes "\<forall>e \<in> set es. event_ok e" and "concat chunks = concat (map renderEvent es)"
  shows "sseStream callback chunks c = deliver callback es c"
proof -
  obtain s q d where r: "SseParser_feed callback (concat chunks) SseParser c = (s, q, d)"
    by (cases "SseParser_feed callback (concat chunks) SseParser c") auto
  with feed_events [OF assms(1), of callback c] assms(2)
  have s: "(s, d) = deliver callback es c" "isOk s \<Longrightarrow> q = SseParser" by auto
  have ok: "s = okStatus" if "isOk s"
  proof -
    have "isOk (fst (deliver callback fs a)) \<Longrightarrow> fst (deliver callback fs a) = okStatus" for fs a
      by (induction fs arbitrary: a) (auto simp: split_beta Let_def split: if_splits)
    from this [of es c] that s(1) [symmetric] show ?thesis by simp
  qed
  have "sseStream callback [concat chunks] c =
    (if isOk s then (let r = SseParser_finish callback q d in (fst r, snd (snd r))) else (s, d))"
    using r by (simp add: sseStream_def Let_def)
  also have "\<dots> = (s, d)"
    using s(2) ok by (auto simp: SseParser_finish_def SseParser_def SseParser_dispatch_def Let_def)
  finally show ?thesis using s(1) sseStream_chunks [of callback chunks c] by simp
qed

end
