(* ===== verification/Storage.thy ===== *)
theory Storage
  imports LG_Prelude
begin

text \<open>
  The key-value storage of \<^verbatim>\<open>src/src/foundation/storage\<close>: the records, checks and cursors of
  \<^verbatim>\<open>i_storage.hpp\<close>, the interface \<^verbatim>\<open>IStorage\<close> as a record of operations with its contract as
  a locale, and \<^verbatim>\<open>MemoryStorage\<close> (\<^verbatim>\<open>memory_storage.cpp\<close>), which is proved to satisfy it.
  The reading of the wall clock is an argument of the operation that takes one.
\<close>

section \<open>Records\<close>

record storage_key =
  sk_scope :: string
  sk_key :: string

datatype put_mode = Upsert | InsertOnly | ReplaceOnly

record put_options =
  po_mode :: put_mode
  po_expectedVersion :: "64 word option"

record storage_item =
  si_key :: storage_key
  si_value :: string
  si_createdAt :: int
  si_updatedAt :: int
  si_version :: "64 word"

record storage_query =
  sq_scope :: string
  sq_keyPrefix :: string
  sq_limit :: nat
  sq_cursor :: string

record storage_page =
  pg_items :: "storage_item list"
  pg_nextCursor :: string

record storage_limits =
  sl_maxScopeBytes :: nat
  sl_maxKeyBytes :: nat
  sl_maxValueBytes :: nat
  sl_maxListItems :: nat
  sl_maxItems :: nat

definition StorageLimits :: storage_limits where
  "StorageLimits = \<lparr>sl_maxScopeBytes = 256, sl_maxKeyBytes = 1024,
     sl_maxValueBytes = 64 * 1024 * 1024, sl_maxListItems = 1000, sl_maxItems = 100000\<rparr>"

definition putMode :: "put_mode \<Rightarrow> put_options" where
  "putMode m = \<lparr>po_mode = m, po_expectedVersion = None\<rparr>"

section \<open>Checks\<close>

definition isalnum :: "char \<Rightarrow> bool" where
  "isalnum ch \<longleftrightarrow> (let n = (of_char ch :: nat) in
     48 \<le> n \<and> n \<le> 57 \<or> 65 \<le> n \<and> n \<le> 90 \<or> 97 \<le> n \<and> n \<le> 122)"

definition validStorageNameChar :: "char \<Rightarrow> bool" where
  "validStorageNameChar ch \<longleftrightarrow>
     isalnum ch \<or> ch = CHR ''_'' \<or> ch = CHR ''-'' \<or> ch = CHR ''.'' \<or> ch = CHR ''/'' \<or>
     ch = CHR '':'' \<or> ch = CHR ''@'' \<or> ch = CHR ''=''"

definition validateStorageName :: "string \<Rightarrow> string \<Rightarrow> nat \<Rightarrow> status" where
  "validateStorageName text label maxBytes =
     (if text = [] then mkStatus InvalidArgument (label @ '' cannot be empty'')
      else if maxBytes \<noteq> 0 \<and> length text > maxBytes
      then mkStatus InvalidArgument (label @ '' is too long'')
      else if list_all validStorageNameChar text then okStatus
      else mkStatus InvalidArgument (label @ '' contains invalid characters''))"

definition validateStorageKey :: "storage_key \<Rightarrow> storage_limits \<Rightarrow> status" where
  "validateStorageKey key limits =
     (let s = validateStorageName (sk_scope key) ''storage scope'' (sl_maxScopeBytes limits) in
      if \<not> isOk s then s
      else let s = validateStorageName (sk_key key) ''storage key'' (sl_maxKeyBytes limits) in
      if \<not> isOk s then s else okStatus)"

definition validateStorageValue :: "string \<Rightarrow> storage_limits \<Rightarrow> status" where
  "validateStorageValue text limits =
     (if sl_maxValueBytes limits \<noteq> 0 \<and> length text > sl_maxValueBytes limits
      then mkStatus ResourceExhausted ''storage value is too large'' else okStatus)"

definition validateStorageListOptions :: "storage_query \<Rightarrow> storage_limits \<Rightarrow> status" where
  "validateStorageListOptions q limits =
     (let s = (if sq_scope q = [] then okStatus
               else validateStorageName (sq_scope q) ''storage scope'' (sl_maxScopeBytes limits)) in
      if \<not> isOk s then s
      else let s = (if sq_keyPrefix q = [] then okStatus
               else validateStorageName (sq_keyPrefix q) ''storage key prefix''
                      (sl_maxKeyBytes limits)) in
      if \<not> isOk s then s
      else if sq_limit q = 0
      then mkStatus InvalidArgument ''storage list limit must be greater than zero''
      else if sl_maxListItems limits \<noteq> 0 \<and> sq_limit q > sl_maxListItems limits
      then mkStatus ResourceExhausted ''storage list limit is too large''
      else okStatus)"

definition validateStoragePutOptions :: "put_options \<Rightarrow> status" where
  "validateStoragePutOptions po =
     (if po_mode po = InsertOnly \<and> po_expectedVersion po \<noteq> None
      then mkStatus InvalidArgument ''insert-only storage put cannot use expectedVersion''
      else okStatus)"

definition storageKeyMatchesListOptions :: "storage_key \<Rightarrow> storage_query \<Rightarrow> bool" where
  "storageKeyMatchesListOptions key q =
     (if sq_scope q \<noteq> [] \<and> sk_scope key \<noteq> sq_scope q then False
      else if sq_keyPrefix q \<noteq> [] \<and> \<not> prefix (sq_keyPrefix q) (sk_key key) then False
      else True)"

section \<open>Cursors\<close>

definition storageCursorFromKey :: "storage_key \<Rightarrow> string" where
  "storageCursorFromKey key =
     to_string (length (sk_scope key)) @ '':'' @ sk_scope key @ sk_key key"

definition storageKeyFromCursor :: "string \<Rightarrow> storage_limits \<Rightarrow> storage_key option result" where
  "storageKeyFromCursor cursor limits =
     (if cursor = [] then Inr None
      else if CHR '':'' \<notin> set cursor then err InvalidArgument ''invalid storage cursor''
      else case fromCharsU64 (takeWhile (\<lambda>ch. ch \<noteq> CHR '':'') cursor) of
        None \<Rightarrow> err InvalidArgument ''invalid storage cursor''
      | Some scopeSize \<Rightarrow>
        let payload = tl (dropWhile (\<lambda>ch. ch \<noteq> CHR '':'') cursor) in
        if scopeSize = 0 \<or> scopeSize \<ge> length payload
        then err InvalidArgument ''invalid storage cursor''
        else let key = \<lparr>sk_scope = take scopeSize payload, sk_key = drop scopeSize payload\<rparr>;
                 s = validateStorageKey key limits in
        if \<not> isOk s then errorResult s else Inr (Some key))"

lemma validateStorageName_ok:
  "isOk (validateStorageName text label n) \<longleftrightarrow>
     text \<noteq> [] \<and> (n \<noteq> 0 \<longrightarrow> length text \<le> n) \<and> list_all validStorageNameChar text"
  by (auto simp: validateStorageName_def)

lemma validateStorageKey_ok:
  "isOk (validateStorageKey key limits) \<longleftrightarrow>
     isOk (validateStorageName (sk_scope key) ''storage scope'' (sl_maxScopeBytes limits)) \<and>
     isOk (validateStorageName (sk_key key) ''storage key'' (sl_maxKeyBytes limits))"
  by (simp add: validateStorageKey_def Let_def)

lemma storage_key_eta [simp]: "\<lparr>sk_scope = sk_scope key, sk_key = sk_key key\<rparr> = key"
  by (cases key) simp

lemma cursor_nonempty [simp]: "storageCursorFromKey key \<noteq> []"
  by (simp add: storageCursorFromKey_def)

lemma takeWhile_sep:
  "ch \<notin> set l \<Longrightarrow> takeWhile (\<lambda>x. x \<noteq> ch) (l @ ch # r) = l"
  "ch \<notin> set l \<Longrightarrow> dropWhile (\<lambda>x. x \<noteq> ch) (l @ ch # r) = ch # r"
  by (induction l) auto

text \<open>A cursor names the key it was made from.\<close>

lemma cursor_roundtrip:
  assumes "isOk (validateStorageKey key limits)" and "length (sk_scope key) < 2 ^ 64"
  shows "storageKeyFromCursor (storageCursorFromKey key) limits = Inr (Some key)"
proof -
  let ?n = "to_string (length (sk_scope key))"
  have ne: "sk_scope key \<noteq> []" "sk_key key \<noteq> []"
    using assms(1) by (simp_all add: validateStorageKey_ok validateStorageName_ok)
  have sep: "CHR '':'' \<notin> set ?n" by (simp add: to_string_not_mem)
  have c: "storageCursorFromKey key = ?n @ CHR '':'' # (sk_scope key @ sk_key key)"
    by (simp add: storageCursorFromKey_def)
  have "takeWhile (\<lambda>ch. ch \<noteq> CHR '':'') (storageCursorFromKey key) = ?n"
    "dropWhile (\<lambda>ch. ch \<noteq> CHR '':'') (storageCursorFromKey key) = CHR '':'' # (sk_scope key @ sk_key key)"
    unfolding c using takeWhile_sep [OF sep] by simp_all
  then show ?thesis
    using ne assms by (simp add: storageKeyFromCursor_def c Let_def)
qed

section \<open>The interface\<close>

record 's storage_ops =
  st_put :: "storage_key \<Rightarrow> string \<Rightarrow> put_options \<Rightarrow> ('s, unit) sres"
  st_get :: "storage_key \<Rightarrow> ('s, storage_item option) sres"
  st_list :: "storage_query \<Rightarrow> ('s, storage_page) sres"
  st_remove :: "storage_key \<Rightarrow> ('s, unit) sres"

text \<open>
  The loop of every client that reads a whole prefix: page by page, handling each item as it
  comes, until a page has no cursor for the next one.
\<close>

partial_function (option) scanPages ::
  "'s storage_ops \<Rightarrow> ('acc \<Rightarrow> storage_item \<Rightarrow> 'acc result) \<Rightarrow> storage_query \<Rightarrow> 'acc \<Rightarrow> 's \<Rightarrow>
   ('acc result \<times> 's) option" where
  "scanPages ops f q acc s =
     (case st_list ops q s of
        (Inl e, s') \<Rightarrow> Some (Inl e, s')
      | (Inr page, s') \<Rightarrow>
          (case foldM_result f acc (pg_items page) of
             Inl e \<Rightarrow> Some (Inl e, s')
           | Inr acc' \<Rightarrow>
               if pg_nextCursor page = [] then Some (Inr acc', s')
               else scanPages ops f (q\<lparr>sq_cursor := pg_nextCursor page\<rparr>) acc' s'))"

declare scanPages.simps [code]

text \<open>
  The contract.  \<open>abs\<close> is the content as a map, \<open>pending\<close> what a listing from a cursor on will
  return, \<open>valid\<close> and \<open>listable\<close> the keys and the queries the storage accepts.
\<close>

locale storage =
  fixes ops :: "'s storage_ops" and inv :: "'s \<Rightarrow> bool"
    and abs :: "'s \<Rightarrow> storage_key \<Rightarrow> string option"
    and pending :: "'s \<Rightarrow> storage_query \<Rightarrow> storage_item list"
    and valid :: "'s \<Rightarrow> storage_key \<Rightarrow> bool" and listable :: "'s \<Rightarrow> storage_query \<Rightarrow> bool"
  assumes put_ok: "inv s \<Longrightarrow> st_put ops k v po s = (Inr u, s') \<Longrightarrow>
      inv s' \<and> abs s' = (abs s)(k \<mapsto> v) \<and> valid s' = valid s \<and> listable s' = listable s \<and>
      valid s k \<and> (po_mode po = InsertOnly \<longrightarrow> abs s k = None)"
    and put_err: "inv s \<Longrightarrow> st_put ops k v po s = (Inl e, s') \<Longrightarrow> s' = s"
    and get_valid: "inv s \<Longrightarrow> valid s k \<Longrightarrow>
      \<exists>r. st_get ops k s = (Inr r, s) \<and> map_option si_value r = abs s k"
    and get_frame: "inv s \<Longrightarrow> snd (st_get ops k s) = s"
    and remove_valid: "inv s \<Longrightarrow> valid s k \<Longrightarrow>
      \<exists>s'. st_remove ops k s = (Inr (), s') \<and> inv s' \<and> abs s' = (abs s)(k := None) \<and>
        valid s' = valid s \<and> listable s' = listable s"
    and list_frame: "inv s \<Longrightarrow> snd (st_list ops q s) = s"
    and list_first: "inv s \<Longrightarrow> listable s q \<Longrightarrow> sq_cursor q = [] \<Longrightarrow>
      \<exists>page. fst (st_list ops q s) = Inr page"
    and list_page: "inv s \<Longrightarrow> fst (st_list ops q s) = Inr page \<Longrightarrow>
      pending s q = pg_items page @
        (if pg_nextCursor page = [] then [] else pending s (q\<lparr>sq_cursor := pg_nextCursor page\<rparr>))"
    and list_next: "inv s \<Longrightarrow> fst (st_list ops q s) = Inr page \<Longrightarrow> pg_nextCursor page \<noteq> [] \<Longrightarrow>
      pg_items page \<noteq> [] \<and>
      (\<exists>page'. fst (st_list ops (q\<lparr>sq_cursor := pg_nextCursor page\<rparr>) s) = Inr page')"
    and pending_all: "inv s \<Longrightarrow> sq_cursor q = [] \<Longrightarrow>
      distinct (map si_key (pending s q)) \<and>
      (\<lambda>i. (si_key i, si_value i)) ` set (pending s q) =
        {(k, v). abs s k = Some v \<and> storageKeyMatchesListOptions k q}"
    and abs_valid: "inv s \<Longrightarrow> abs s k \<noteq> None \<Longrightarrow> valid s k"
begin

text \<open>The loop over the pages ends, and it is the fold over everything that is pending.\<close>

lemma scanPages_from:
  assumes "inv s" and "fst (st_list ops q s) = Inr page"
  shows "scanPages ops f q acc s = Some (foldM_result f acc (pending s q), s)"
  using assms
proof (induction "length (pending s q)" arbitrary: q acc page rule: less_induct)
  case less
  have list: "st_list ops q s = (Inr page, s)"
    using less.prems list_frame [OF less.prems(1), of q] by (cases "st_list ops q s") auto
  note pend = list_page [OF less.prems]
  show ?case
  proof (cases "foldM_result f acc (pg_items page)")
    case (Inl e)
    then have "foldM_result f acc (pending s q) = Inl e"
      by (simp add: pend foldM_result_append)
    with Inl list show ?thesis by (simp add: scanPages.simps [of ops f q])
  next
    case (Inr acc')
    show ?thesis
    proof (cases "pg_nextCursor page = []")
      case True
      with Inr list pend show ?thesis by (simp add: scanPages.simps [of ops f q])
    next
      case False
      let ?q = "q\<lparr>sq_cursor := pg_nextCursor page\<rparr>"
      obtain page' where nxt: "fst (st_list ops ?q s) = Inr page'" and "pg_items page \<noteq> []"
        using list_next [OF less.prems False] by blast
      then have "length (pending s ?q) < length (pending s q)" using pend False by simp
      from less.hyps [OF this less.prems(1) nxt, of acc'] Inr list False pend show ?thesis
        by (simp add: scanPages.simps [of ops f q] foldM_result_append)
    qed
  qed
qed

lemma scanPages_all:
  assumes "inv s" and "listable s q" and "sq_cursor q = []"
  shows "scanPages ops f q acc s = Some (foldM_result f acc (pending s q), s)"
proof -
  obtain page where "fst (st_list ops q s) = Inr page" using list_first [OF assms] by blast
  with assms(1) show ?thesis by (rule scanPages_from)
qed

end

section \<open>Memory storage\<close>

text \<open>The members; \<open>ms_now\<close> is the reading the wall clock gives.\<close>

record memory_storage =
  ms_limits :: storage_limits
  ms_now :: int
  ms_closed :: bool
  ms_items :: "(string \<times> string, storage_item) omap"

definition MemoryStorage :: "storage_limits \<Rightarrow> int \<Rightarrow> memory_storage" where
  "MemoryStorage limits now = \<lparr>ms_limits = limits, ms_now = now, ms_closed = False, ms_items = []\<rparr>"

definition toMapKey :: "storage_key \<Rightarrow> string \<times> string" where
  "toMapKey key = (sk_scope key, sk_key key)"

definition ensureOpenLocked :: "memory_storage \<Rightarrow> status" where
  "ensureOpenLocked s =
     (if ms_closed s then mkStatus Unavailable ''memory storage is closed'' else okStatus)"

text \<open>The checks of \<^verbatim>\<open>put\<close> against the item that is there, and the item it writes.\<close>

definition checkPut :: "put_options \<Rightarrow> storage_item option \<Rightarrow> memory_storage \<Rightarrow> status" where
  "checkPut po found s =
     (if po_mode po = InsertOnly \<and> found \<noteq> None
      then mkStatus AlreadyExists ''storage item already exists''
      else if po_mode po = ReplaceOnly \<and> found = None
      then mkStatus NotFound ''storage item does not exist''
      else if po_expectedVersion po \<noteq> None \<and> found = None
      then mkStatus NotFound ''storage item does not exist''
      else if po_expectedVersion po \<noteq> None \<and> si_version (the found) \<noteq> the (po_expectedVersion po)
      then mkStatus FailedPrecondition ''storage version mismatch''
      else if found = None \<and> sl_maxItems (ms_limits s) \<noteq> 0 \<and>
              length (ms_items s) \<ge> sl_maxItems (ms_limits s)
      then mkStatus ResourceExhausted ''memory storage item limit exceeded''
      else if found \<noteq> None \<and> si_version (the found) + 1 = 0
      then mkStatus ResourceExhausted ''storage item version exhausted''
      else okStatus)"

definition itemToStore :: "storage_key \<Rightarrow> string \<Rightarrow> storage_item option \<Rightarrow> int \<Rightarrow> storage_item" where
  "itemToStore key text found now =
     \<lparr>si_key = key, si_value = text,
      si_createdAt = (case found of None \<Rightarrow> now | Some it \<Rightarrow> si_createdAt it),
      si_updatedAt = now,
      si_version = (case found of None \<Rightarrow> 1 | Some it \<Rightarrow> si_version it + 1)\<rparr>"

definition MemoryStorage_put ::
  "storage_key \<Rightarrow> string \<Rightarrow> put_options \<Rightarrow> (memory_storage, unit) sres" where
  "MemoryStorage_put key text po s =
     (let k = validateStorageKey key (ms_limits s); p = validateStoragePutOptions po;
          v = validateStorageValue text (ms_limits s); opn = ensureOpenLocked s;
          found = map_of (ms_items s) (toMapKey key); c = checkPut po found s in
      if \<not> isOk k then (errorResult k, s)
      else if \<not> isOk p then (errorResult p, s)
      else if \<not> isOk v then (errorResult v, s)
      else if \<not> isOk opn then (errorResult opn, s)
      else if \<not> isOk c then (errorResult c, s)
      else (Inr (), s\<lparr>ms_items :=
              omap_put (toMapKey key) (itemToStore key text found (ms_now s)) (ms_items s)\<rparr>))"

definition MemoryStorage_get :: "storage_key \<Rightarrow> (memory_storage, storage_item option) sres" where
  "MemoryStorage_get key s =
     (let k = validateStorageKey key (ms_limits s); opn = ensureOpenLocked s in
      if \<not> isOk k then (errorResult k, s)
      else if \<not> isOk opn then (errorResult opn, s)
      else (Inr (map_of (ms_items s) (toMapKey key)), s))"

text \<open>The loop of \<^verbatim>\<open>list\<close> over the items, with the items of the page so far.\<close>

fun listLoop ::
  "storage_query \<Rightarrow> (string \<times> string) option \<Rightarrow> (string \<times> string, storage_item) omap \<Rightarrow>
   storage_item list \<Rightarrow> storage_page" where
  "listLoop q cursor [] out = \<lparr>pg_items = out, pg_nextCursor = []\<rparr>"
| "listLoop q cursor ((k, it) # rest) out =
     (if (case cursor of None \<Rightarrow> False | Some c \<Rightarrow> k \<le> c) then listLoop q cursor rest out
      else if \<not> storageKeyMatchesListOptions (si_key it) q then listLoop q cursor rest out
      else if sq_limit q > 0 \<and> length out \<ge> sq_limit q
      then \<lparr>pg_items = out,
            pg_nextCursor = (if out = [] then [] else storageCursorFromKey (si_key (last out)))\<rparr>
      else listLoop q cursor rest (out @ [it]))"

definition MemoryStorage_list :: "storage_query \<Rightarrow> (memory_storage, storage_page) sres" where
  "MemoryStorage_list q s =
     (case storageKeyFromCursor (sq_cursor q) (ms_limits s) of
        Inl e \<Rightarrow> (Inl e, s)
      | Inr cursorKey \<Rightarrow>
          let v = validateStorageListOptions q (ms_limits s); opn = ensureOpenLocked s in
          if \<not> isOk v then (errorResult v, s)
          else if \<not> isOk opn then (errorResult opn, s)
          else (Inr (listLoop q (map_option toMapKey cursorKey) (ms_items s) []), s))"

definition MemoryStorage_remove :: "storage_key \<Rightarrow> (memory_storage, unit) sres" where
  "MemoryStorage_remove key s =
     (let k = validateStorageKey key (ms_limits s); opn = ensureOpenLocked s in
      if \<not> isOk k then (errorResult k, s)
      else if \<not> isOk opn then (errorResult opn, s)
      else (Inr (), s\<lparr>ms_items := omap_del (toMapKey key) (ms_items s)\<rparr>))"

definition MemoryStorage_clearScope :: "string \<Rightarrow> (memory_storage, unit) sres" where
  "MemoryStorage_clearScope scope s =
     (let v = validateStorageName scope ''storage scope'' (sl_maxScopeBytes (ms_limits s));
          opn = ensureOpenLocked s in
      if \<not> isOk v then (errorResult v, s)
      else if \<not> isOk opn then (errorResult opn, s)
      else (Inr (), s\<lparr>ms_items := filter (\<lambda>(k, it). fst k \<noteq> scope) (ms_items s)\<rparr>))"

definition MemoryStorage_flush :: "memory_storage \<Rightarrow> status" where
  "MemoryStorage_flush s = ensureOpenLocked s"

definition MemoryStorage_close :: "memory_storage \<Rightarrow> status \<times> memory_storage" where
  "MemoryStorage_close s = (okStatus, s\<lparr>ms_closed := True\<rparr>)"

definition memory_ops :: "memory_storage storage_ops" where
  "memory_ops = \<lparr>st_put = MemoryStorage_put, st_get = MemoryStorage_get,
     st_list = MemoryStorage_list, st_remove = MemoryStorage_remove\<rparr>"

section \<open>The memory storage meets the contract\<close>

text \<open>An open storage in which every item stands under its own, accepted key.\<close>

definition storage_wf :: "memory_storage \<Rightarrow> bool" where
  "storage_wf s \<longleftrightarrow>
     \<not> ms_closed s \<and> omap_wf (ms_items s) \<and>
     0 < sl_maxScopeBytes (ms_limits s) \<and> sl_maxScopeBytes (ms_limits s) < 2 ^ 64 \<and>
     (\<forall>(k, it) \<in> set (ms_items s).
        k = toMapKey (si_key it) \<and> isOk (validateStorageKey (si_key it) (ms_limits s)))"

definition storage_abs :: "memory_storage \<Rightarrow> storage_key \<Rightarrow> string option" where
  "storage_abs s key = map_option si_value (map_of (ms_items s) (toMapKey key))"

definition afterCursor :: "(string \<times> string) option \<Rightarrow> string \<times> string \<Rightarrow> bool" where
  "afterCursor cursor k \<longleftrightarrow> (case cursor of None \<Rightarrow> True | Some c \<Rightarrow> c < k)"

definition matching ::
  "storage_query \<Rightarrow> (string \<times> string) option \<Rightarrow> (string \<times> string, storage_item) omap \<Rightarrow>
   (string \<times> string, storage_item) omap" where
  "matching q cursor items =
     filter (\<lambda>(k, it). afterCursor cursor k \<and> storageKeyMatchesListOptions (si_key it) q) items"

definition storage_pending :: "memory_storage \<Rightarrow> storage_query \<Rightarrow> storage_item list" where
  "storage_pending s q =
     (case storageKeyFromCursor (sq_cursor q) (ms_limits s) of
        Inl e \<Rightarrow> []
      | Inr cursorKey \<Rightarrow> map snd (matching q (map_option toMapKey cursorKey) (ms_items s)))"

definition storage_valid :: "memory_storage \<Rightarrow> storage_key \<Rightarrow> bool" where
  "storage_valid s key \<longleftrightarrow> isOk (validateStorageKey key (ms_limits s))"

definition storage_listable :: "memory_storage \<Rightarrow> storage_query \<Rightarrow> bool" where
  "storage_listable s q \<longleftrightarrow> isOk (validateStorageListOptions q (ms_limits s))"

lemma toMapKey_inject [simp]: "toMapKey a = toMapKey b \<longleftrightarrow> a = b"
  by (cases a; cases b) (simp add: toMapKey_def)

text \<open>A page is the first part of what matches; its cursor is that of its last item.\<close>

lemma listLoop_take:
  assumes "0 < sq_limit q" and "length out \<le> sq_limit q"
  shows "listLoop q cursor items out =
    (let ms = map snd (matching q cursor items); n = sq_limit q - length out in
     \<lparr>pg_items = out @ take n ms,
      pg_nextCursor =
        (if n < length ms then storageCursorFromKey (si_key (last (out @ take n ms))) else [])\<rparr>)"
  using assms
proof (induction q cursor items out rule: listLoop.induct)
  case (2 q cursor k it rest out)
  have skip: "(case cursor of None \<Rightarrow> False | Some c \<Rightarrow> k \<le> c) \<longleftrightarrow> \<not> afterCursor cursor k"
    by (cases cursor) (auto simp: afterCursor_def)
  show ?case
  proof (cases "afterCursor cursor k \<and> storageKeyMatchesListOptions (si_key it) q")
    case False
    with 2 skip show ?thesis by (auto simp: matching_def Let_def)
  next
    case True
    show ?thesis
    proof (cases "length out = sq_limit q")
      case True': True
      with 2(4) have "out \<noteq> []" by auto
      with True True' skip 2(4) show ?thesis by (simp add: matching_def Let_def)
    next
      case False
      with 2 True skip show ?thesis
        by (simp add: matching_def Let_def take_Cons' Suc_diff_le) auto
    qed
  qed
qed (simp add: matching_def)

lemma matching_wf: "omap_wf items \<Longrightarrow> omap_wf (matching q cursor items)"
  by (simp add: matching_def omap_wf_filter)

lemma filter_after_split:
  assumes "omap_wf (xs @ (k, v) # ys)"
  shows "filter (\<lambda>(a, b). k < a) (xs @ (k, v) # ys) = ys"
  using assms by (induction xs) (auto simp: omap_wf_Cons intro!: filter_True)

text \<open>What is left after a page is what matches after its last key.\<close>

lemma matching_after:
  assumes "omap_wf items" and "matching q cursor items = xs @ (k, it) # ys"
  shows "matching q (Some k) items = ys"
proof -
  have k: "afterCursor cursor k"
  proof -
    have "(k, it) \<in> set (matching q cursor items)" by (simp add: assms(2))
    then show ?thesis by (simp add: matching_def)
  qed
  have "afterCursor cursor a" if "k < a" for a
    using k that by (auto simp: afterCursor_def split: option.splits)
  then have "matching q (Some k) items = filter (\<lambda>(a, b). k < a) (matching q cursor items)"
    by (auto simp: matching_def afterCursor_def intro!: filter_cong)
  also have "\<dots> = ys"
    using filter_after_split [of xs k it ys] matching_wf [OF assms(1), of q cursor] assms(2) by simp
  finally show ?thesis .
qed

lemma matching_query [simp]: "matching (q\<lparr>sq_cursor := c\<rparr>) cursor items = matching q cursor items"
  by (simp add: matching_def storageKeyMatchesListOptions_def)

lemma validateListOptions_cursor [simp]:
  "validateStorageListOptions (q\<lparr>sq_cursor := c\<rparr>) limits = validateStorageListOptions q limits"
  by (cases q) (simp only: validateStorageListOptions_def storage_query.simps)

lemma scope_short:
  assumes "storage_wf s" and "isOk (validateStorageKey key (ms_limits s))"
  shows "length (sk_scope key) < 2 ^ 64"
proof -
  have "length (sk_scope key) \<le> sl_maxScopeBytes (ms_limits s)"
    using assms by (simp add: storage_wf_def validateStorageKey_ok validateStorageName_ok)
  also have "\<dots> < 2 ^ 64" using assms(1) by (simp add: storage_wf_def)
  finally show ?thesis .
qed

lemma memory_list_ok:
  assumes "fst (MemoryStorage_list q s) = Inr page"
  obtains cursorKey where "storageKeyFromCursor (sq_cursor q) (ms_limits s) = Inr cursorKey"
    and "isOk (validateStorageListOptions q (ms_limits s))" and "0 < sq_limit q"
    and "page = listLoop q (map_option toMapKey cursorKey) (ms_items s) []"
proof -
  obtain cursorKey where c: "storageKeyFromCursor (sq_cursor q) (ms_limits s) = Inr cursorKey"
    using assms by (cases "storageKeyFromCursor (sq_cursor q) (ms_limits s)")
      (auto simp: MemoryStorage_list_def)
  then have v: "isOk (validateStorageListOptions q (ms_limits s))"
    and p: "page = listLoop q (map_option toMapKey cursorKey) (ms_items s) []"
    using assms by (auto simp: MemoryStorage_list_def Let_def split: if_splits)
  then have "0 < sq_limit q" by (auto simp: validateStorageListOptions_def Let_def split: if_splits)
  with c v p show thesis by (intro that)
qed

lemma memory_page:
  assumes wf: "storage_wf s" and page: "fst (MemoryStorage_list q s) = Inr page"
  shows "storage_pending s q = pg_items page @
      (if pg_nextCursor page = [] then []
       else storage_pending s (q\<lparr>sq_cursor := pg_nextCursor page\<rparr>)) \<and>
    (pg_nextCursor page \<noteq> [] \<longrightarrow> pg_items page \<noteq> [] \<and>
     (\<exists>page'. fst (MemoryStorage_list (q\<lparr>sq_cursor := pg_nextCursor page\<rparr>) s) = Inr page'))"
proof -
  obtain cursorKey where c: "storageKeyFromCursor (sq_cursor q) (ms_limits s) = Inr cursorKey"
    and v: "isOk (validateStorageListOptions q (ms_limits s))" and lim: "0 < sq_limit q"
    and p: "page = listLoop q (map_option toMapKey cursorKey) (ms_items s) []"
    using memory_list_ok [OF page] by metis
  define ms where "ms = matching q (map_option toMapKey cursorKey) (ms_items s)"
  have items: "pg_items page = take (sq_limit q) (map snd ms)"
    and cursor: "pg_nextCursor page = (if sq_limit q < length ms
      then storageCursorFromKey (si_key (last (take (sq_limit q) (map snd ms)))) else [])"
    using listLoop_take [OF lim, of "[]"] by (simp_all add: p ms_def Let_def)
  have pend: "storage_pending s q = map snd ms" by (simp add: storage_pending_def c ms_def)
  show ?thesis
  proof (cases "sq_limit q < length ms")
    case False
    with items cursor pend show ?thesis by simp
  next
    case True
    define xs where "xs = take (sq_limit q - 1) ms"
    define ys where "ys = drop (sq_limit q) ms"
    obtain k it where x: "ms ! (sq_limit q - 1) = (k, it)" by (cases "ms ! (sq_limit q - 1)")
    have front: "take (sq_limit q) ms = xs @ [(k, it)]"
      using True lim x take_Suc_conv_app_nth [of "sq_limit q - 1" ms] by (simp add: xs_def)
    then have split: "ms = xs @ (k, it) # ys"
      using append_take_drop_id [of "sq_limit q" ms] by (simp add: ys_def)
    have "(k, it) \<in> set (ms_items s)"
      using split by (metis ms_def matching_def filter_is_subset in_set_conv_decomp subsetD)
    then have key: "k = toMapKey (si_key it)" "isOk (validateStorageKey (si_key it) (ms_limits s))"
      using wf by (auto simp: storage_wf_def)
    have nxt: "pg_nextCursor page = storageCursorFromKey (si_key it)"
      using True front by (simp add: cursor flip: take_map) (simp add: take_map)
    have decoded: "storageKeyFromCursor (pg_nextCursor page) (ms_limits s) = Inr (Some (si_key it))"
      using cursor_roundtrip [OF key(2) scope_short [OF wf key(2)]] by (simp add: nxt)
    have "storage_pending s (q\<lparr>sq_cursor := pg_nextCursor page\<rparr>) = map snd ys"
      using matching_after [of "ms_items s" q "map_option toMapKey cursorKey" xs k it ys] split wf
      by (simp add: storage_pending_def decoded key(1) ms_def storage_wf_def)
    moreover have "pg_items page = map snd (xs @ [(k, it)])" by (simp add: items take_map front)
    moreover have "\<exists>page'. fst (MemoryStorage_list (q\<lparr>sq_cursor := pg_nextCursor page\<rparr>) s) = Inr page'"
      using v wf by (simp add: MemoryStorage_list_def decoded Let_def storage_wf_def
          ensureOpenLocked_def)
    ultimately show ?thesis using pend split nxt by simp
  qed
qed

lemma memory_pending_all:
  assumes wf: "storage_wf s" and "sq_cursor q = []"
  shows "distinct (map si_key (storage_pending s q)) \<and>
    (\<lambda>i. (si_key i, si_value i)) ` set (storage_pending s q) =
      {(k, v). storage_abs s k = Some v \<and> storageKeyMatchesListOptions k q}"
proof -
  define ms where "ms = matching q None (ms_items s)"
  have pend: "storage_pending s q = map snd ms"
    using assms(2) by (simp add: storage_pending_def storageKeyFromCursor_def ms_def)
  have own: "k = toMapKey (si_key it)" if "(k, it) \<in> set (ms_items s)" for k it
    using that wf by (auto simp: storage_wf_def)
  have sub: "set ms \<subseteq> set (ms_items s)" by (auto simp: ms_def matching_def)
  have "map fst ms = map (\<lambda>p. toMapKey (si_key (snd p))) ms"
    using sub own by (auto intro!: map_cong)
  then have "map fst ms = map toMapKey (map (\<lambda>p. si_key (snd p)) ms)" by (simp add: comp_def)
  moreover have "distinct (map fst ms)"
    using wf matching_wf [of "ms_items s" q None] by (simp add: storage_wf_def ms_def omap_wf_def)
  ultimately have "distinct (map (\<lambda>p. si_key (snd p)) ms)" by (metis distinct_map)
  then have "distinct (map si_key (storage_pending s q))" by (simp add: pend comp_def)
  moreover have look: "map_of (ms_items s) (toMapKey k) = Some it \<longleftrightarrow>
      (toMapKey k, it) \<in> set (ms_items s)" for k it
    using wf by (simp add: storage_wf_def omap_wf_map_of_iff)
  have "(\<lambda>i. (si_key i, si_value i)) ` set (storage_pending s q) =
      {(k, v). storage_abs s k = Some v \<and> storageKeyMatchesListOptions k q}" (is "?L = ?R")
  proof (intro set_eqI iffI)
    fix kv assume "kv \<in> ?L"
    then obtain k it where "(k, it) \<in> set ms" "kv = (si_key it, si_value it)"
      by (auto simp: pend)
    with own [of k it] sub look [of "si_key it" it] show "kv \<in> ?R"
      by (auto simp: storage_abs_def ms_def matching_def)
  next
    fix kv assume "kv \<in> ?R"
    then obtain k it where k: "(toMapKey k, it) \<in> set (ms_items s)" "kv = (k, si_value it)"
      "storageKeyMatchesListOptions k q"
      by (auto simp: storage_abs_def look)
    from own [OF k(1)] have "si_key it = k" by simp
    with k have "(toMapKey k, it) \<in> set ms" by (simp add: ms_def matching_def afterCursor_def)
    with \<open>si_key it = k\<close> k(2) show "kv \<in> ?L" by (force simp: pend)
  qed
  ultimately show ?thesis by simp
qed

lemma memory_put_Inr:
  assumes "MemoryStorage_put key text po s = (Inr u, s')"
  shows "isOk (validateStorageKey key (ms_limits s))"
    and "isOk (checkPut po (map_of (ms_items s) (toMapKey key)) s)"
    and "s' = s\<lparr>ms_items := omap_put (toMapKey key)
      (itemToStore key text (map_of (ms_items s) (toMapKey key)) (ms_now s)) (ms_items s)\<rparr>"
  using assms by (auto simp: MemoryStorage_put_def Let_def split: if_splits)

lemma set_omap_put_wf: "set (omap_put k v m) \<subseteq> insert (k, v) (set m)"
  by (induction k v m rule: omap_put.induct) auto

lemma memory_put_wf:
  assumes "storage_wf s" and "MemoryStorage_put key text po s = (Inr u, s')"
  shows "storage_wf s' \<and> storage_abs s' = (storage_abs s)(key \<mapsto> text) \<and>
    storage_valid s' = storage_valid s \<and> storage_listable s' = storage_listable s"
proof -
  let ?k = "toMapKey key"
  let ?it = "itemToStore key text (map_of (ms_items s) ?k) (ms_now s)"
  note put = memory_put_Inr [OF assms(2)]
  have "si_key ?it = key" by (simp add: itemToStore_def)
  then have "storage_wf s'"
    using assms(1) put(1) set_omap_put_wf [of ?k ?it "ms_items s"]
    by (fastforce simp: storage_wf_def put(3))
  moreover have "storage_abs s' = (storage_abs s)(key \<mapsto> text)"
    by (rule ext) (simp add: storage_abs_def put(3) itemToStore_def)
  ultimately show ?thesis
    by (simp add: put(3) storage_valid_def storage_listable_def fun_eq_iff)
qed

lemma memory_remove_wf:
  "storage_wf s \<Longrightarrow> storage_wf (s\<lparr>ms_items := omap_del k (ms_items s)\<rparr>)"
  by (auto simp: storage_wf_def omap_del_def omap_wf_filter)

interpretation mem: storage memory_ops storage_wf storage_abs storage_pending storage_valid
  storage_listable
proof (unfold_locales, goal_cases)
  case (1 s k v po u s')
  then have put: "MemoryStorage_put k v po s = (Inr u, s')" by (simp add: memory_ops_def)
  from memory_put_Inr(1,2) [OF put] memory_put_wf [OF 1(1) put] show ?case
    by (auto simp: storage_valid_def checkPut_def storage_abs_def split: if_splits)
next
  case (2 s k v po e s')
  then show ?case by (auto simp: memory_ops_def MemoryStorage_put_def Let_def split: if_splits)
next
  case (3 s k)
  then show ?case
    by (simp add: memory_ops_def MemoryStorage_get_def storage_valid_def storage_wf_def
        ensureOpenLocked_def Let_def storage_abs_def)
next
  case (4 s k)
  then show ?case by (simp add: memory_ops_def MemoryStorage_get_def Let_def)
next
  case (5 s k)
  then show ?case
    using memory_remove_wf [of s "toMapKey k"]
    by (auto simp: memory_ops_def MemoryStorage_remove_def storage_valid_def ensureOpenLocked_def
        Let_def storage_abs_def storage_listable_def fun_eq_iff) (simp_all add: storage_wf_def)
next
  case (6 s q)
  then show ?case by (simp add: memory_ops_def MemoryStorage_list_def Let_def split: sum.splits)
next
  case (7 s q)
  then show ?case
    by (simp add: memory_ops_def MemoryStorage_list_def storage_listable_def storage_wf_def
        ensureOpenLocked_def Let_def storageKeyFromCursor_def)
next
  case (8 s q page)
  then show ?case using memory_page [of s q page] by (simp add: memory_ops_def)
next
  case (9 s q page)
  then show ?case using memory_page [of s q page] by (simp add: memory_ops_def)
next
  case (10 s q)
  then show ?case by (rule memory_pending_all)
next
  case (11 s k)
  then show ?case
    by (auto simp: storage_abs_def storage_valid_def storage_wf_def omap_wf_map_of_iff)
qed

text \<open>A listing is in the order of the keys.\<close>

lemma memory_pending_sorted:
  assumes "storage_wf s"
  shows "sorted (map (\<lambda>it. toMapKey (si_key it)) (storage_pending s q))"
proof (cases "storageKeyFromCursor (sq_cursor q) (ms_limits s)")
  case (Inr cursorKey)
  define ms where "ms = matching q (map_option toMapKey cursorKey) (ms_items s)"
  have "toMapKey (si_key it) = k" if "(k, it) \<in> set ms" for k it
    using that assms by (auto simp: ms_def matching_def storage_wf_def)
  then have keys: "map (\<lambda>p. toMapKey (si_key (snd p))) ms = map fst ms"
    by (auto intro!: map_cong)
  have "sorted (map fst ms)"
    using assms matching_wf [of "ms_items s" q "map_option toMapKey cursorKey"]
    by (simp add: storage_wf_def omap_wf_def ms_def)
  then have "sorted (map (\<lambda>p. toMapKey (si_key (snd p))) ms)" by (simp only: keys)
  then show ?thesis by (simp add: storage_pending_def Inr ms_def [symmetric] comp_def)
qed (simp add: storage_pending_def)

lemma new_storage_wf:
  "0 < sl_maxScopeBytes limits \<Longrightarrow> sl_maxScopeBytes limits < 2 ^ 64 \<Longrightarrow>
     storage_wf (MemoryStorage limits now)"
  by (simp add: storage_wf_def MemoryStorage_def)

lemma clearScope_wf:
  assumes "storage_wf s" and "MemoryStorage_clearScope scope s = (Inr u, s')"
  shows "storage_wf s' \<and>
    (\<forall>k. storage_abs s' k = (if sk_scope k = scope then None else storage_abs s k))"
proof -
  have s': "s' = s\<lparr>ms_items := filter (\<lambda>(k, it). fst k \<noteq> scope) (ms_items s)\<rparr>"
    using assms(2) by (auto simp: MemoryStorage_clearScope_def Let_def split: if_splits)
  have "map_of (filter (\<lambda>(k, it). fst k \<noteq> scope) m) k = (if fst k = scope then None else map_of m k)"
    for m :: "(string \<times> string, storage_item) omap" and k
    by (induction m) auto
  then show ?thesis
    using assms(1) by (auto simp: s' storage_wf_def omap_wf_filter storage_abs_def toMapKey_def)
qed

end
