(* ===== verification/Json_Text.thy ===== *)
theory Json_Text
  imports Json
begin

text \<open>
  JSON documents as text: the scan \<^verbatim>\<open>validateJsonTextLimits\<close> that runs before the parser,
  \<^verbatim>\<open>parseJsonWithLimits\<close> and \<^verbatim>\<open>rejectUnknownJsonFields\<close>
  (\<^verbatim>\<open>src/src/foundation/serialization/json_limits.hpp\<close>).  The parser and the printer belong to
  the JSON library: they are parameters, \<open>parse\<close> from a text to a value or the message of the
  exception, \<open>dump\<close> from a value to a text.  What is assumed of them where it matters is that
  \<open>parse\<close> reads back what \<open>dump\<close> wrote; the text does not tell a signed from an unsigned
  number, and a number without a sign is read as unsigned.
\<close>

section \<open>The scan of the text\<close>

record scan_state =
  sc_inString :: bool
  sc_escaped :: bool
  sc_stringBytes :: nat
  sc_depth :: nat

definition scanChar :: "string \<Rightarrow> json_limits \<Rightarrow> scan_state \<Rightarrow> char \<Rightarrow> scan_state result" where
  "scanChar label lim st ch =
     (if sc_inString st
      then if sc_escaped st
        then Inr (st\<lparr>sc_escaped := False, sc_stringBytes := sc_stringBytes st + 1\<rparr>)
        else if ch = CHR 0x5C
        then Inr (st\<lparr>sc_escaped := True, sc_stringBytes := sc_stringBytes st + 1\<rparr>)
        else if ch = CHR 0x22 then Inr (st\<lparr>sc_inString := False\<rparr>)
        else if exceedsJsonLimit (sc_stringBytes st + 1) (maxStringBytes lim)
        then err ResourceExhausted (label @ '' JSON string is too large'')
        else Inr (st\<lparr>sc_stringBytes := sc_stringBytes st + 1\<rparr>)
      else if ch = CHR 0x22 then Inr (st\<lparr>sc_inString := True, sc_stringBytes := 0\<rparr>)
      else if ch = CHR ''{'' \<or> ch = CHR ''[''
      then if exceedsJsonLimit (sc_depth st + 1) (maxDepth lim)
        then err ResourceExhausted (label @ '' JSON nesting is too deep'')
        else Inr (st\<lparr>sc_depth := sc_depth st + 1\<rparr>)
      else if ch = CHR ''}'' \<or> ch = CHR '']''
      then Inr (if sc_depth st > 0 then st\<lparr>sc_depth := sc_depth st - 1\<rparr> else st)
      else Inr st)"

definition validateJsonTextLimits :: "string \<Rightarrow> string \<Rightarrow> json_limits \<Rightarrow> status" where
  "validateJsonTextLimits text label lim =
     (if exceedsJsonLimit (length text) (maxBytes lim)
      then mkStatus ResourceExhausted (label @ '' JSON is too large'')
      else case foldM_result (scanChar label lim)
             \<lparr>sc_inString = False, sc_escaped = False, sc_stringBytes = 0, sc_depth = 0\<rparr> text of
        Inl s \<Rightarrow> s | Inr _ \<Rightarrow> okStatus)"

lemma foldM_error_code:
  assumes "\<And>s x e. f s x = Inl e \<Longrightarrow> st_code e = code" and "foldM_result f s xs = Inl e"
  shows "st_code e = code"
  using assms(2)
proof (induction xs arbitrary: s)
  case (Cons x xs)
  then show ?case using assms(1) by (cases "f s x") auto
qed simp

lemma scanChar_error: "scanChar label lim st ch = Inl e \<Longrightarrow> st_code e = ResourceExhausted"
  by (auto simp: scanChar_def split: if_splits)

lemma textLimits_code:
  "st_code (validateJsonTextLimits text label lim) \<in> {Ok, ResourceExhausted}"
  using foldM_error_code [of "scanChar label lim", OF scanChar_error]
  by (auto simp: validateJsonTextLimits_def okStatus_def split: sum.splits)

text \<open>A text with few opening brackets and shorter than the limits passes the scan.\<close>

definition opensNesting :: "char \<Rightarrow> bool" where
  "opensNesting ch \<longleftrightarrow> ch = CHR ''{'' \<or> ch = CHR ''[''"

lemma scanChar_within:
  assumes "sc_stringBytes st + 1 \<le> maxStringBytes lim"
    and "sc_depth st + (if opensNesting ch then 1 else 0) \<le> maxDepth lim"
  obtains st' where "scanChar label lim st ch = Inr st'"
    and "sc_stringBytes st' \<le> sc_stringBytes st + 1"
    and "sc_depth st' \<le> sc_depth st + (if opensNesting ch then 1 else 0)"
proof -
  have "\<exists>st'. scanChar label lim st ch = Inr st' \<and> sc_stringBytes st' \<le> sc_stringBytes st + 1 \<and>
      sc_depth st' \<le> sc_depth st + (if opensNesting ch then 1 else 0)"
    using assms by (auto simp: scanChar_def exceedsJsonLimit_def opensNesting_def)
  then show thesis using that by blast
qed

lemma scan_within:
  assumes "sc_stringBytes st + length doc \<le> maxStringBytes lim"
    and "sc_depth st + length (filter opensNesting doc) \<le> maxDepth lim"
  shows "\<exists>st'. foldM_result (scanChar label lim) st doc = Inr st'"
  using assms
proof (induction doc arbitrary: st)
  case (Cons ch doc)
  have "sc_stringBytes st + 1 \<le> maxStringBytes lim"
    "sc_depth st + (if opensNesting ch then 1 else 0) \<le> maxDepth lim"
    using Cons.prems by (simp_all split: if_splits)
  then obtain st' where st': "scanChar label lim st ch = Inr st'"
    "sc_stringBytes st' \<le> sc_stringBytes st + 1"
    "sc_depth st' \<le> sc_depth st + (if opensNesting ch then 1 else 0)"
    by (rule scanChar_within)
  with Cons.prems Cons.IH [of st'] show ?case by (simp split: if_splits)
qed simp

lemma short_text_ok:
  assumes "length doc \<le> maxBytes lim" and "length doc \<le> maxStringBytes lim"
    and "length (filter opensNesting doc) \<le> maxDepth lim"
  shows "isOk (validateJsonTextLimits doc label lim)"
  using scan_within [of "\<lparr>sc_inString = False, sc_escaped = False, sc_stringBytes = 0, sc_depth = 0\<rparr>" doc lim label] assms
  by (auto simp: validateJsonTextLimits_def exceedsJsonLimit_def)

section \<open>Parsing\<close>

type_synonym json_parser = "string \<Rightarrow> string + json"

definition parseJsonWithLimits ::
  "json_parser \<Rightarrow> string \<Rightarrow> string \<Rightarrow> json_limits \<Rightarrow> json result" where
  "parseJsonWithLimits parse text label lim =
     (let s = validateJsonTextLimits text label lim in
      if \<not> isOk s then errorResult s
      else case parse text of
        Inl what \<Rightarrow> err InvalidArgument (''failed to parse '' @ label @ '': '' @ what)
      | Inr v \<Rightarrow>
          let s = validateJsonValueLimits v label lim in
          if \<not> isOk s then errorResult s else Inr v)"

definition rejectUnknownJsonFields ::
  "json \<Rightarrow> string list \<Rightarrow> string \<Rightarrow> json_limits \<Rightarrow> status" where
  "rejectUnknownJsonFields v allowed label lim =
     (if \<not> rejectUnknownFields lim then okStatus
      else if \<not> is_object v then mkStatus InvalidArgument (label @ '' must be a JSON object'')
      else case find (\<lambda>k. k \<notin> set allowed) (map fst (jitems v)) of
        None \<Rightarrow> okStatus
      | Some k \<Rightarrow> mkStatus InvalidArgument (label @ '' contains unknown field: '' @ k))"

lemma rejectUnknown_ok:
  "is_object v \<Longrightarrow> fst ` set (jitems v) \<subseteq> set allowed \<Longrightarrow>
     isOk (rejectUnknownJsonFields v allowed label lim)"
proof -
  assume v: "is_object v" and keys: "fst ` set (jitems v) \<subseteq> set allowed"
  have "find (\<lambda>k. k \<notin> set allowed) (map fst (jitems v)) = None"
    using keys by (auto simp: find_None_iff)
  with v show ?thesis by (simp add: rejectUnknownJsonFields_def)
qed

section \<open>What a text preserves\<close>

fun renumber :: "json \<Rightarrow> json" where
  "renumber (JInt w) = (if 0 \<le> sint w then JUint w else JInt w)"
| "renumber (JArr xs) = JArr (map renumber xs)"
| "renumber (JObj m) = JObj (map (\<lambda>(k, v). (k, renumber v)) m)"
| "renumber v = v"

definition rereads :: "(json \<Rightarrow> string) \<Rightarrow> json_parser \<Rightarrow> json \<Rightarrow> bool" where
  "rereads dump parse v \<longleftrightarrow> parse (dump v) = Inr (renumber v)"

text \<open>A document fits when neither the scan nor the check of the value refuses it.\<close>

definition document_fits :: "(json \<Rightarrow> string) \<Rightarrow> json_parser \<Rightarrow> string \<Rightarrow> json_limits \<Rightarrow> json \<Rightarrow> bool" where
  "document_fits dump parse label lim v \<longleftrightarrow>
     rereads dump parse v \<and> isOk (validateJsonTextLimits (dump v) label lim) \<and>
     isOk (validateJsonValueLimits v label lim)"

lemma is_object_renumber [simp]: "is_object (renumber v) = is_object v"
  by (cases v) auto

lemma is_array_renumber [simp]: "is_array (renumber v) = is_array v"
  by (cases v) auto

lemma is_string_renumber [simp]: "is_string (renumber v) = is_string v"
  by (cases v) auto

lemma is_null_renumber [simp]: "is_null (renumber v) = is_null v"
  by (cases v) auto

lemma jempty_renumber [simp]: "jempty (renumber v) = jempty v"
  by (cases v) auto

lemma jitems_renumber: "jitems (renumber v) = map (\<lambda>(k, v). (k, renumber v)) (jitems v)"
  by (cases v) auto

lemma jelems_renumber [simp]: "jelems (renumber v) = map renumber (jelems v)"
  by (cases v) auto

lemma map_of_map_snd: "map_of (map (\<lambda>(k, v). (k, f v)) m) k = map_option f (map_of m k)"
  by (induction m) auto

lemma jget_renumber: "jget (renumber v) k = map_option renumber (jget v k)"
  by (simp add: jget_def jitems_renumber map_of_map_snd)

lemma jhas_renumber [simp]: "jhas (renumber v) k = jhas v k"
  by (simp add: jhas_def jget_renumber)

lemma jat_renumber: "jat (renumber v) k = renumber (jat v k)"
  by (simp add: jat_def jget_renumber split: option.splits)

lemma renumber_keys [simp]: "fst ` set (jitems (renumber v)) = fst ` set (jitems v)"
  by (force simp: jitems_renumber)

lemma renumber_nodes [simp]: "json_nodes (renumber v) = json_nodes v"
  by (induction v rule: renumber.induct)
    (auto simp: comp_def split_beta intro!: arg_cong [where f = sum_list] map_cong)

lemma renumber_within [simp]: "json_within lim (renumber v) = json_within lim v"
  by (induction v rule: renumber.induct) (auto simp: split_beta)

lemma renumber_limits [simp]:
  "isOk (validateJsonValueLimits (renumber v) label lim) = isOk (validateJsonValueLimits v label lim)"
  by (simp add: validateJsonValueLimits_ok)

lemma state_ok_renumber [simp]: "state_ok (renumber v) = state_ok v"
  by (simp add: state_ok_def)

lemma renumber_idem [simp]: "renumber (renumber v) = renumber v"
  by (induction v rule: renumber.induct) auto

lemma parse_dump:
  "document_fits dump parse label lim v \<Longrightarrow>
     parseJsonWithLimits parse (dump v) label lim = Inr (renumber v)"
  by (simp add: parseJsonWithLimits_def document_fits_def rereads_def Let_def)

end
