(* ===== verification/Checkpoint_Codec.thy ===== *)
theory Checkpoint_Codec
  imports Json_Text Checkpoints Message
begin

text \<open>
  The checkpoint codec: \<^verbatim>\<open>JsonCheckpointCodec\<close>
  (\<^verbatim>\<open>src/src/foundation/serialization/json_checkpoint_codec.cpp\<close>), the conversions of tasks and
  writes it shares with others (\<^verbatim>\<open>state_codec_common.cpp\<close>), the content types
  (\<^verbatim>\<open>state_codec.cpp\<close>) and the schema version (\<^verbatim>\<open>versioning.cpp\<close>).  Decoding what encoding
  wrote gives the checkpoint back, with its times cut to milliseconds and its numbers as the
  parser reads them.
\<close>

section \<open>Payloads and versions\<close>

record payload =
  pl_contentType :: string
  pl_data :: string

definition kCheckpointJsonContentType :: string where
  "kCheckpointJsonContentType = ''application/vnd.langgraph-cpp.checkpoint+json''"

definition kCheckpointWriteJsonContentType :: string where
  "kCheckpointWriteJsonContentType = ''application/vnd.langgraph-cpp.checkpoint-write+json''"

definition isCheckpointPayload :: "string \<Rightarrow> bool" where
  "isCheckpointPayload contentType \<longleftrightarrow> contentType = kCheckpointJsonContentType"

definition isCheckpointWritePayload :: "string \<Rightarrow> bool" where
  "isCheckpointWritePayload contentType \<longleftrightarrow> contentType = kCheckpointWriteJsonContentType"

record version_policy =
  vp_name :: string
  vp_minSupported :: "32 word"
  vp_current :: "32 word"

definition kCheckpointSchemaVersion :: "32 word" where
  "kCheckpointSchemaVersion = 3"

definition checkpointSchemaVersionPolicy :: version_policy where
  "checkpointSchemaVersionPolicy = \<lparr>vp_name = ''checkpoint_schema'', vp_minSupported = 1,
     vp_current = kCheckpointSchemaVersion\<rparr>"

definition requireSupportedVersion :: "32 word \<Rightarrow> version_policy \<Rightarrow> status" where
  "requireSupportedVersion version policy =
     (if version < vp_minSupported policy
      then mkStatus FailedPrecondition (vp_name policy @ '' version is too old'')
      else if version > vp_current policy
      then mkStatus Unimplemented
        (vp_name policy @ '' version is newer than this runtime supports'')
      else okStatus)"

definition requireCheckpointSchemaVersion :: "32 word \<Rightarrow> status" where
  "requireCheckpointSchemaVersion version =
     requireSupportedVersion version checkpointSchemaVersionPolicy"

definition checkpointSchemaVersionFromJson :: "json \<Rightarrow> 32 word result" where
  "checkpointSchemaVersionFromJson v =
     (if \<not> jhas v ''schema_version'' then Inr kCheckpointSchemaVersion
      else if \<not> is_number_unsigned (jat v ''schema_version'')
      then err InvalidArgument ''checkpoint schema_version must be unsigned integer''
      else let n = unat (bits_of (jat v ''schema_version'')) in
      if n > 2 ^ 32 - 1
      then err ResourceExhausted ''checkpoint schema_version is too large''
      else Inr (of_nat n))"

text \<open>Times: a cast to milliseconds truncates towards zero.\<close>

definition toUnixMs :: "int \<Rightarrow> int" where
  "toUnixMs t = (if 0 \<le> t then t div 1000000 else - (- t div 1000000))"

definition fromUnixMs :: "int \<Rightarrow> int" where
  "fromUnixMs ms = ms * 1000000"

section \<open>Checks\<close>

text \<open>The checks of the fields of a task; the prefix of the messages names the list it is in.\<close>

definition checkTask :: "string \<Rightarrow> CheckpointTask \<Rightarrow> unit result" where
  "checkTask label t =
     (if ct_nodeId t = [] then err InvalidArgument (label @ '' node_id cannot be empty'')
      else if \<not> is_array (ct_interrupts t)
      then err InvalidArgument (label @ '' interrupts must be an array'')
      else if \<not> is_object (ct_metadata t)
      then err InvalidArgument (label @ '' metadata must be an object'')
      else Inr ())"

definition validateCheckpointWrite :: "CheckpointWrite \<Rightarrow> string \<Rightarrow> unit result" where
  "validateCheckpointWrite w label =
     (if cw_nodeId w = [] then err InvalidArgument (label @ '' node_id cannot be empty'')
      else if \<not> is_object (cw_metadata w)
      then err InvalidArgument (label @ '' metadata must be an object'')
      else foldM_result (\<lambda>_ t. checkTask (label @ '' task'') t) () (cw_nextTasks w))"

definition validateCheckpoint :: "Checkpoint \<Rightarrow> unit result" where
  "validateCheckpoint c =
     (if cp_threadId c = [] then err InvalidArgument ''checkpoint thread_id cannot be empty''
      else if cp_checkpointId c = []
      then err InvalidArgument ''checkpoint checkpoint_id cannot be empty''
      else if [] \<in> set (cp_nextNodes c)
      then err InvalidArgument ''checkpoint next node cannot be empty''
      else rbind (foldM_result (\<lambda>_ t. checkTask ''checkpoint task'' t) () (cp_nextTasks c)) (\<lambda>_.
      rbind (foldM_result (\<lambda>_ w. validateCheckpointWrite w ''checkpoint write'') () (cp_writes c)) (\<lambda>_.
      rbind (foldM_result (\<lambda>_ w. validateCheckpointWrite w ''checkpoint pending write'') ()
               (cp_pendingWrites c)) (\<lambda>_.
      if \<not> is_object (cp_metadata c)
      then err InvalidArgument ''checkpoint metadata must be an object''
      else if \<not> is_object (cp_channelVersions c)
      then err InvalidArgument ''checkpoint channel_versions must be an object''
      else if \<not> is_object (cp_versionsSeen c)
      then err InvalidArgument ''checkpoint versions_seen must be an object''
      else Inr ()))))"

section \<open>To JSON\<close>

definition taskToJson :: "CheckpointTask \<Rightarrow> json" where
  "taskToJson t =
     (let v = obj [(''node_id'', JStr (ct_nodeId t))];
          v = jputIf (ct_taskId t \<noteq> []) ''task_id'' (JStr (ct_taskId t)) v;
          v = jputIf (ct_ns t \<noteq> []) ''checkpoint_ns'' (JStr (ct_ns t)) v;
          v = jputOpt ''order'' JUint (ct_order t) v;
          v = jputOpt ''error'' JStr (ct_error t) v;
          v = jputIf (\<not> jempty (ct_interrupts t)) ''interrupts'' (ct_interrupts t) v;
          v = jputIf (\<not> jempty (ct_metadata t)) ''metadata'' (ct_metadata t) v in
      jput v ''state'' (case ct_state t of None \<Rightarrow> JNull | Some s \<Rightarrow> s))"

definition writeToJson :: "CheckpointWrite \<Rightarrow> json" where
  "writeToJson w =
     (let nextTasks = map taskToJson (cw_nextTasks w);
          v = obj [(''node_id'', JStr (cw_nodeId w)), (''update'', cw_update w),
                   (''has_next_tasks'', JBool (cw_hasNextTasks w))];
          v = jputIf (cw_taskId w \<noteq> []) ''task_id'' (JStr (cw_taskId w)) v;
          v = jputIf (cw_taskPath w \<noteq> []) ''task_path'' (JStr (cw_taskPath w)) v;
          v = jputIf (cw_ns w \<noteq> []) ''checkpoint_ns'' (JStr (cw_ns w)) v;
          v = jputOpt ''order'' JUint (cw_order w) v;
          v = jputIf (\<not> jempty (cw_metadata w)) ''metadata'' (cw_metadata w) v in
      jputIf (cw_hasNextTasks w \<or> nextTasks \<noteq> []) ''next_tasks'' (JArr nextTasks) v)"

definition checkpointToJson :: "Checkpoint \<Rightarrow> json" where
  "checkpointToJson c = obj
     [(''schema_version'', JUint (ucast kCheckpointSchemaVersion)),
      (''thread_id'', JStr (cp_threadId c)),
      (''checkpoint_id'', JStr (cp_checkpointId c)),
      (''checkpoint_ns'', JStr (cp_ns c)),
      (''parent_checkpoint_id'', (case cp_parent c of None \<Rightarrow> JNull | Some p \<Rightarrow> JStr p)),
      (''step'', JUint (cp_step c)),
      (''state'', cp_state c),
      (''next_nodes'', JArr (map JStr (cp_nextNodes c))),
      (''next_tasks'', JArr (map taskToJson (cp_nextTasks c))),
      (''writes'', JArr (map writeToJson (cp_writes c))),
      (''pending_writes'', JArr (map writeToJson (cp_pendingWrites c))),
      (''channel_versions'', cp_channelVersions c),
      (''versions_seen'', cp_versionsSeen c),
      (''updated_channels'', JArr (map JStr (cp_updatedChannels c))),
      (''metadata'', cp_metadata c),
      (''created_at_ms'', JInt (of_int (toUnixMs (cp_createdAt c))))]"

section \<open>From JSON\<close>

definition requiredString :: "json \<Rightarrow> string \<Rightarrow> string result" where
  "requiredString v key =
     (if \<not> jhas v key \<or> \<not> is_string (jat v key)
      then err InvalidArgument (''checkpoint field is required string: '' @ key)
      else Inr (str_of (jat v key)))"

definition stateFromJsonValue :: "json \<Rightarrow> string \<Rightarrow> json result" where
  "stateFromJsonValue v key =
     (if \<not> is_object v then err InvalidArgument (''checkpoint field must be JSON object: '' @ key)
      else State_fromJsonValue v)"

text \<open>An optional field of a kind, and an optional array whose entries are read one by one.\<close>

definition fieldOr :: "json \<Rightarrow> string \<Rightarrow> (json \<Rightarrow> bool) \<Rightarrow> string \<Rightarrow> (json \<Rightarrow> 'a) \<Rightarrow> 'a \<Rightarrow> 'a result" where
  "fieldOr v key kind message get dflt =
     (if \<not> jhas v key then Inr dflt
      else if \<not> kind (jat v key) then err InvalidArgument message
      else Inr (get (jat v key)))"

definition arrayOr :: "json \<Rightarrow> string \<Rightarrow> string \<Rightarrow> (json \<Rightarrow> 'a result) \<Rightarrow> 'a list result" where
  "arrayOr v key message read =
     (if \<not> jhas v key then Inr []
      else if \<not> is_array (jat v key) then err InvalidArgument message
      else mapM_result read (jelems (jat v key)))"

definition stringEntry :: "string \<Rightarrow> json \<Rightarrow> string result" where
  "stringEntry message v = (if is_string v then Inr (str_of v) else err InvalidArgument message)"

definition boolOf :: "json \<Rightarrow> bool" where
  "boolOf v = (v = JBool True)"

definition is_boolean :: "json \<Rightarrow> bool" where
  "is_boolean v \<longleftrightarrow> (case v of JBool _ \<Rightarrow> True | _ \<Rightarrow> False)"

definition knownFields :: "json \<Rightarrow> string list \<Rightarrow> string \<Rightarrow> json_limits \<Rightarrow> unit result" where
  "knownFields v allowed label lim =
     (let s = rejectUnknownJsonFields v allowed label lim in
      if isOk s then Inr () else errorResult s)"

definition taskFields :: "string list" where
  "taskFields = [''task_id'', ''node_id'', ''checkpoint_ns'', ''state'', ''order'', ''error'',
     ''interrupts'', ''metadata'']"

definition taskFromJson :: "json_limits \<Rightarrow> json \<Rightarrow> CheckpointTask result" where
  "taskFromJson lim v =
     (if \<not> is_object v then err InvalidArgument ''checkpoint task entries must be object''
      else rbind (knownFields v taskFields ''checkpoint task'' lim) (\<lambda>_.
      rbind (requiredString v ''node_id'') (\<lambda>nodeId.
      rbind (fieldOr v ''task_id'' is_string ''checkpoint task task_id must be string'' str_of []) (\<lambda>taskId.
      rbind (fieldOr v ''checkpoint_ns'' is_string ''checkpoint task checkpoint_ns must be string''
               str_of []) (\<lambda>ns.
      rbind (fieldOr v ''order'' is_number_unsigned ''checkpoint task order must be unsigned integer''
               (\<lambda>x. Some (bits_of x)) None) (\<lambda>order.
      rbind (fieldOr v ''error'' is_string ''checkpoint task error must be string''
               (\<lambda>x. Some (str_of x)) None) (\<lambda>error.
      rbind (fieldOr v ''interrupts'' is_array ''checkpoint task interrupts must be array''
               (\<lambda>x. x) (JArr [])) (\<lambda>interrupts.
      rbind (fieldOr v ''metadata'' is_object ''checkpoint task metadata must be object''
               (\<lambda>x. x) (JObj [])) (\<lambda>metadata.
      rbind (if jhas v ''state'' \<and> \<not> is_null (jat v ''state'')
             then rbind (stateFromJsonValue (jat v ''state'') ''state'') (\<lambda>s. Inr (Some s))
             else Inr None) (\<lambda>state.
      Inr \<lparr>ct_taskId = taskId, ct_nodeId = nodeId, ct_ns = ns, ct_state = state, ct_order = order,
           ct_error = error, ct_interrupts = interrupts, ct_metadata = metadata\<rparr>))))))))))"

definition writeFields :: "string list" where
  "writeFields = [''task_id'', ''task_path'', ''node_id'', ''checkpoint_ns'', ''update'', ''order'',
     ''has_next_tasks'', ''next_tasks'', ''metadata'']"

definition writeFromJson :: "json_limits \<Rightarrow> json \<Rightarrow> CheckpointWrite result" where
  "writeFromJson lim v =
     (if \<not> is_object v then err InvalidArgument ''checkpoint writes entries must be object''
      else rbind (knownFields v writeFields ''checkpoint write'' lim) (\<lambda>_.
      rbind (requiredString v ''node_id'') (\<lambda>nodeId.
      if \<not> jhas v ''update'' then err InvalidArgument ''checkpoint write update is required''
      else rbind (stateFromJsonValue (jat v ''update'') ''update'') (\<lambda>update.
      rbind (fieldOr v ''task_id'' is_string ''checkpoint write task_id must be string'' str_of []) (\<lambda>taskId.
      rbind (fieldOr v ''task_path'' is_string ''checkpoint write task_path must be string''
               str_of []) (\<lambda>taskPath.
      rbind (fieldOr v ''checkpoint_ns'' is_string ''checkpoint write checkpoint_ns must be string''
               str_of []) (\<lambda>ns.
      rbind (fieldOr v ''order'' is_number_unsigned ''checkpoint write order must be unsigned integer''
               (\<lambda>x. Some (bits_of x)) None) (\<lambda>order.
      rbind (fieldOr v ''metadata'' is_object ''checkpoint write metadata must be object''
               (\<lambda>x. x) (JObj [])) (\<lambda>metadata.
      rbind (fieldOr v ''has_next_tasks'' is_boolean ''checkpoint write has_next_tasks must be boolean''
               boolOf False) (\<lambda>hasNextTasks.
      rbind (arrayOr v ''next_tasks'' ''checkpoint write next_tasks must be array''
               (taskFromJson lim)) (\<lambda>nextTasks.
      Inr \<lparr>cw_taskId = taskId, cw_taskPath = taskPath, cw_nodeId = nodeId, cw_ns = ns,
           cw_update = update, cw_order = order,
           cw_hasNextTasks = (jhas v ''next_tasks'' \<or> hasNextTasks), cw_nextTasks = nextTasks,
           cw_metadata = metadata\<rparr>)))))))))))"

definition checkpointFields :: "string list" where
  "checkpointFields = [''schema_version'', ''thread_id'', ''checkpoint_id'', ''checkpoint_ns'',
     ''parent_checkpoint_id'', ''step'', ''state'', ''next_nodes'', ''next_tasks'', ''writes'',
     ''pending_writes'', ''channel_versions'', ''versions_seen'', ''updated_channels'',
     ''metadata'', ''created_at_ms'']"

text \<open>The lists of a checkpoint, and its other optional fields.\<close>

definition checkpointLists ::
  "json_limits \<Rightarrow> json \<Rightarrow>
   (string list \<times> CheckpointTask list \<times> CheckpointWrite list \<times> CheckpointWrite list) result" where
  "checkpointLists lim v =
     rbind (arrayOr v ''next_nodes'' ''checkpoint next_nodes must be array''
              (stringEntry ''checkpoint next_nodes entries must be string'')) (\<lambda>nextNodes.
     rbind (arrayOr v ''next_tasks'' ''checkpoint next_tasks must be array''
              (taskFromJson lim)) (\<lambda>nextTasks.
     rbind (arrayOr v ''writes'' ''checkpoint writes must be array'' (writeFromJson lim)) (\<lambda>writes.
     rbind (arrayOr v ''pending_writes'' ''checkpoint pending_writes must be array''
              (writeFromJson lim)) (\<lambda>pendingWrites.
     Inr (nextNodes, nextTasks, writes, pendingWrites)))))"

definition parentOf :: "json \<Rightarrow> string option result" where
  "parentOf v =
     (if jhas v ''parent_checkpoint_id'' \<and> \<not> is_null (jat v ''parent_checkpoint_id'')
      then if \<not> is_string (jat v ''parent_checkpoint_id'')
        then err InvalidArgument ''checkpoint parent_checkpoint_id must be string or null''
        else Inr (Some (str_of (jat v ''parent_checkpoint_id'')))
      else Inr None)"

definition checkpointFromJson :: "json_limits \<Rightarrow> json \<Rightarrow> Checkpoint result" where
  "checkpointFromJson lim v =
     rbind (knownFields v checkpointFields ''checkpoint'' lim) (\<lambda>_.
     rbind (checkpointSchemaVersionFromJson v) (\<lambda>version.
     if \<not> isOk (requireCheckpointSchemaVersion version)
     then errorResult (requireCheckpointSchemaVersion version)
     else rbind (requiredString v ''thread_id'') (\<lambda>threadId.
     rbind (requiredString v ''checkpoint_id'') (\<lambda>checkpointId.
     if \<not> jhas v ''step'' \<or> \<not> is_number_unsigned (jat v ''step'')
     then err InvalidArgument ''checkpoint field is required unsigned integer: step''
     else if \<not> jhas v ''state''
     then err InvalidArgument ''checkpoint field is required object: state''
     else rbind (stateFromJsonValue (jat v ''state'') ''state'') (\<lambda>state.
     rbind (fieldOr v ''checkpoint_ns'' is_string ''checkpoint checkpoint_ns must be string''
              str_of []) (\<lambda>ns.
     rbind (parentOf v) (\<lambda>parent.
     rbind (checkpointLists lim v) (\<lambda>(nextNodes, nextTasks, writes, pendingWrites).
     rbind (fieldOr v ''created_at_ms'' is_number_integer ''checkpoint created_at_ms must be integer''
              (\<lambda>x. fromUnixMs (sint (bits_of x))) 0) (\<lambda>createdAt.
     rbind (fieldOr v ''channel_versions'' is_object ''checkpoint channel_versions must be object''
              (\<lambda>x. x) (JObj [])) (\<lambda>channelVersions.
     rbind (fieldOr v ''versions_seen'' is_object ''checkpoint versions_seen must be object''
              (\<lambda>x. x) (JObj [])) (\<lambda>versionsSeen.
     rbind (arrayOr v ''updated_channels'' ''checkpoint updated_channels must be array''
              (stringEntry ''checkpoint updated_channels entries must be string'')) (\<lambda>updatedChannels.
     rbind (fieldOr v ''metadata'' is_object ''checkpoint metadata must be object''
              (\<lambda>x. x) (JObj [])) (\<lambda>metadata.
     let c = \<lparr>cp_threadId = threadId, cp_checkpointId = checkpointId, cp_ns = ns, cp_parent = parent,
              cp_step = bits_of (jat v ''step''), cp_state = state, cp_nextNodes = nextNodes,
              cp_nextTasks = nextTasks, cp_writes = writes, cp_pendingWrites = pendingWrites,
              cp_channelVersions = channelVersions, cp_versionsSeen = versionsSeen,
              cp_updatedChannels = updatedChannels, cp_metadata = metadata,
              cp_createdAt = createdAt\<rparr> in
     rbind (validateCheckpoint c) (\<lambda>_. Inr c))))))))))))))"

section \<open>The codec\<close>

definition parseJsonObject ::
  "json_parser \<Rightarrow> string \<Rightarrow> string \<Rightarrow> json_limits \<Rightarrow> json result" where
  "parseJsonObject parse text label lim =
     rbind (parseJsonWithLimits parse text label lim) (\<lambda>v.
     if \<not> is_object v then err InvalidArgument (label @ '' must be a JSON object'') else Inr v)"

definition JsonCheckpointCodec_encode :: "(json \<Rightarrow> string) \<Rightarrow> Checkpoint \<Rightarrow> payload result" where
  "JsonCheckpointCodec_encode dump c =
     rbind (validateCheckpoint c) (\<lambda>_.
     Inr \<lparr>pl_contentType = kCheckpointJsonContentType, pl_data = dump (checkpointToJson c)\<rparr>)"

definition JsonCheckpointCodec_decode ::
  "json_parser \<Rightarrow> json_limits \<Rightarrow> payload \<Rightarrow> Checkpoint result" where
  "JsonCheckpointCodec_decode parse lim p =
     (if \<not> isCheckpointPayload (pl_contentType p)
      then err InvalidArgument ''payload content type must be checkpoint json''
      else rbind (parseJsonObject parse (pl_data p) ''checkpoint'' lim) (checkpointFromJson lim))"

definition JsonCheckpointCodec_encodeWrite :: "(json \<Rightarrow> string) \<Rightarrow> CheckpointWrite \<Rightarrow> payload result" where
  "JsonCheckpointCodec_encodeWrite dump w =
     rbind (validateCheckpointWrite w ''checkpoint write'') (\<lambda>_.
     Inr \<lparr>pl_contentType = kCheckpointWriteJsonContentType, pl_data = dump (writeToJson w)\<rparr>)"

definition JsonCheckpointCodec_decodeWrite ::
  "json_parser \<Rightarrow> json_limits \<Rightarrow> payload \<Rightarrow> CheckpointWrite result" where
  "JsonCheckpointCodec_decodeWrite parse lim p =
     (if \<not> isCheckpointWritePayload (pl_contentType p)
      then err InvalidArgument ''payload content type must be checkpoint write json''
      else rbind (parseJsonObject parse (pl_data p) ''checkpoint write'' lim) (\<lambda>v.
        rbind (writeFromJson lim v) (\<lambda>w.
        rbind (validateCheckpointWrite w ''checkpoint write'') (\<lambda>_. Inr w))))"

section \<open>Round trips\<close>

text \<open>The value a record has after it went through a text.\<close>

definition rereadTask :: "CheckpointTask \<Rightarrow> CheckpointTask" where
  "rereadTask t = t\<lparr>ct_state := map_option renumber (ct_state t),
     ct_interrupts := renumber (ct_interrupts t), ct_metadata := renumber (ct_metadata t)\<rparr>"

definition rereadWrite :: "CheckpointWrite \<Rightarrow> CheckpointWrite" where
  "rereadWrite w = w\<lparr>cw_update := renumber (cw_update w),
     cw_hasNextTasks := (cw_hasNextTasks w \<or> cw_nextTasks w \<noteq> []),
     cw_nextTasks := map rereadTask (cw_nextTasks w), cw_metadata := renumber (cw_metadata w)\<rparr>"

definition rereadCheckpoint :: "Checkpoint \<Rightarrow> Checkpoint" where
  "rereadCheckpoint c = c\<lparr>cp_state := renumber (cp_state c),
     cp_nextTasks := map rereadTask (cp_nextTasks c), cp_writes := map rereadWrite (cp_writes c),
     cp_pendingWrites := map rereadWrite (cp_pendingWrites c),
     cp_channelVersions := renumber (cp_channelVersions c),
     cp_versionsSeen := renumber (cp_versionsSeen c), cp_metadata := renumber (cp_metadata c),
     cp_createdAt := fromUnixMs (toUnixMs (cp_createdAt c))\<rparr>"

text \<open>The states of a checkpoint are states, and its time is a 64-bit count.\<close>

definition task_states_ok :: "CheckpointTask \<Rightarrow> bool" where
  "task_states_ok t \<longleftrightarrow> (case ct_state t of None \<Rightarrow> True | Some s \<Rightarrow> state_ok s)"

definition write_states_ok :: "CheckpointWrite \<Rightarrow> bool" where
  "write_states_ok w \<longleftrightarrow> state_ok (cw_update w) \<and> (\<forall>t \<in> set (cw_nextTasks w). task_states_ok t)"

definition checkpoint_typed :: "Checkpoint \<Rightarrow> bool" where
  "checkpoint_typed c \<longleftrightarrow> state_ok (cp_state c) \<and> (\<forall>t \<in> set (cp_nextTasks c). task_states_ok t) \<and>
     (\<forall>w \<in> set (cp_writes c). write_states_ok w) \<and>
     (\<forall>w \<in> set (cp_pendingWrites c). write_states_ok w) \<and>
     - (2 ^ 63) \<le> cp_createdAt c \<and> cp_createdAt c < 2 ^ 63"

lemma fieldOr_jget:
  "fieldOr v key kind message get dflt =
     (case jget v key of None \<Rightarrow> Inr dflt
      | Some x \<Rightarrow> if kind x then Inr (get x) else err InvalidArgument message)"
  by (auto simp: fieldOr_def jhas_def jat_def split: option.splits)

lemma arrayOr_jget:
  "arrayOr v key message read =
     (case jget v key of None \<Rightarrow> Inr []
      | Some x \<Rightarrow> if is_array x then mapM_result read (jelems x) else err InvalidArgument message)"
  by (auto simp: arrayOr_def jhas_def jat_def split: option.splits)

lemma requiredString_jget:
  "requiredString v key =
     (case jget v key of Some (JStr s) \<Rightarrow> Inr s
      | _ \<Rightarrow> err InvalidArgument (''checkpoint field is required string: '' @ key))"
  by (auto simp: requiredString_def jhas_def jat_def split: option.splits json.splits)

lemma knownFields_ok:
  assumes "is_object v" and "\<And>k. jhas v k \<Longrightarrow> k \<in> set allowed"
  shows "knownFields v allowed label lim = Inr ()"
proof -
  have "fst ` set (jitems v) \<subseteq> set allowed"
    using assms(2) by (force simp: jhas_def jget_def map_of_eq_None_iff)
  with assms(1) show ?thesis by (simp add: knownFields_def rejectUnknown_ok)
qed

lemma checkTask_ok:
  "checkTask label t = Inr u \<longleftrightarrow>
     ct_nodeId t \<noteq> [] \<and> is_array (ct_interrupts t) \<and> is_object (ct_metadata t)"
  by (auto simp: checkTask_def)

lemma foldM_unit_ok: "foldM_result (\<lambda>_ x. f x) () xs = Inr u \<longleftrightarrow> (\<forall>x \<in> set xs. f x = Inr ())"
  by (induction xs) (auto simp: result_simps)

lemma jempty_array: "is_array v \<Longrightarrow> jempty v \<Longrightarrow> v = JArr []"
  by (cases v) auto

lemma stateFromJsonValue_ok:
  "state_ok v \<Longrightarrow> stateFromJsonValue (renumber v) key = Inr (renumber v)"
  by (simp add: stateFromJsonValue_def State_fromJsonValue_Inr state_ok_object)

lemma state_ok_not_null [simp]: "state_ok v \<Longrightarrow> \<not> is_null v"
  by (cases v) (auto simp: state_ok_def)

lemma jget_taskToJson:
  "jget (taskToJson t) ''task_id'' = (if ct_taskId t \<noteq> [] then Some (JStr (ct_taskId t)) else None)"
  "jget (taskToJson t) ''node_id'' = Some (JStr (ct_nodeId t))"
  "jget (taskToJson t) ''checkpoint_ns'' = (if ct_ns t \<noteq> [] then Some (JStr (ct_ns t)) else None)"
  "jget (taskToJson t) ''order'' = map_option JUint (ct_order t)"
  "jget (taskToJson t) ''error'' = map_option JStr (ct_error t)"
  "jget (taskToJson t) ''interrupts'' =
     (if jempty (ct_interrupts t) then None else Some (ct_interrupts t))"
  "jget (taskToJson t) ''metadata'' =
     (if jempty (ct_metadata t) then None else Some (ct_metadata t))"
  "jget (taskToJson t) ''state'' = Some (case ct_state t of None \<Rightarrow> JNull | Some s \<Rightarrow> s)"
  by (simp_all add: taskToJson_def Let_def jget_obj)

lemma taskToJson_object [simp]: "is_object (taskToJson t)"
  by (simp add: taskToJson_def Let_def)

lemma taskToJson_keys: "jhas (taskToJson t) k \<Longrightarrow> k \<in> set taskFields"
  by (auto simp: taskToJson_def Let_def jhas_def jget_obj taskFields_def split: if_splits)

lemma task_roundtrip:
  assumes "checkTask label t = Inr u" and "task_states_ok t"
  shows "taskFromJson lim (renumber (taskToJson t)) = Inr (rereadTask t)"
proof -
  have kinds: "is_array (ct_interrupts t)" "is_object (ct_metadata t)"
    using assms(1) by (simp_all add: checkTask_ok)
  have known: "knownFields (renumber (taskToJson t)) taskFields ''checkpoint task'' lim = Inr ()"
    by (rule knownFields_ok) (simp_all add: taskToJson_keys)
  have state: "(if jhas (renumber (taskToJson t)) ''state'' \<and> \<not> is_null (jat (renumber (taskToJson t)) ''state'')
      then rbind (stateFromJsonValue (jat (renumber (taskToJson t)) ''state'') ''state'') (\<lambda>s. Inr (Some s))
      else Inr None) = Inr (map_option renumber (ct_state t))"
    using assms(2) stateFromJsonValue_ok [of _ "''state''"]
    by (cases "ct_state t")
      (auto simp: jhas_def jat_def jget_renumber jget_taskToJson task_states_ok_def)
  show ?thesis
    using kinds jempty_array [of "ct_interrupts t"] jempty_object [of "ct_metadata t"]
    unfolding taskFromJson_def state known
    by (cases "ct_order t"; cases "ct_error t")
      (auto simp: requiredString_jget fieldOr_jget jget_renumber jget_taskToJson rereadTask_def)
qed

lemma jget_writeToJson:
  "jget (writeToJson w) ''task_id'' = (if cw_taskId w \<noteq> [] then Some (JStr (cw_taskId w)) else None)"
  "jget (writeToJson w) ''task_path'' =
     (if cw_taskPath w \<noteq> [] then Some (JStr (cw_taskPath w)) else None)"
  "jget (writeToJson w) ''node_id'' = Some (JStr (cw_nodeId w))"
  "jget (writeToJson w) ''checkpoint_ns'' = (if cw_ns w \<noteq> [] then Some (JStr (cw_ns w)) else None)"
  "jget (writeToJson w) ''update'' = Some (cw_update w)"
  "jget (writeToJson w) ''order'' = map_option JUint (cw_order w)"
  "jget (writeToJson w) ''has_next_tasks'' = Some (JBool (cw_hasNextTasks w))"
  "jget (writeToJson w) ''next_tasks'' =
     (if cw_hasNextTasks w \<or> cw_nextTasks w \<noteq> [] then Some (JArr (map taskToJson (cw_nextTasks w)))
      else None)"
  "jget (writeToJson w) ''metadata'' =
     (if jempty (cw_metadata w) then None else Some (cw_metadata w))"
  by (simp_all add: writeToJson_def Let_def jget_obj)

lemma writeToJson_object [simp]: "is_object (writeToJson w)"
  by (simp add: writeToJson_def Let_def)

lemma writeToJson_keys: "jhas (writeToJson w) k \<Longrightarrow> k \<in> set writeFields"
  by (auto simp: writeToJson_def Let_def jhas_def jget_obj writeFields_def split: if_splits)

lemma tasks_roundtrip:
  assumes "\<forall>t \<in> set ts. checkTask label t = Inr () \<and> task_states_ok t"
  shows "mapM_result (taskFromJson lim) (map renumber (map taskToJson ts)) = Inr (map rereadTask ts)"
  using assms task_roundtrip [of label] by (induction ts) auto

lemma write_roundtrip:
  assumes "validateCheckpointWrite w label = Inr u" and "write_states_ok w"
  shows "writeFromJson lim (renumber (writeToJson w)) = Inr (rereadWrite w)"
proof -
  have meta: "is_object (cw_metadata w)"
    and tasks: "\<forall>t \<in> set (cw_nextTasks w). checkTask (label @ '' task'') t = Inr () \<and> task_states_ok t"
    using assms by (auto simp: validateCheckpointWrite_def foldM_unit_ok write_states_ok_def split: if_splits)
  have known: "knownFields (renumber (writeToJson w)) writeFields ''checkpoint write'' lim = Inr ()"
    by (rule knownFields_ok) (simp_all add: writeToJson_keys)
  have update: "stateFromJsonValue (jat (renumber (writeToJson w)) ''update'') ''update'' =
      Inr (renumber (cw_update w))"
    using assms(2) by (simp add: jat_def jget_renumber jget_writeToJson write_states_ok_def
        stateFromJsonValue_ok)
  have next_tasks: "arrayOr (renumber (writeToJson w)) ''next_tasks'' m (taskFromJson lim) =
      Inr (map rereadTask (cw_nextTasks w))" for m
    using tasks_roundtrip [OF tasks, of lim]
    by (auto simp: arrayOr_jget jget_renumber jget_writeToJson)
  show ?thesis
    using meta jempty_object [of "cw_metadata w"]
    unfolding writeFromJson_def known update next_tasks
    by (cases "cw_order w")
      (auto simp: requiredString_jget fieldOr_jget jget_renumber jget_writeToJson rereadWrite_def
        jhas_def is_boolean_def boolOf_def)
qed

lemma writes_roundtrip:
  assumes "\<forall>w \<in> set ws. validateCheckpointWrite w label = Inr () \<and> write_states_ok w"
  shows "mapM_result (writeFromJson lim) (map renumber (map writeToJson ws)) = Inr (map rereadWrite ws)"
  using assms write_roundtrip [of _ label] by (induction ws) auto

lemma strings_roundtrip:
  "mapM_result (stringEntry m) (map renumber (map JStr ss)) = Inr ss"
  by (induction ss) (simp_all add: stringEntry_def)

lemma jget_checkpointToJson:
  "jget (checkpointToJson c) ''schema_version'' = Some (JUint 3)"
  "jget (checkpointToJson c) ''thread_id'' = Some (JStr (cp_threadId c))"
  "jget (checkpointToJson c) ''checkpoint_id'' = Some (JStr (cp_checkpointId c))"
  "jget (checkpointToJson c) ''checkpoint_ns'' = Some (JStr (cp_ns c))"
  "jget (checkpointToJson c) ''parent_checkpoint_id'' =
     Some (case cp_parent c of None \<Rightarrow> JNull | Some p \<Rightarrow> JStr p)"
  "jget (checkpointToJson c) ''step'' = Some (JUint (cp_step c))"
  "jget (checkpointToJson c) ''state'' = Some (cp_state c)"
  "jget (checkpointToJson c) ''next_nodes'' = Some (JArr (map JStr (cp_nextNodes c)))"
  "jget (checkpointToJson c) ''next_tasks'' = Some (JArr (map taskToJson (cp_nextTasks c)))"
  "jget (checkpointToJson c) ''writes'' = Some (JArr (map writeToJson (cp_writes c)))"
  "jget (checkpointToJson c) ''pending_writes'' = Some (JArr (map writeToJson (cp_pendingWrites c)))"
  "jget (checkpointToJson c) ''channel_versions'' = Some (cp_channelVersions c)"
  "jget (checkpointToJson c) ''versions_seen'' = Some (cp_versionsSeen c)"
  "jget (checkpointToJson c) ''updated_channels'' = Some (JArr (map JStr (cp_updatedChannels c)))"
  "jget (checkpointToJson c) ''metadata'' = Some (cp_metadata c)"
  "jget (checkpointToJson c) ''created_at_ms'' =
     Some (JInt (of_int (toUnixMs (cp_createdAt c))))"
  by (simp_all add: checkpointToJson_def jget_obj kCheckpointSchemaVersion_def)

lemma checkpointToJson_object [simp]: "is_object (checkpointToJson c)"
  by (simp add: checkpointToJson_def)

lemma checkpointToJson_keys: "jhas (checkpointToJson c) k \<Longrightarrow> k \<in> set checkpointFields"
  by (auto simp: checkpointToJson_def jhas_def jget_obj checkpointFields_def split: if_splits)

lemma sint_of_int_ms:
  assumes "- (2 ^ 63) \<le> t" and "t < 2 ^ 63"
  shows "sint (of_int (toUnixMs t) :: 64 word) = toUnixMs t"
proof -
  have "- (2 ^ 63) \<le> toUnixMs t" "toUnixMs t < 2 ^ 63"
    using assms by (auto simp: toUnixMs_def)
  then show ?thesis by (simp add: sint_sbintrunc' signed_take_bit_int_eq_self)
qed

lemma validateCheckpoint_ok:
  "validateCheckpoint c = Inr u \<longleftrightarrow>
     cp_threadId c \<noteq> [] \<and> cp_checkpointId c \<noteq> [] \<and> [] \<notin> set (cp_nextNodes c) \<and>
     (\<forall>t \<in> set (cp_nextTasks c). checkTask ''checkpoint task'' t = Inr ()) \<and>
     (\<forall>w \<in> set (cp_writes c). validateCheckpointWrite w ''checkpoint write'' = Inr ()) \<and>
     (\<forall>w \<in> set (cp_pendingWrites c). validateCheckpointWrite w ''checkpoint pending write'' = Inr ()) \<and>
     is_object (cp_metadata c) \<and> is_object (cp_channelVersions c) \<and> is_object (cp_versionsSeen c)"
  by (auto simp: validateCheckpoint_def result_simps foldM_unit_ok)

lemma checkTask_reread [simp]: "checkTask label (rereadTask t) = checkTask label t"
  by (simp add: checkTask_def rereadTask_def)

lemma validateWrite_reread [simp]:
  "validateCheckpointWrite (rereadWrite w) label = Inr u \<longleftrightarrow> validateCheckpointWrite w label = Inr u"
  by (simp add: validateCheckpointWrite_def foldM_unit_ok) (simp add: rereadWrite_def)

lemma validateCheckpoint_reread:
  "validateCheckpoint (rereadCheckpoint c) = Inr u \<longleftrightarrow> validateCheckpoint c = Inr u"
  unfolding validateCheckpoint_ok by (simp add: rereadCheckpoint_def)

lemma lists_roundtrip:
  assumes "validateCheckpoint c = Inr ()" and "checkpoint_typed c"
  shows "checkpointLists lim (renumber (checkpointToJson c)) =
    Inr (cp_nextNodes c, map rereadTask (cp_nextTasks c), map rereadWrite (cp_writes c),
         map rereadWrite (cp_pendingWrites c))"
proof -
  have "\<forall>t \<in> set (cp_nextTasks c). checkTask ''checkpoint task'' t = Inr () \<and> task_states_ok t"
    and "\<forall>w \<in> set (cp_writes c). validateCheckpointWrite w ''checkpoint write'' = Inr () \<and> write_states_ok w"
    and "\<forall>w \<in> set (cp_pendingWrites c).
      validateCheckpointWrite w ''checkpoint pending write'' = Inr () \<and> write_states_ok w"
    using assms by (simp_all add: validateCheckpoint_ok checkpoint_typed_def)
  note tasks_roundtrip [OF this(1)] writes_roundtrip [OF this(2)] writes_roundtrip [OF this(3)]
  then show ?thesis
    using strings_roundtrip [of _ "cp_nextNodes c"]
    by (simp add: checkpointLists_def arrayOr_jget jget_renumber jget_checkpointToJson)
qed

lemma version_roundtrip:
  "checkpointSchemaVersionFromJson (renumber (checkpointToJson c)) = Inr 3 \<and>
   isOk (requireCheckpointSchemaVersion 3)"
  by (simp add: checkpointSchemaVersionFromJson_def jhas_def jat_def jget_renumber
      jget_checkpointToJson requireCheckpointSchemaVersion_def requireSupportedVersion_def
      checkpointSchemaVersionPolicy_def kCheckpointSchemaVersion_def)

lemma parent_roundtrip: "parentOf (renumber (checkpointToJson c)) = Inr (cp_parent c)"
  by (simp add: parentOf_def jhas_def jat_def jget_renumber jget_checkpointToJson
      split: option.splits)

lemma created_roundtrip:
  assumes "checkpoint_typed c"
  shows "fieldOr (renumber (checkpointToJson c)) ''created_at_ms'' is_number_integer m
      (\<lambda>x. fromUnixMs (sint (bits_of x))) 0 = Inr (fromUnixMs (toUnixMs (cp_createdAt c)))"
  using assms sint_of_int_ms [of "cp_createdAt c"]
  by (simp add: fieldOr_jget jget_renumber jget_checkpointToJson checkpoint_typed_def)

lemma updated_roundtrip:
  "arrayOr (renumber (checkpointToJson c)) ''updated_channels'' m (stringEntry m') =
     Inr (cp_updatedChannels c)"
  using strings_roundtrip [of m' "cp_updatedChannels c"]
  by (simp add: arrayOr_jget jget_renumber jget_checkpointToJson)

lemma checkpoint_roundtrip:
  assumes "validateCheckpoint c = Inr ()" and "checkpoint_typed c"
  shows "checkpointFromJson lim (renumber (checkpointToJson c)) = Inr (rereadCheckpoint c)"
proof -
  let ?v = "renumber (checkpointToJson c)"
  have known: "knownFields ?v checkpointFields ''checkpoint'' lim = Inr ()"
    by (rule knownFields_ok) (simp_all add: checkpointToJson_keys)
  have state: "stateFromJsonValue (jat ?v ''state'') ''state'' = Inr (renumber (cp_state c))"
    using assms(2) by (simp add: jat_def jget_renumber jget_checkpointToJson checkpoint_typed_def
        stateFromJsonValue_ok)
  have here: "jhas ?v ''step'' \<and> is_number_unsigned (jat ?v ''step'') \<and> jhas ?v ''state'' \<and>
      bits_of (jat ?v ''step'') = cp_step c"
    by (simp add: jhas_def jat_def jget_renumber jget_checkpointToJson)
  have texts: "requiredString ?v ''thread_id'' = Inr (cp_threadId c)"
    "requiredString ?v ''checkpoint_id'' = Inr (cp_checkpointId c)"
    "fieldOr ?v ''checkpoint_ns'' is_string m str_of [] = Inr (cp_ns c)" for m
    by (simp_all add: requiredString_jget fieldOr_jget jget_renumber jget_checkpointToJson)
  have objects: "fieldOr ?v ''channel_versions'' is_object m (\<lambda>x. x) d = Inr (renumber (cp_channelVersions c))"
    "fieldOr ?v ''versions_seen'' is_object m (\<lambda>x. x) d = Inr (renumber (cp_versionsSeen c))"
    "fieldOr ?v ''metadata'' is_object m (\<lambda>x. x) d = Inr (renumber (cp_metadata c))" for m d
    using assms(1) by (simp_all add: validateCheckpoint_ok fieldOr_jget jget_renumber jget_checkpointToJson)
  have whole: "\<lparr>cp_threadId = cp_threadId c, cp_checkpointId = cp_checkpointId c, cp_ns = cp_ns c,
      cp_parent = cp_parent c, cp_step = cp_step c, cp_state = renumber (cp_state c),
      cp_nextNodes = cp_nextNodes c, cp_nextTasks = map rereadTask (cp_nextTasks c),
      cp_writes = map rereadWrite (cp_writes c),
      cp_pendingWrites = map rereadWrite (cp_pendingWrites c),
      cp_channelVersions = renumber (cp_channelVersions c),
      cp_versionsSeen = renumber (cp_versionsSeen c), cp_updatedChannels = cp_updatedChannels c,
      cp_metadata = renumber (cp_metadata c),
      cp_createdAt = fromUnixMs (toUnixMs (cp_createdAt c))\<rparr> = rereadCheckpoint c"
    by (cases c) (simp add: rereadCheckpoint_def)
  have "validateCheckpoint (rereadCheckpoint c) = Inr ()"
    using assms(1) by (simp add: validateCheckpoint_reread)
  then show ?thesis
    using here version_roundtrip [of c]
    by (simp add: checkpointFromJson_def known state texts objects parent_roundtrip
        lists_roundtrip [OF assms] created_roundtrip [OF assms(2)] updated_roundtrip Let_def
        whole)
qed

lemma codec_roundtrip:
  assumes "validateCheckpoint c = Inr ()" and "checkpoint_typed c"
    and "document_fits dump parse ''checkpoint'' lim (checkpointToJson c)"
  shows "\<exists>p. JsonCheckpointCodec_encode dump c = Inr p \<and>
    pl_contentType p = kCheckpointJsonContentType \<and> pl_data p = dump (checkpointToJson c) \<and>
    JsonCheckpointCodec_decode parse lim p = Inr (rereadCheckpoint c)"
  using checkpoint_roundtrip [OF assms(1,2), of lim] parse_dump [OF assms(3)] assms(1)
  by (simp add: JsonCheckpointCodec_encode_def JsonCheckpointCodec_decode_def parseJsonObject_def
      isCheckpointPayload_def)

lemma codec_write_roundtrip:
  assumes "validateCheckpointWrite w ''checkpoint write'' = Inr ()" and "write_states_ok w"
    and "document_fits dump parse ''checkpoint write'' lim (writeToJson w)"
  shows "\<exists>p. JsonCheckpointCodec_encodeWrite dump w = Inr p \<and>
    pl_contentType p = kCheckpointWriteJsonContentType \<and>
    JsonCheckpointCodec_decodeWrite parse lim p = Inr (rereadWrite w)"
proof -
  have "validateCheckpointWrite (rereadWrite w) ''checkpoint write'' = Inr ()"
    using assms(1) by simp
  note again = this
  show ?thesis
    using write_roundtrip [OF assms(1,2), of lim] parse_dump [OF assms(3)] assms(1)
    by (simp add: JsonCheckpointCodec_encodeWrite_def JsonCheckpointCodec_decodeWrite_def
        parseJsonObject_def isCheckpointWritePayload_def again)
qed

text \<open>A second trip changes nothing more.\<close>

lemma rereadTask_idem [simp]: "rereadTask (rereadTask t) = rereadTask t"
  by (simp add: rereadTask_def option.map_comp comp_def)

lemma rereadWrite_idem [simp]: "rereadWrite (rereadWrite w) = rereadWrite w"
  by (simp add: rereadWrite_def)

lemma toUnixMs_fromUnixMs [simp]: "toUnixMs (fromUnixMs ms) = ms"
  by (simp add: toUnixMs_def fromUnixMs_def) (metis minus_mult_left nonzero_mult_div_cancel_right
      zero_neq_numeral verit_minus_simplify(4))

lemma rereadCheckpoint_idem [simp]: "rereadCheckpoint (rereadCheckpoint c) = rereadCheckpoint c"
  by (simp add: rereadCheckpoint_def)

lemma rereadCheckpoint_key [simp]: "ckeyOf (rereadCheckpoint c) = ckeyOf c"
  by (simp add: rereadCheckpoint_def ckeyOf_def)

section \<open>The interface of a codec\<close>

record codec_ops =
  cd_encode :: "Checkpoint \<Rightarrow> payload result"
  cd_decode :: "payload \<Rightarrow> Checkpoint result"
  cd_encodeWrite :: "CheckpointWrite \<Rightarrow> payload result"
  cd_decodeWrite :: "payload \<Rightarrow> CheckpointWrite result"

text \<open>
  What a client relies on, for the checkpoints and the writes the codec can carry: decoding
  gives the canonical form of what was encoded.
\<close>

locale codec =
  fixes codec :: codec_ops and carries :: "Checkpoint \<Rightarrow> bool" and carriesWrite :: "CheckpointWrite \<Rightarrow> bool"
    and canonical :: "Checkpoint \<Rightarrow> Checkpoint" and canonicalWrite :: "CheckpointWrite \<Rightarrow> CheckpointWrite"
  assumes decode_encode: "carries c \<Longrightarrow>
      \<exists>p. cd_encode codec c = Inr p \<and> isCheckpointPayload (pl_contentType p) \<and>
        cd_decode codec p = Inr (canonical c)"
    and decodeWrite_encodeWrite: "carriesWrite w \<Longrightarrow>
      \<exists>p. cd_encodeWrite codec w = Inr p \<and> isCheckpointWritePayload (pl_contentType p) \<and>
        cd_decodeWrite codec p = Inr (canonicalWrite w)"
    and canonical_key: "ckeyOf (canonical c) = ckeyOf c"

definition JsonCheckpointCodec :: "(json \<Rightarrow> string) \<Rightarrow> json_parser \<Rightarrow> json_limits \<Rightarrow> codec_ops" where
  "JsonCheckpointCodec dump parse lim =
     \<lparr>cd_encode = JsonCheckpointCodec_encode dump, cd_decode = JsonCheckpointCodec_decode parse lim,
      cd_encodeWrite = JsonCheckpointCodec_encodeWrite dump,
      cd_decodeWrite = JsonCheckpointCodec_decodeWrite parse lim\<rparr>"

definition json_carries :: "(json \<Rightarrow> string) \<Rightarrow> json_parser \<Rightarrow> json_limits \<Rightarrow> Checkpoint \<Rightarrow> bool" where
  "json_carries dump parse lim c \<longleftrightarrow>
     validateCheckpoint c = Inr () \<and> checkpoint_typed c \<and>
     document_fits dump parse ''checkpoint'' lim (checkpointToJson c)"

definition json_carriesWrite ::
  "(json \<Rightarrow> string) \<Rightarrow> json_parser \<Rightarrow> json_limits \<Rightarrow> CheckpointWrite \<Rightarrow> bool" where
  "json_carriesWrite dump parse lim w \<longleftrightarrow>
     validateCheckpointWrite w ''checkpoint write'' = Inr () \<and> write_states_ok w \<and>
     document_fits dump parse ''checkpoint write'' lim (writeToJson w)"

interpretation json_codec: codec "JsonCheckpointCodec dump parse lim" "json_carries dump parse lim"
  "json_carriesWrite dump parse lim" rereadCheckpoint rereadWrite for dump parse lim
  using codec_roundtrip [of _ dump parse lim] codec_write_roundtrip [of _ dump parse lim]
  by unfold_locales (auto simp: JsonCheckpointCodec_def json_carries_def json_carriesWrite_def
      isCheckpointPayload_def isCheckpointWritePayload_def)

end
