(* ===== verification/Storage_Saver.thy ===== *)
theory Storage_Saver
  imports Storage Checkpoint_Codec
begin

text \<open>
  The checkpoint saver on a key-value storage, \<^verbatim>\<open>StorageSaver\<close>
  (\<^verbatim>\<open>src/src/langgraph/checkpoint/storage_saver.cpp\<close>), with the wrapping of payloads of
  \<^verbatim>\<open>checkpointer.cpp\<close>.  It is written over the interfaces of the storage and of the codec; an
  operation that lists pages has no value when the listing does not end.  The lemmas are proved
  once under the two contracts: the layout of the keys, that a stored checkpoint is read back, and
  what deleting a thread removes.
\<close>

section \<open>Operations that may not end\<close>

type_synonym ('s, 'a) ores = "'s \<Rightarrow> ('a result \<times> 's) option"

definition oret :: "'a \<Rightarrow> ('s, 'a) ores" where
  "oret x s = Some (Inr x, s)"

definition olift :: "'a result \<Rightarrow> ('s, 'a) ores" where
  "olift r s = Some (r, s)"

definition orun :: "('s, 'a) sres \<Rightarrow> ('s, 'a) ores" where
  "orun m s = Some (m s)"

definition obind :: "('s, 'a) ores \<Rightarrow> ('a \<Rightarrow> ('s, 'b) ores) \<Rightarrow> ('s, 'b) ores" where
  "obind m f s =
     (case m s of
        None \<Rightarrow> None
      | Some (Inl e, s') \<Rightarrow> Some (Inl e, s')
      | Some (Inr x, s') \<Rightarrow> f x s')"

fun ofold :: "('a \<Rightarrow> 'b \<Rightarrow> ('s, 'b) ores) \<Rightarrow> 'a list \<Rightarrow> 'b \<Rightarrow> ('s, 'b) ores" where
  "ofold f [] acc = oret acc"
| "ofold f (x # xs) acc = obind (f x acc) (ofold f xs)"

lemma obind_simps [simp]:
  "m s = Some (Inr x, s') \<Longrightarrow> obind m f s = f x s'"
  "m s = Some (Inl e, s') \<Longrightarrow> obind m f s = Some (Inl e, s')"
  "obind (olift (Inr x)) f = f x"
  "obind (olift (Inl e)) f s = Some (Inl e, s)"
  "obind (oret x) f = f x"
  by (simp_all add: obind_def olift_def oret_def fun_eq_iff)

section \<open>Options and keys\<close>

text \<open>\<open>ss_dump\<close> and \<open>ss_parse\<close> are the printer and the parser of the JSON library.\<close>

record 's storage_saver =
  ss_storage :: "'s storage_ops option"
  ss_scope :: string
  ss_codec :: "codec_ops option"
  ss_listPageSize :: nat
  ss_dump :: "json \<Rightarrow> string"
  ss_parse :: json_parser

definition validateStorageSaverOptions :: "'s storage_saver \<Rightarrow> unit result" where
  "validateStorageSaverOptions sv =
     (if ss_storage sv = None
      then err InvalidArgument ''storage checkpointer storage cannot be null''
      else if ss_codec sv = None
      then err InvalidArgument ''storage checkpointer codec cannot be null''
      else if ss_scope sv = []
      then err InvalidArgument ''storage checkpointer scope cannot be empty''
      else if ss_listPageSize sv = 0
      then err InvalidArgument ''storage checkpointer list page size must be greater than zero''
      else Inr ())"

definition wrapPayload :: "payload \<Rightarrow> json" where
  "wrapPayload p = obj [(''content_type'', JStr (pl_contentType p)), (''data'', JStr (pl_data p))]"

definition storageValueFromPayload :: "(json \<Rightarrow> string) \<Rightarrow> payload \<Rightarrow> string result" where
  "storageValueFromPayload dump p =
     (if pl_contentType p = []
      then err InvalidArgument ''checkpoint payload content type cannot be empty''
      else Inr (dump (wrapPayload p)))"

definition payloadFromStorageValue :: "json_parser \<Rightarrow> string \<Rightarrow> payload result" where
  "payloadFromStorageValue parse text =
     rbind (parseJsonWithLimits parse text ''stored checkpoint'' JsonDecodeLimits) (\<lambda>v.
     if \<not> is_object v then err InvalidArgument ''stored checkpoint must be a JSON object''
     else if \<not> jhas v ''content_type'' \<or> \<not> is_string (jat v ''content_type'')
     then err InvalidArgument ''stored checkpoint content_type is required''
     else if \<not> jhas v ''data'' \<or> \<not> is_string (jat v ''data'')
     then err InvalidArgument ''stored checkpoint data is required''
     else Inr \<lparr>pl_contentType = str_of (jat v ''content_type''), pl_data = str_of (jat v ''data'')\<rparr>)"

definition nsPart :: "string \<Rightarrow> string" where
  "nsPart ns = (if ns = [] then [] else ''ns/'' @ hexEncode ns @ ''/'')"

definition keyPrefixFor :: "string \<Rightarrow> string \<Rightarrow> string result" where
  "keyPrefixFor thread ns =
     (if thread = [] then err InvalidArgument ''checkpoint thread_id cannot be empty''
      else Inr (hexEncode thread @ ''/'' @ nsPart ns))"

definition keyFor :: "'s storage_saver \<Rightarrow> string \<Rightarrow> string \<Rightarrow> string \<Rightarrow> storage_key result" where
  "keyFor sv thread ns cid =
     (if thread = [] then err InvalidArgument ''checkpoint thread_id cannot be empty''
      else if cid = [] then err InvalidArgument ''checkpoint checkpoint_id cannot be empty''
      else rbind (keyPrefixFor thread ns) (\<lambda>pre.
        Inr \<lparr>sk_scope = ss_scope sv, sk_key = pre @ hexEncode cid\<rparr>))"

definition latestPointerKeyFor :: "'s storage_saver \<Rightarrow> string \<Rightarrow> string \<Rightarrow> storage_key result" where
  "latestPointerKeyFor sv thread ns =
     (if thread = [] then err InvalidArgument ''checkpoint thread_id cannot be empty''
      else Inr \<lparr>sk_scope = ss_scope sv,
                sk_key = ''latest/'' @ hexEncode thread @
                  (if ns = [] then [] else ''/ns/'' @ hexEncode ns)\<rparr>)"

definition writeKeyPrefixFor :: "string \<Rightarrow> string \<Rightarrow> string \<Rightarrow> string result" where
  "writeKeyPrefixFor thread ns cid =
     (if thread = [] then err InvalidArgument ''checkpoint writes thread_id cannot be empty''
      else if cid = [] then err InvalidArgument ''checkpoint writes checkpoint_id cannot be empty''
      else Inr (''writes/'' @ hexEncode thread @ ''/'' @ nsPart ns @ ''checkpoint/'' @
                hexEncode cid @ ''/''))"

definition writeKeyFor ::
  "'s storage_saver \<Rightarrow> CheckpointWriteSet \<Rightarrow> CheckpointWrite \<Rightarrow> nat \<Rightarrow> storage_key result" where
  "writeKeyFor sv ws w index =
     rbind (writeKeyPrefixFor (ws_threadId ws) (ws_ns ws) (ws_checkpointId ws)) (\<lambda>pre.
     let order = (case cw_order w of None \<Rightarrow> of_nat index | Some ord \<Rightarrow> ord) in
     Inr \<lparr>sk_scope = ss_scope sv,
          sk_key = pre @ hexEncode (cw_taskId w) @ ''/'' @ hexEncode (cw_taskPath w) @ ''/'' @
            paddedIndex order\<rparr>)"

abbreviation storageOf :: "'s storage_saver \<Rightarrow> 's storage_ops" where
  "storageOf sv \<equiv> the (ss_storage sv)"

abbreviation codecOf :: "'s storage_saver \<Rightarrow> codec_ops" where
  "codecOf sv \<equiv> the (ss_codec sv)"

definition pageQuery :: "'s storage_saver \<Rightarrow> string \<Rightarrow> storage_query" where
  "pageQuery sv pre =
     \<lparr>sq_scope = ss_scope sv, sq_keyPrefix = pre, sq_limit = ss_listPageSize sv, sq_cursor = []\<rparr>"

section \<open>Writing\<close>

definition SS_put :: "'s storage_saver \<Rightarrow> Checkpoint \<Rightarrow> ('s, unit) ores" where
  "SS_put sv c =
     obind (olift (validateStorageSaverOptions sv)) (\<lambda>_.
     obind (olift (validateCheckpointForStore c)) (\<lambda>_.
     obind (olift (keyFor sv (cp_threadId c) (cp_ns c) (cp_checkpointId c))) (\<lambda>key.
     obind (olift (cd_encode (codecOf sv) c)) (\<lambda>p.
     obind (olift (storageValueFromPayload (ss_dump sv) p)) (\<lambda>text.
     obind (orun (st_put (storageOf sv) key text (putMode InsertOnly))) (\<lambda>_.
     obind (olift (latestPointerKeyFor sv (cp_threadId c) (cp_ns c))) (\<lambda>pointer.
     orun (st_put (storageOf sv) pointer (cp_checkpointId c) (putMode Upsert)))))))))"

definition putWrite ::
  "'s storage_saver \<Rightarrow> CheckpointWriteSet \<Rightarrow> nat \<times> CheckpointWrite \<Rightarrow> unit \<Rightarrow> ('s, unit) ores" where
  "putWrite sv ws iw _ =
     (case iw of (i, w) \<Rightarrow>
        obind (olift (writeKeyFor sv ws w i)) (\<lambda>key.
        obind (olift (cd_encodeWrite (codecOf sv) w)) (\<lambda>p.
        obind (olift (storageValueFromPayload (ss_dump sv) p)) (\<lambda>text.
        orun (st_put (storageOf sv) key text (putMode Upsert))))))"

definition SS_putWrites :: "'s storage_saver \<Rightarrow> CheckpointWriteSet \<Rightarrow> ('s, unit) ores" where
  "SS_putWrites sv ws =
     obind (olift (validateStorageSaverOptions sv)) (\<lambda>_.
     obind (olift (normalizeWriteSet ws)) (\<lambda>ws.
     ofold (putWrite sv ws) (enumerate 0 (ws_writes ws)) ()))"

section \<open>Reading\<close>

definition decodeWriteItem ::
  "'s storage_saver \<Rightarrow> CheckpointWrite list \<Rightarrow> storage_item \<Rightarrow> CheckpointWrite list result" where
  "decodeWriteItem sv writes item =
     rbind (payloadFromStorageValue (ss_parse sv) (si_value item)) (\<lambda>p.
     rbind (cd_decodeWrite (codecOf sv) p) (\<lambda>w. Inr (writes @ [w])))"

definition storedWriteOrder :: "CheckpointWrite \<Rightarrow> string \<times> string \<times> 64 word" where
  "storedWriteOrder w =
     (cw_taskId w, cw_taskPath w, (case cw_order w of None \<Rightarrow> - 1 | Some ord \<Rightarrow> ord))"

definition SS_readWrites ::
  "'s storage_saver \<Rightarrow> string \<Rightarrow> string \<Rightarrow> string \<Rightarrow> ('s, CheckpointWrite list) ores" where
  "SS_readWrites sv thread ns cid =
     obind (olift (writeKeyPrefixFor thread ns cid)) (\<lambda>pre.
     obind (scanPages (storageOf sv) (decodeWriteItem sv) (pageQuery sv pre) []) (\<lambda>writes.
     oret (sort_key storedWriteOrder writes)))"

definition SS_getCheckpoint ::
  "'s storage_saver \<Rightarrow> string \<Rightarrow> string \<Rightarrow> string \<Rightarrow> ('s, Checkpoint option) ores" where
  "SS_getCheckpoint sv thread cid ns =
     obind (olift (validateStorageSaverOptions sv)) (\<lambda>_.
     obind (olift (keyFor sv thread ns cid)) (\<lambda>key.
     obind (orun (st_get (storageOf sv) key)) (\<lambda>found.
     case found of
       None \<Rightarrow> oret None
     | Some item \<Rightarrow>
         obind (olift (payloadFromStorageValue (ss_parse sv) (si_value item))) (\<lambda>p.
         obind (olift (cd_decode (codecOf sv) p)) (\<lambda>c.
         obind (SS_readWrites sv thread ns cid) (\<lambda>writes.
         oret (Some (if cp_pendingWrites c = [] then c\<lparr>cp_pendingWrites := writes\<rparr> else c))))))))"

definition decodeCheckpointItem ::
  "'s storage_saver \<Rightarrow> string option \<Rightarrow> Checkpoint list \<Rightarrow> storage_item \<Rightarrow> Checkpoint list result" where
  "decodeCheckpointItem sv ns out item =
     rbind (payloadFromStorageValue (ss_parse sv) (si_value item)) (\<lambda>p.
     if \<not> isCheckpointPayload (pl_contentType p) then Inr out
     else rbind (cd_decode (codecOf sv) p) (\<lambda>c.
     if (case ns of None \<Rightarrow> False | Some n \<Rightarrow> cp_ns c \<noteq> n) then Inr out else Inr (out @ [c])))"

definition collectWritesOf ::
  "'s storage_saver \<Rightarrow> Checkpoint \<Rightarrow> (string, CheckpointWrite list) omap \<Rightarrow>
   ('s, (string, CheckpointWrite list) omap) ores" where
  "collectWritesOf sv c m =
     obind (SS_readWrites sv (cp_threadId c) (cp_ns c) (cp_checkpointId c)) (\<lambda>writes.
     oret (if writes = [] then m
           else omap_emplace (checkpointWriteStorageKey (cp_threadId c) (cp_ns c) (cp_checkpointId c))
                  writes m))"

definition SS_list ::
  "(json \<Rightarrow> json \<Rightarrow> bool) \<Rightarrow> 's storage_saver \<Rightarrow> CheckpointListOptions \<Rightarrow>
   ('s, CheckpointTuple list) ores" where
  "SS_list jeq sv lo =
     obind (olift (validateStorageSaverOptions sv)) (\<lambda>_.
     obind (olift (validateCheckpointListOptions lo)) (\<lambda>_.
     obind (olift (keyPrefixFor (lo_threadId lo) (case lo_ns lo of None \<Rightarrow> [] | Some n \<Rightarrow> n))) (\<lambda>pre.
     obind (scanPages (storageOf sv) (decodeCheckpointItem sv (lo_ns lo)) (pageQuery sv pre) []) (\<lambda>cs.
     obind (ofold (collectWritesOf sv) cs []) (\<lambda>writesByCheckpoint.
     oret (applyListOptions jeq cs writesByCheckpoint lo))))))"

definition SS_listCheckpoints ::
  "(json \<Rightarrow> json \<Rightarrow> bool) \<Rightarrow> 's storage_saver \<Rightarrow> string \<Rightarrow> string \<Rightarrow> ('s, Checkpoint list) ores" where
  "SS_listCheckpoints jeq sv thread ns =
     obind (SS_list jeq sv \<lparr>lo_threadId = thread, lo_ns = Some ns, lo_checkpointId = None,
              lo_before = None, lo_limit = None, lo_metadataFilter = JObj [],
              lo_order = OldestFirst\<rparr>) (\<lambda>records.
     oret (map tu_checkpoint records))"

definition SS_getLatestByScan ::
  "(json \<Rightarrow> json \<Rightarrow> bool) \<Rightarrow> 's storage_saver \<Rightarrow> string \<Rightarrow> string \<Rightarrow> ('s, Checkpoint option) ores" where
  "SS_getLatestByScan jeq sv thread ns =
     obind (SS_listCheckpoints jeq sv thread ns) (\<lambda>cs.
     oret (if cs = [] then None else Some (last cs)))"

definition SS_getLatestCheckpoint ::
  "(json \<Rightarrow> json \<Rightarrow> bool) \<Rightarrow> 's storage_saver \<Rightarrow> string \<Rightarrow> string \<Rightarrow> ('s, Checkpoint option) ores" where
  "SS_getLatestCheckpoint jeq sv thread ns =
     obind (olift (validateStorageSaverOptions sv)) (\<lambda>_.
     obind (olift (latestPointerKeyFor sv thread ns)) (\<lambda>pointerKey.
     obind (orun (st_get (storageOf sv) pointerKey)) (\<lambda>pointer.
     case pointer of
       None \<Rightarrow> SS_getLatestByScan jeq sv thread ns
     | Some item \<Rightarrow>
         obind (SS_getCheckpoint sv thread (si_value item) ns) (\<lambda>found.
         case found of
           None \<Rightarrow> SS_getLatestByScan jeq sv thread ns
         | Some c \<Rightarrow>
             obind (SS_getLatestByScan jeq sv thread ns) (\<lambda>scanned.
             oret (case scanned of
                     None \<Rightarrow> Some c
                   | Some d \<Rightarrow> if checkpointIsNewer d c then Some d else Some c))))))"

definition SS_getTuple ::
  "(json \<Rightarrow> json \<Rightarrow> bool) \<Rightarrow> 's storage_saver \<Rightarrow> CheckpointQuery \<Rightarrow> ('s, CheckpointTuple option) ores" where
  "SS_getTuple jeq sv q =
     obind (olift (validateCheckpointQuery q)) (\<lambda>_.
     obind (case cq_checkpointId q of
              Some cid \<Rightarrow> SS_getCheckpoint sv (cq_threadId q) cid (cq_ns q)
            | None \<Rightarrow> SS_getLatestCheckpoint jeq sv (cq_threadId q) (cq_ns q)) (\<lambda>found.
     case found of
       None \<Rightarrow> oret None
     | Some c \<Rightarrow>
         obind (SS_readWrites sv (cp_threadId c) (cp_ns c) (cp_checkpointId c)) (\<lambda>writes.
         oret (Some \<lparr>tu_checkpoint = c,
                     tu_pendingWrites = (if writes = [] then cp_pendingWrites c else writes)\<rparr>))))"

definition SS_get ::
  "(json \<Rightarrow> json \<Rightarrow> bool) \<Rightarrow> 's storage_saver \<Rightarrow> CheckpointQuery \<Rightarrow> ('s, Checkpoint option) ores" where
  "SS_get jeq sv q =
     obind (SS_getTuple jeq sv q) (\<lambda>found. oret (map_option tu_checkpoint found))"

section \<open>Removing\<close>

definition collectKey :: "(storage_key \<Rightarrow> bool) \<Rightarrow> storage_key list \<Rightarrow> storage_item \<Rightarrow> storage_key list result" where
  "collectKey P keys item = Inr (if P (si_key item) then keys @ [si_key item] else keys)"

definition removeKeys :: "'s storage_saver \<Rightarrow> storage_key list \<Rightarrow> ('s, unit) ores" where
  "removeKeys sv keys = ofold (\<lambda>key _. orun (st_remove (storageOf sv) key)) keys ()"

text \<open>The loop that collects the keys under a prefix, and the loop that removes them.\<close>

definition removeUnder :: "'s storage_saver \<Rightarrow> string \<Rightarrow> (storage_key \<Rightarrow> bool) \<Rightarrow> ('s, unit) ores" where
  "removeUnder sv pre P =
     obind (scanPages (storageOf sv) (collectKey P) (pageQuery sv pre) []) (removeKeys sv)"

definition SS_removeWrites :: "'s storage_saver \<Rightarrow> string \<Rightarrow> string \<Rightarrow> string \<Rightarrow> ('s, unit) ores" where
  "SS_removeWrites sv thread ns cid =
     obind (olift (writeKeyPrefixFor thread ns cid)) (\<lambda>pre. removeUnder sv pre (\<lambda>_. True))"

definition SS_removeThreadWrites :: "'s storage_saver \<Rightarrow> string \<Rightarrow> ('s, unit) ores" where
  "SS_removeThreadWrites sv thread =
     (if thread = []
      then olift (err InvalidArgument ''checkpoint writes thread_id cannot be empty'')
      else removeUnder sv (''writes/'' @ hexEncode thread @ ''/'') (\<lambda>_. True))"

definition isThreadPointer :: "string \<Rightarrow> storage_key \<Rightarrow> bool" where
  "isThreadPointer pre key \<longleftrightarrow> sk_key key = pre \<or> prefix (pre @ ''/'') (sk_key key)"

definition SS_deleteThread :: "'s storage_saver \<Rightarrow> string \<Rightarrow> ('s, unit) ores" where
  "SS_deleteThread sv thread =
     obind (olift (validateStorageSaverOptions sv)) (\<lambda>_.
     obind (olift (keyPrefixFor thread [])) (\<lambda>pre.
     obind (removeUnder sv pre (\<lambda>_. True)) (\<lambda>_.
     obind (removeUnder sv (''latest/'' @ hexEncode thread)
              (isThreadPointer (''latest/'' @ hexEncode thread))) (\<lambda>_.
     SS_removeThreadWrites sv thread))))"

section \<open>Maintenance\<close>

definition SS_repairLatestPointer ::
  "(json \<Rightarrow> json \<Rightarrow> bool) \<Rightarrow> 's storage_saver \<Rightarrow> string \<Rightarrow> string \<Rightarrow>
   ('s, CheckpointMaintenanceResult) ores" where
  "SS_repairLatestPointer jeq sv thread ns =
     obind (olift (validateStorageSaverOptions sv)) (\<lambda>_.
     obind (SS_listCheckpoints jeq sv thread ns) (\<lambda>cs.
     obind (olift (latestPointerKeyFor sv thread ns)) (\<lambda>pointerKey.
     let result = \<lparr>mr_removed = 0, mr_remaining = length cs, mr_latest = []\<rparr> in
     if cs = [] then obind (orun (st_remove (storageOf sv) pointerKey)) (\<lambda>_. oret result)
     else let latest = cp_checkpointId (last cs) in
       obind (orun (st_put (storageOf sv) pointerKey latest (putMode Upsert))) (\<lambda>_.
       oret (result\<lparr>mr_latest := latest\<rparr>)))))"

definition removeCheckpoint :: "'s storage_saver \<Rightarrow> Checkpoint \<Rightarrow> ('s, unit) ores" where
  "removeCheckpoint sv c =
     obind (olift (keyFor sv (cp_threadId c) (cp_ns c) (cp_checkpointId c))) (\<lambda>key.
     obind (orun (st_remove (storageOf sv) key)) (\<lambda>_.
     SS_removeWrites sv (cp_threadId c) (cp_ns c) (cp_checkpointId c)))"

definition SS_prune ::
  "(json \<Rightarrow> json \<Rightarrow> bool) \<Rightarrow> 's storage_saver \<Rightarrow> string \<Rightarrow> CheckpointPruneOptions \<Rightarrow>
   ('s, CheckpointMaintenanceResult) ores" where
  "SS_prune jeq sv thread po =
     obind (olift (validateStorageSaverOptions sv)) (\<lambda>_.
     obind (SS_listCheckpoints jeq sv thread (pr_ns po)) (\<lambda>cs.
     obind (ofold (\<lambda>c n. obind (removeCheckpoint sv c) (\<lambda>_. oret (n + 1)))
              (take (length cs - pr_keepLatest po) cs) 0) (\<lambda>removed.
     obind (SS_repairLatestPointer jeq sv thread (pr_ns po)) (\<lambda>repaired.
     oret \<lparr>mr_removed = removed, mr_remaining = mr_remaining repaired,
           mr_latest = mr_latest repaired\<rparr>))))"

definition removeForRun ::
  "'s storage_saver \<Rightarrow> string list \<Rightarrow> CheckpointTuple \<Rightarrow> nat \<times> string list \<Rightarrow> ('s, nat \<times> string list) ores" where
  "removeForRun sv runIds rec acc =
     (if \<not> checkpointIdMatchesRun (cp_checkpointId (tu_checkpoint rec)) runIds then oret acc
      else obind (removeCheckpoint sv (tu_checkpoint rec)) (\<lambda>_.
        oret (fst acc + 1, oset_insert (cp_ns (tu_checkpoint rec)) (snd acc))))"

definition SS_deleteForRuns ::
  "(json \<Rightarrow> json \<Rightarrow> bool) \<Rightarrow> 's storage_saver \<Rightarrow> CheckpointDeleteForRunsOptions \<Rightarrow>
   ('s, CheckpointMaintenanceResult) ores" where
  "SS_deleteForRuns jeq sv dr =
     obind (olift (validateStorageSaverOptions sv)) (\<lambda>_.
     obind (olift (validateDeleteForRunsOptions dr)) (\<lambda>_.
     obind (SS_list jeq sv \<lparr>lo_threadId = dr_threadId dr, lo_ns = dr_ns dr, lo_checkpointId = None,
              lo_before = None, lo_limit = None, lo_metadataFilter = JObj [],
              lo_order = OldestFirst\<rparr>) (\<lambda>records.
     obind (ofold (removeForRun sv (dr_runIds dr)) records (0, [])) (\<lambda>(removed, affected).
     ofold (\<lambda>ns acc.
         obind (SS_repairLatestPointer jeq sv (dr_threadId dr) ns) (\<lambda>repaired.
         oret (acc\<lparr>mr_remaining := mr_remaining acc + mr_remaining repaired,
                   mr_latest := (if mr_latest repaired = [] then mr_latest acc
                                 else mr_latest repaired)\<rparr>)))
       affected \<lparr>mr_removed = removed, mr_remaining = 0, mr_latest = []\<rparr>))))"

section \<open>Copying and histories\<close>

text \<open>
  The two operations that every saver shares, \<^verbatim>\<open>copyThreadWith\<close> and \<^verbatim>\<open>getDeltaChannelHistoryWith\<close>, on
  this saver, whose reads may fail to end.
\<close>

definition SS_copyRecord ::
  "'s storage_saver \<Rightarrow> CheckpointCopyThreadOptions \<Rightarrow> CheckpointTuple \<Rightarrow> CheckpointMaintenanceResult \<Rightarrow>
   ('s, CheckpointMaintenanceResult) ores" where
  "SS_copyRecord sv co rec acc =
     (let ns = (case co_targetNs co of None \<Rightarrow> cp_ns (tu_checkpoint rec) | Some n \<Rightarrow> n);
          c = rewriteCheckpointForCopy (co_target co) (co_targetNs co) (tu_checkpoint rec);
          pending = (if tu_pendingWrites rec = [] then cp_pendingWrites c else tu_pendingWrites rec);
          c = (if tu_pendingWrites rec \<noteq> [] \<and> cp_pendingWrites c = []
               then c\<lparr>cp_pendingWrites := tu_pendingWrites rec\<rparr> else c) in
      obind (SS_put sv c) (\<lambda>_.
      obind (if pending = [] then oret ()
             else SS_putWrites sv
                    \<lparr>ws_threadId = co_target co, ws_ns = ns, ws_checkpointId = cp_checkpointId c,
                     ws_taskId = cp_checkpointId c, ws_taskPath = ''copy'',
                     ws_writes = map (rewriteWriteNamespace (co_targetNs co)) pending\<rparr>) (\<lambda>_.
      oret (acc\<lparr>mr_remaining := mr_remaining acc + 1, mr_latest := cp_checkpointId c\<rparr>))))"

definition SS_copyThread ::
  "(json \<Rightarrow> json \<Rightarrow> bool) \<Rightarrow> 's storage_saver \<Rightarrow> CheckpointCopyThreadOptions \<Rightarrow>
   ('s, CheckpointMaintenanceResult) ores" where
  "SS_copyThread jeq sv co =
     obind (olift (validateCopyOptions co)) (\<lambda>_.
     obind (if co_overwriteTarget co then SS_deleteThread sv (co_target co) else oret ()) (\<lambda>_.
     obind (SS_list jeq sv \<lparr>lo_threadId = co_source co, lo_ns = co_ns co, lo_checkpointId = None,
              lo_before = None, lo_limit = None, lo_metadataFilter = JObj [],
              lo_order = OldestFirst\<rparr>) (\<lambda>records.
     ofold (SS_copyRecord sv co) records \<lparr>mr_removed = 0, mr_remaining = 0, mr_latest = []\<rparr>)))"

partial_function (option) SS_deltaLoop ::
  "(json \<Rightarrow> json \<Rightarrow> bool) \<Rightarrow> 's storage_saver \<Rightarrow> DeltaChannelHistoryQuery \<Rightarrow> string option \<Rightarrow>
   string list \<Rightarrow> histories \<Rightarrow> ('s, histories) ores" where
  "SS_deltaLoop jeq sv dq cursor remaining hs s =
     (case cursor of
        None \<Rightarrow> Some (Inr hs, s)
      | Some cid \<Rightarrow>
          if remaining = [] then Some (Inr hs, s)
          else case SS_getTuple jeq sv (CheckpointQuery_at (dq_threadId dq) cid (dq_ns dq)) s of
            None \<Rightarrow> None
          | Some (Inl e, s') \<Rightarrow> Some (Inl e, s')
          | Some (Inr None, s') \<Rightarrow> Some (Inr hs, s')
          | Some (Inr (Some rec), s') \<Rightarrow>
              (let writes = (if tu_pendingWrites rec = [] then cp_writes (tu_checkpoint rec)
                             else tu_pendingWrites rec);
                   hs1 = fold (pushWrite (dq_channels dq)) (rev writes) hs;
                   st = cp_state (tu_checkpoint rec);
                   hs2 = seedChannels st remaining hs1 in
               SS_deltaLoop jeq sv dq (cp_parent (tu_checkpoint rec))
                 (filter (\<lambda>ch. \<not> jhas st ch) remaining) hs2 s'))"

declare SS_deltaLoop.simps [code]

definition SS_getDeltaChannelHistory ::
  "(json \<Rightarrow> json \<Rightarrow> bool) \<Rightarrow> 's storage_saver \<Rightarrow> DeltaChannelHistoryQuery \<Rightarrow> ('s, histories) ores" where
  "SS_getDeltaChannelHistory jeq sv dq =
     obind (olift (validateDeltaQuery dq)) (\<lambda>_.
     let hs = fold (\<lambda>ch hs. omap_emplace ch emptyHistory hs) (dq_channels dq) [];
         remaining = oset_of (dq_channels dq) in
     obind (SS_getTuple jeq sv (CheckpointQuery_at (dq_threadId dq) (dq_checkpointId dq) (dq_ns dq))) (\<lambda>current.
     case current of
       None \<Rightarrow> olift (err NotFound ''checkpoint delta target checkpoint not found'')
     | Some rec \<Rightarrow>
         obind (SS_deltaLoop jeq sv dq (cp_parent (tu_checkpoint rec)) remaining hs) (\<lambda>hs'.
         oret (reverseHistories hs'))))"

section \<open>The layout of the keys\<close>

lemma hexDigits_slash: "CHR ''/'' \<notin> set hexDigits"
  by (simp add: hexDigits_def)

lemma hexDigits_nth: "n < 16 \<Longrightarrow> hexDigits ! n \<in> set hexDigits"
  by (intro nth_mem) (simp add: hexDigits_def)

lemma hexEncode_Nil [simp]: "hexEncode [] = []"
  by (simp add: hexEncode_def)

lemma of_char_div_16: "(of_char ch :: nat) div 16 < 16"
  by (rule less_mult_imp_div_less) (use nat_of_char_less_256 [of ch] in simp)

lemma hexEncode_chars: "set (hexEncode cs) \<subseteq> set hexDigits"
  by (induction cs) (simp_all add: hexEncode_Cons hexDigits_nth of_char_div_16)

lemma hexEncode_slash [simp]: "CHR ''/'' \<notin> set (hexEncode cs)"
  using hexEncode_chars [of cs] hexDigits_slash by blast

lemma hexEncode_inject [simp]: "hexEncode a = hexEncode b \<longleftrightarrow> a = b"
  using hexEncode_inject_lemma by blast

lemma hexEncode_eq_Nil [simp]: "hexEncode a = [] \<longleftrightarrow> a = []"
  using hexEncode_inject [of a "[]"] by simp

text \<open>A text of hex digits before a slash is determined by the whole.\<close>

lemma hex_slash_eq: "hexEncode a @ CHR ''/'' # x = hexEncode b @ CHR ''/'' # y \<longleftrightarrow> a = b \<and> x = y"
  using append_sep_eq [of "hexEncode a" "CHR ''/''" x "hexEncode b" y] by auto

lemma hex_prefix:
  "prefix (hexEncode a @ ''/'') (hexEncode b @ CHR ''/'' # x) \<longleftrightarrow> a = b"
  by (auto simp: prefix_def hex_slash_eq)

text \<open>No hex digit begins a word of the layout.\<close>

lemma hex_not_word:
  "hexEncode a \<noteq> CHR ''l'' # x" "hexEncode a \<noteq> CHR ''w'' # x" "hexEncode a \<noteq> CHR ''n'' # x"
  "hexEncode a @ CHR ''/'' # z \<noteq> CHR ''l'' # x" "hexEncode a @ CHR ''/'' # z \<noteq> CHR ''w'' # x"
  "hexEncode a @ CHR ''/'' # z \<noteq> CHR ''n'' # x"
proof -
  have "ch \<notin> set hexDigits \<Longrightarrow> hexEncode a \<noteq> ch # x" for ch x
    using hexEncode_chars [of a] by (metis list.set_intros(1) subsetD)
  moreover have "ch \<notin> set hexDigits \<Longrightarrow> ch \<noteq> CHR ''/'' \<Longrightarrow> hexEncode a @ CHR ''/'' # z \<noteq> ch # x" for ch x z
    using hexEncode_chars [of a] by (cases "hexEncode a") auto
  ultimately show "hexEncode a \<noteq> CHR ''l'' # x" "hexEncode a \<noteq> CHR ''w'' # x"
    "hexEncode a \<noteq> CHR ''n'' # x" "hexEncode a @ CHR ''/'' # z \<noteq> CHR ''l'' # x"
    "hexEncode a @ CHR ''/'' # z \<noteq> CHR ''w'' # x" "hexEncode a @ CHR ''/'' # z \<noteq> CHR ''n'' # x"
    by (simp_all add: hexDigits_def)
qed

lemma nsPart_hex_eq:
  "nsPart n @ hexEncode i = nsPart m @ hexEncode j \<longleftrightarrow> n = m \<and> i = j"
  by (auto simp: nsPart_def hex_slash_eq hex_not_word hex_not_word [symmetric])

text \<open>Different checkpoints have different keys, and no key is that of a pointer.\<close>

lemma keyFor_Inr:
  "keyFor sv t n i = Inr k \<longleftrightarrow> t \<noteq> [] \<and> i \<noteq> [] \<and>
     k = \<lparr>sk_scope = ss_scope sv, sk_key = hexEncode t @ ''/'' @ nsPart n @ hexEncode i\<rparr>"
  by (auto simp: keyFor_def keyPrefixFor_def)

lemma pointer_Inr:
  "latestPointerKeyFor sv t n = Inr k \<longleftrightarrow> t \<noteq> [] \<and>
     k = \<lparr>sk_scope = ss_scope sv, sk_key = ''latest/'' @ hexEncode t @
       (if n = [] then [] else ''/ns/'' @ hexEncode n)\<rparr>"
  by (auto simp: latestPointerKeyFor_def)

lemma keyFor_inject:
  "keyFor sv t n i = Inr k \<Longrightarrow> keyFor sv t' n' i' = Inr k \<Longrightarrow> t = t' \<and> n = n' \<and> i = i'"
  by (auto simp: keyFor_Inr hex_slash_eq nsPart_hex_eq)

lemma keyFor_not_pointer: "keyFor sv t n i = Inr k \<Longrightarrow> latestPointerKeyFor sv t' n' \<noteq> Inr k"
  by (auto simp: keyFor_Inr pointer_Inr hex_not_word)

lemma write_prefix_keys:
  assumes "writeKeyPrefixFor t n i = Inr pre"
  shows "keyFor sv t' n' i' = Inr k \<Longrightarrow> \<not> prefix pre (sk_key k)"
    and "latestPointerKeyFor sv t' n' = Inr k \<Longrightarrow> \<not> prefix pre (sk_key k)"
proof -
  obtain z where pre: "pre = CHR ''w'' # z"
    using assms by (auto simp: writeKeyPrefixFor_def split: if_splits)
  show "keyFor sv t' n' i' = Inr k \<Longrightarrow> \<not> prefix pre (sk_key k)"
    by (auto simp: keyFor_Inr pre prefix_def hex_not_word)
  show "latestPointerKeyFor sv t' n' = Inr k \<Longrightarrow> \<not> prefix pre (sk_key k)"
    by (auto simp: pointer_Inr pre)
qed

text \<open>The keys of a thread: its checkpoints, its pointers and its writes.\<close>

definition ownedBy :: "'s storage_saver \<Rightarrow> string \<Rightarrow> storage_key \<Rightarrow> bool" where
  "ownedBy sv t k \<longleftrightarrow>
     (\<exists>n i. keyFor sv t n i = Inr k) \<or> (\<exists>n. latestPointerKeyFor sv t n = Inr k) \<or>
     (\<exists>ws w i. ws_threadId ws = t \<and> writeKeyFor sv ws w i = Inr k)"

text \<open>What the three removals of \<open>SS_deleteThread\<close> match.\<close>

definition sweptBy :: "'s storage_saver \<Rightarrow> string \<Rightarrow> storage_key \<Rightarrow> bool" where
  "sweptBy sv t k \<longleftrightarrow> sk_scope k = ss_scope sv \<and>
     (prefix (hexEncode t @ ''/'') (sk_key k) \<or>
      isThreadPointer (''latest/'' @ hexEncode t) k \<or>
      prefix (''writes/'' @ hexEncode t @ ''/'') (sk_key k))"

lemma writeKeyFor_Inr:
  assumes "writeKeyFor sv ws w i = Inr k"
  obtains z where "ws_threadId ws \<noteq> []"
    and "k = \<lparr>sk_scope = ss_scope sv, sk_key = ''writes/'' @ hexEncode (ws_threadId ws) @ ''/'' @ z\<rparr>"
  using assms that by (auto simp: writeKeyFor_def writeKeyPrefixFor_def Let_def split: if_splits)

lemma hex_only_prefix: "\<not> prefix (hexEncode a @ ''/'') (hexEncode b)"
  using hexEncode_slash [of b] by (auto simp: prefix_def simp del: hexEncode_slash)

lemma hex_not_path: "hexEncode a @ CHR ''/'' # z \<noteq> hexEncode b"
proof
  assume eq: "hexEncode a @ CHR ''/'' # z = hexEncode b"
  have "CHR ''/'' \<in> set (hexEncode b)" unfolding eq [symmetric] by simp
  then show False by simp
qed

lemma ownedBy_swept: "ownedBy sv t k \<Longrightarrow> sweptBy sv t k"
proof -
  assume "ownedBy sv t k"
  then consider (key) n i where "keyFor sv t n i = Inr k" | (ptr) n where "latestPointerKeyFor sv t n = Inr k"
    | (wr) ws w i where "ws_threadId ws = t" "writeKeyFor sv ws w i = Inr k"
    by (auto simp: ownedBy_def)
  then show ?thesis
  proof cases
    case key
    then show ?thesis by (auto simp: sweptBy_def keyFor_Inr)
  next
    case ptr
    then show ?thesis by (auto simp: sweptBy_def pointer_Inr isThreadPointer_def)
  next
    case wr
    then show ?thesis by (elim writeKeyFor_Inr) (auto simp: sweptBy_def)
  qed
qed

lemma not_swept_by_other:
  assumes "ownedBy sv t' k" and "t' \<noteq> t"
  shows "\<not> sweptBy sv t k"
proof -
  from assms(1) consider (key) n i where "keyFor sv t' n i = Inr k" | (ptr) n where "latestPointerKeyFor sv t' n = Inr k"
    | (wr) ws w i where "ws_threadId ws = t'" "writeKeyFor sv ws w i = Inr k"
    by (auto simp: ownedBy_def)
  then show ?thesis
  proof cases
    case key
    then show ?thesis
      using assms(2) by (auto simp: sweptBy_def keyFor_Inr hex_prefix isThreadPointer_def prefix_def
          hex_slash_eq hex_not_word hex_not_word [symmetric])
  next
    case ptr
    then show ?thesis
      using assms(2) by (auto simp: sweptBy_def pointer_Inr isThreadPointer_def prefix_def hex_slash_eq
          hex_not_path hex_not_path [symmetric] hex_not_word hex_not_word [symmetric] split: if_splits)
  next
    case wr
    then show ?thesis
      using assms(2) by (elim writeKeyFor_Inr) (auto simp: sweptBy_def isThreadPointer_def
          prefix_def hex_slash_eq hex_not_word hex_not_word [symmetric])
  qed
qed

section \<open>Under the contracts of the storage and the codec\<close>

locale storage_saver = storage ops inv abs pending valid listable
    + codec cdc carries carriesWrite canonical canonicalWrite
  for ops :: "'s storage_ops" and inv abs pending valid listable
    and cdc carries carriesWrite canonical canonicalWrite
    + fixes sv :: "'s storage_saver"
  assumes has_storage: "ss_storage sv = Some ops" and has_codec: "ss_codec sv = Some cdc"
    and has_scope: "ss_scope sv \<noteq> []" and has_pages: "0 < ss_listPageSize sv"
begin

lemma options_ok [simp]: "validateStorageSaverOptions sv = Inr ()"
  by (simp add: validateStorageSaverOptions_def has_storage has_codec has_scope has_pages)

lemma pageQuery_cursor [simp]: "sq_cursor (pageQuery sv pre) = []"
  by (simp add: pageQuery_def)

lemma orun_get: "inv s \<Longrightarrow> valid s k \<Longrightarrow>
    \<exists>r. orun (st_get (storageOf sv) k) s = Some (Inr r, s) \<and> map_option si_value r = abs s k"
  using get_valid [of s k] by (auto simp: orun_def has_storage)

text \<open>What a successful put has stored.\<close>

lemma put_stores:
  assumes "inv s" and "SS_put sv c s = Some (Inr u, s')" and "cd_encode cdc c = Inr p"
  obtains key pointer where "keyFor sv (cp_threadId c) (cp_ns c) (cp_checkpointId c) = Inr key"
    and "latestPointerKeyFor sv (cp_threadId c) (cp_ns c) = Inr pointer"
    and "inv s'" and "valid s' key" and "listable s' = listable s" and "abs s key = None"
    and "abs s' = (abs s)(key \<mapsto> ss_dump sv (wrapPayload p), pointer \<mapsto> cp_checkpointId c)"
proof -
  have "validateCheckpointForStore c = Inr ()"
    using assms(2) by (cases "validateCheckpointForStore c") (auto simp: SS_put_def)
  then have ids: "cp_threadId c \<noteq> []" "cp_checkpointId c \<noteq> []"
    by (auto simp: validateCheckpointForStore_def split: if_splits)
  obtain key where key: "keyFor sv (cp_threadId c) (cp_ns c) (cp_checkpointId c) = Inr key"
    using ids by (auto simp: keyFor_Inr)
  obtain pointer where ptr: "latestPointerKeyFor sv (cp_threadId c) (cp_ns c) = Inr pointer"
    using ids by (auto simp: pointer_Inr)
  have "pl_contentType p \<noteq> []"
    using assms(2,3) \<open>validateCheckpointForStore c = Inr ()\<close> key
    by (auto simp: SS_put_def has_codec storageValueFromPayload_def)
  with assms(2,3) \<open>validateCheckpointForStore c = Inr ()\<close> key ptr
  have run: "obind (orun (st_put ops key (ss_dump sv (wrapPayload p)) (putMode InsertOnly)))
      (\<lambda>_. orun (st_put ops pointer (cp_checkpointId c) (putMode Upsert))) s = Some (Inr u, s')"
    by (simp add: SS_put_def has_storage has_codec storageValueFromPayload_def)
  obtain r s1 where p1: "st_put ops key (ss_dump sv (wrapPayload p)) (putMode InsertOnly) s = (r, s1)"
    by fastforce
  with run obtain v where r: "r = Inr v" by (cases r) (auto simp: obind_def orun_def)
  with run p1 have p2: "st_put ops pointer (cp_checkpointId c) (putMode Upsert) s1 = (Inr u, s')"
    by (simp add: obind_def orun_def)
  note one = put_ok [OF assms(1) p1 [unfolded r]]
  note two = put_ok [OF one [THEN conjunct1] p2]
  show thesis
    using one two by (intro that [OF key ptr]) (auto simp: putMode_def)
qed

lemma readWrites_none:
  assumes "inv s" and pre: "writeKeyPrefixFor t n i = Inr pre" and "listable s (pageQuery sv pre)"
    and "\<And>k. sk_scope k = ss_scope sv \<Longrightarrow> prefix pre (sk_key k) \<Longrightarrow> abs s k = None"
  shows "SS_readWrites sv t n i s = Some (Inr [], s)"
proof -
  have "storageKeyMatchesListOptions k (pageQuery sv pre) \<Longrightarrow> abs s k = None" for k
    using assms(4) pre has_scope
    by (auto simp: storageKeyMatchesListOptions_def pageQuery_def writeKeyPrefixFor_def split: if_splits)
  then have "(\<lambda>it. (si_key it, si_value it)) ` set (pending s (pageQuery sv pre)) = {}"
    using pending_all [OF assms(1), of "pageQuery sv pre"] by (auto simp: pageQuery_def)
  then have "pending s (pageQuery sv pre) = []" by simp
  then have "scanPages (storageOf sv) (decodeWriteItem sv) (pageQuery sv pre) [] s = Some (Inr [], s)"
    by (simp add: has_storage scanPages_all [OF assms(1,3)])
  then show ?thesis by (simp add: SS_readWrites_def pre oret_def)
qed

lemma unwrap_payload:
  assumes "document_fits (ss_dump sv) (ss_parse sv) ''stored checkpoint'' JsonDecodeLimits (wrapPayload p)"
  shows "payloadFromStorageValue (ss_parse sv) (ss_dump sv (wrapPayload p)) = Inr p"
proof -
  have "renumber (wrapPayload p) = wrapPayload p" by (simp add: wrapPayload_def obj_def)
  moreover have "jget (wrapPayload p) ''content_type'' = Some (JStr (pl_contentType p))"
    "jget (wrapPayload p) ''data'' = Some (JStr (pl_data p))" "is_object (wrapPayload p)"
    by (simp_all add: wrapPayload_def jget_obj)
  ultimately show ?thesis
    using parse_dump [OF assms] by (simp add: payloadFromStorageValue_def jhas_def jat_def)
qed

text \<open>A checkpoint that was put is read back in its canonical form.\<close>

lemma put_get:
  assumes inv: "inv s" and put: "SS_put sv c s = Some (Inr u, s')" and c: "carries c"
    and p: "cd_encode cdc c = Inr p"
    and fits: "document_fits (ss_dump sv) (ss_parse sv) ''stored checkpoint'' JsonDecodeLimits (wrapPayload p)"
    and pre: "writeKeyPrefixFor (cp_threadId c) (cp_ns c) (cp_checkpointId c) = Inr pre"
    and listable: "listable s (pageQuery sv pre)"
    and none: "\<And>k. sk_scope k = ss_scope sv \<Longrightarrow> prefix pre (sk_key k) \<Longrightarrow> abs s k = None"
  shows "SS_getTuple jeq sv (CheckpointQuery_at (cp_threadId c) (cp_checkpointId c) (cp_ns c)) s' =
    Some (Inr (Some \<lparr>tu_checkpoint = canonical c,
      tu_pendingWrites = cp_pendingWrites (canonical c)\<rparr>), s')"
proof -
  let ?t = "cp_threadId c" and ?n = "cp_ns c" and ?i = "cp_checkpointId c"
  obtain key pointer where key: "keyFor sv ?t ?n ?i = Inr key"
    and ptr: "latestPointerKeyFor sv ?t ?n = Inr pointer" and inv': "inv s'" and v: "valid s' key"
    and lst: "listable s' = listable s"
    and abs': "abs s' = (abs s)(key \<mapsto> ss_dump sv (wrapPayload p), pointer \<mapsto> ?i)"
    using put_stores [OF inv put p] by metis
  have ids: "?t \<noteq> []" "?i \<noteq> []" using key by (simp_all add: keyFor_Inr)
  have "key \<noteq> pointer" using keyFor_not_pointer [OF key] ptr by blast
  then have stored: "abs s' key = Some (ss_dump sv (wrapPayload p))" by (simp add: abs')
  have "abs s' k = None" if "sk_scope k = ss_scope sv" "prefix pre (sk_key k)" for k
    using none [OF that] that(2) write_prefix_keys(1) [OF pre key] write_prefix_keys(2) [OF pre ptr]
    by (auto simp: abs')
  then have writes: "SS_readWrites sv ?t ?n ?i s' = Some (Inr [], s')"
    using readWrites_none [OF inv' pre, unfolded lst, OF listable] by blast
  obtain item where get: "orun (st_get (storageOf sv) key) s' = Some (Inr (Some item), s')"
    and body: "si_value item = ss_dump sv (wrapPayload p)"
    using orun_get [OF inv' v] stored by auto
  have dec: "cd_decode (codecOf sv) p = Inr (canonical c)"
    using decode_encode [OF c] p by (auto simp: has_codec)
  have "SS_getCheckpoint sv ?t ?i ?n s' = Some (Inr (Some (canonical c)), s')"
    using key get writes unwrap_payload [OF fits]
    by (simp add: SS_getCheckpoint_def body dec oret_def)
  moreover have "cp_threadId (canonical c) = ?t" "cp_ns (canonical c) = ?n" "cp_checkpointId (canonical c) = ?i"
    using canonical_key [of c] by (simp_all add: ckeyOf_def)
  ultimately show ?thesis
    using ids writes by (simp add: SS_getTuple_def CheckpointQuery_at_def validateCheckpointQuery_def oret_def)
qed

text \<open>Removing keys that are there, and everything under a prefix.\<close>

lemma fst_graph: "fst ` {(k, v). f k = Some v \<and> P k} = {k. f k \<noteq> None \<and> P k}"
  by (auto simp: image_iff)

lemma removeKeys_all:
  assumes "inv s" and "\<forall>k \<in> set keys. valid s k"
  shows "\<exists>s'. removeKeys sv keys s = Some (Inr (), s') \<and> inv s' \<and>
    abs s' = (\<lambda>k. if k \<in> set keys then None else abs s k) \<and> valid s' = valid s \<and> listable s' = listable s"
  using assms
proof (induction keys arbitrary: s)
  case (Cons k keys)
  obtain s1 where s1: "st_remove ops k s = (Inr (), s1)" "inv s1" "abs s1 = (abs s)(k := None)"
    "valid s1 = valid s" "listable s1 = listable s"
    using remove_valid [of s k] Cons.prems by auto
  obtain s' where "removeKeys sv keys s1 = Some (Inr (), s')" "inv s'"
    "abs s' = (\<lambda>k. if k \<in> set keys then None else abs s1 k)" "valid s' = valid s1" "listable s' = listable s1"
    using Cons.IH [OF s1(2)] Cons.prems s1(4) by auto
  with s1 show ?case by (auto simp: removeKeys_def orun_def has_storage fun_eq_iff)
qed (simp add: removeKeys_def oret_def)

lemma foldM_collectKey:
  "foldM_result (collectKey P) keys items = Inr (keys @ filter P (map si_key items))"
  by (induction items arbitrary: keys) (simp_all add: collectKey_def)

lemma removeUnder_all:
  assumes "inv s" and "listable s (pageQuery sv pre)" and "pre \<noteq> []"
  shows "\<exists>s'. removeUnder sv pre P s = Some (Inr (), s') \<and> inv s' \<and> valid s' = valid s \<and>
    listable s' = listable s \<and>
    abs s' = (\<lambda>k. if sk_scope k = ss_scope sv \<and> prefix pre (sk_key k) \<and> P k then None else abs s k)"
proof -
  define keys where "keys = filter P (map si_key (pending s (pageQuery sv pre)))"
  have scan: "scanPages (storageOf sv) (collectKey P) (pageQuery sv pre) [] s = Some (Inr keys, s)"
    by (simp add: has_storage scanPages_all [OF assms(1,2)] foldM_collectKey keys_def)
  have match: "storageKeyMatchesListOptions k (pageQuery sv pre) \<longleftrightarrow>
      sk_scope k = ss_scope sv \<and> prefix pre (sk_key k)" for k
    using has_scope assms(3) by (simp add: storageKeyMatchesListOptions_def pageQuery_def)
  have "si_key ` set (pending s (pageQuery sv pre)) =
      fst ` ((\<lambda>it. (si_key it, si_value it)) ` set (pending s (pageQuery sv pre)))"
    by (simp add: image_image)
  also have "\<dots> = {k. abs s k \<noteq> None \<and> sk_scope k = ss_scope sv \<and> prefix pre (sk_key k)}"
    using pending_all [OF assms(1), of "pageQuery sv pre"] by (simp add: match fst_graph)
  finally have keys: "set keys = {k. abs s k \<noteq> None \<and> sk_scope k = ss_scope sv \<and> prefix pre (sk_key k) \<and> P k}"
    by (auto simp: keys_def)
  then have "\<forall>k \<in> set keys. valid s k" using abs_valid [OF assms(1)] by simp
  then obtain s' where s': "removeKeys sv keys s = Some (Inr (), s')" "inv s'"
    "abs s' = (\<lambda>k. if k \<in> set keys then None else abs s k)" "valid s' = valid s" "listable s' = listable s"
    using removeKeys_all [OF assms(1)] by blast
  have "abs s' = (\<lambda>k. if sk_scope k = ss_scope sv \<and> prefix pre (sk_key k) \<and> P k then None else abs s k)"
    unfolding s'(3) keys by auto
  with s' scan show ?thesis by (auto simp: removeUnder_def)
qed

text \<open>Deleting a thread removes what the thread owns, and nothing of another thread.\<close>

lemma deleteThread_sweeps:
  assumes inv: "inv s" and t: "t \<noteq> []"
    and "listable s (pageQuery sv (hexEncode t @ ''/''))"
    and "listable s (pageQuery sv (''latest/'' @ hexEncode t))"
    and "listable s (pageQuery sv (''writes/'' @ hexEncode t @ ''/''))"
  shows "\<exists>s'. SS_deleteThread sv t s = Some (Inr (), s') \<and> inv s' \<and>
    abs s' = (\<lambda>k. if sweptBy sv t k then None else abs s k)"
proof -
  obtain s1 where s1: "removeUnder sv (hexEncode t @ ''/'') (\<lambda>_. True) s = Some (Inr (), s1)" "inv s1"
    "listable s1 = listable s"
    "abs s1 = (\<lambda>k. if sk_scope k = ss_scope sv \<and> prefix (hexEncode t @ ''/'') (sk_key k) then None else abs s k)"
    using removeUnder_all [OF inv assms(3), of "\<lambda>_. True"] by auto
  obtain s2 where s2: "removeUnder sv (''latest/'' @ hexEncode t) (isThreadPointer (''latest/'' @ hexEncode t)) s1
      = Some (Inr (), s2)" "inv s2" "listable s2 = listable s"
    "abs s2 = (\<lambda>k. if sk_scope k = ss_scope sv \<and> prefix (''latest/'' @ hexEncode t) (sk_key k) \<and>
      isThreadPointer (''latest/'' @ hexEncode t) k then None else abs s1 k)"
    using removeUnder_all [OF s1(2), of "''latest/'' @ hexEncode t"] s1(3) assms(4) by auto
  obtain s3 where s3: "removeUnder sv (''writes/'' @ hexEncode t @ ''/'') (\<lambda>_. True) s2 = Some (Inr (), s3)" "inv s3"
    "abs s3 = (\<lambda>k. if sk_scope k = ss_scope sv \<and> prefix (''writes/'' @ hexEncode t @ ''/'') (sk_key k)
      then None else abs s2 k)"
    using removeUnder_all [OF s2(2), of "''writes/'' @ hexEncode t @ ''/''" "\<lambda>_. True"] s2(3) assms(5) by auto
  have "SS_deleteThread sv t s = Some (Inr (), s3)"
    using t s1(1) s2(1) s3(1) by (simp add: SS_deleteThread_def keyPrefixFor_def nsPart_def
        SS_removeThreadWrites_def)
  moreover have "isThreadPointer pre k \<Longrightarrow> prefix pre (sk_key k)" for pre k
    by (auto simp: isThreadPointer_def dest: append_prefixD)
  then have "abs s3 = (\<lambda>k. if sweptBy sv t k then None else abs s k)"
    by (auto simp: s3(3) s2(4) s1(4) sweptBy_def fun_eq_iff)
  ultimately show ?thesis using s3(2) by blast
qed

lemma deleteThread_exact_keys:
  assumes "inv s" and "t \<noteq> []"
    and "listable s (pageQuery sv (hexEncode t @ ''/''))"
    and "listable s (pageQuery sv (''latest/'' @ hexEncode t))"
    and "listable s (pageQuery sv (''writes/'' @ hexEncode t @ ''/''))"
  shows "\<exists>s'. SS_deleteThread sv t s = Some (Inr (), s') \<and> inv s' \<and>
    (\<forall>k. ownedBy sv t k \<longrightarrow> abs s' k = None) \<and>
    (\<forall>t' k. t' \<noteq> t \<longrightarrow> ownedBy sv t' k \<longrightarrow> abs s' k = abs s k)"
  using deleteThread_sweeps [OF assms] ownedBy_swept [of sv t] not_swept_by_other [of sv _ _ t] by fastforce

text \<open>
  The wrapped payload is one JSON string, and reading it back is subject to the default limit on
  strings: a payload above that limit is stored, but neither its checkpoint nor the latest
  checkpoint of its thread can be read any more.
\<close>

lemma large_payload_refused:
  assumes "ss_parse sv (ss_dump sv (wrapPayload p)) = Inr (wrapPayload p)"
    and "1024 * 1024 < length (pl_data p)"
  shows "\<exists>e. payloadFromStorageValue (ss_parse sv) (ss_dump sv (wrapPayload p)) = Inl e \<and>
    st_code e = ResourceExhausted"
proof -
  let ?text = "ss_dump sv (wrapPayload p)" and ?lim = JsonDecodeLimits
  have over: "\<not> isOk (validateJsonValueLimits (wrapPayload p) l ?lim)" for l
    using assms(2) by (auto simp: validateJsonValueLimits_ok wrapPayload_def obj_def JsonDecodeLimits_def
        exceedsJsonLimit_def)
  then have "st_code (validateJsonValueLimits (wrapPayload p) l ?lim) = ResourceExhausted" for l
    using validateLoop_code [of ?lim l 0 "[wrapPayload p]"] by (auto simp: validateJsonValueLimits_def isOk_def)
  moreover have "\<not> isOk (validateJsonTextLimits ?text l ?lim) \<Longrightarrow>
      st_code (validateJsonTextLimits ?text l ?lim) = ResourceExhausted" for l
    using textLimits_code [of ?text l ?lim] by (auto simp: isOk_def)
  ultimately show ?thesis
    using assms(1) over by (auto simp: payloadFromStorageValue_def parseJsonWithLimits_def Let_def)
qed

lemma large_put_unreadable:
  assumes inv: "inv s" and put: "SS_put sv c s = Some (Inr u, s')" and p: "cd_encode cdc c = Inr p"
    and "ss_parse sv (ss_dump sv (wrapPayload p)) = Inr (wrapPayload p)"
    and "1024 * 1024 < length (pl_data p)"
  shows "\<exists>e. st_code e = ResourceExhausted \<and>
    SS_getTuple jeq sv (CheckpointQuery_at (cp_threadId c) (cp_checkpointId c) (cp_ns c)) s' = Some (Inl e, s') \<and>
    SS_getTuple jeq sv (CheckpointQuery_latest (cp_threadId c) (cp_ns c)) s' = Some (Inl e, s')"
proof -
  let ?t = "cp_threadId c" and ?n = "cp_ns c" and ?i = "cp_checkpointId c"
  obtain key pointer where key: "keyFor sv ?t ?n ?i = Inr key"
    and ptr: "latestPointerKeyFor sv ?t ?n = Inr pointer" and inv': "inv s'" and v: "valid s' key"
    and abs': "abs s' = (abs s)(key \<mapsto> ss_dump sv (wrapPayload p), pointer \<mapsto> ?i)"
    using put_stores [OF inv put p] by metis
  obtain e where e: "payloadFromStorageValue (ss_parse sv) (ss_dump sv (wrapPayload p)) = Inl e"
    "st_code e = ResourceExhausted"
    using large_payload_refused [OF assms(4,5)] by blast
  have ids: "?t \<noteq> []" "?i \<noteq> []" using key by (simp_all add: keyFor_Inr)
  have "key \<noteq> pointer" using keyFor_not_pointer [OF key] ptr by blast
  then have "abs s' key = Some (ss_dump sv (wrapPayload p))" by (simp add: abs')
  then have at: "SS_getCheckpoint sv ?t ?i ?n s' = Some (Inl e, s')"
    using orun_get [OF inv' v] key e(1) by (auto simp: SS_getCheckpoint_def)
  have there: "abs s' pointer = Some ?i" by (simp add: abs')
  then have "valid s' pointer" using abs_valid [OF inv', of pointer] by simp
  with there obtain item where "orun (st_get (storageOf sv) pointer) s' = Some (Inr (Some item), s')"
    "si_value item = ?i"
    using orun_get [OF inv'] by fastforce
  then have "SS_getLatestCheckpoint jeq sv ?t ?n s' = Some (Inl e, s')"
    using ptr at by (simp add: SS_getLatestCheckpoint_def)
  with at ids e(2) show ?thesis
    by (auto simp: SS_getTuple_def CheckpointQuery_at_def CheckpointQuery_latest_def validateCheckpointQuery_def)
qed

end

section \<open>The saver on the memory storage with the JSON codec\<close>

definition StorageSaver ::
  "'s storage_ops \<Rightarrow> (json \<Rightarrow> string) \<Rightarrow> json_parser \<Rightarrow> json_limits \<Rightarrow> 's storage_saver" where
  "StorageSaver ops dump parse lim =
     \<lparr>ss_storage = Some ops, ss_scope = ''langgraph/checkpoints'',
      ss_codec = Some (JsonCheckpointCodec dump parse lim), ss_listPageSize = 100,
      ss_dump = dump, ss_parse = parse\<rparr>"

interpretation mss: storage_saver memory_ops storage_wf storage_abs storage_pending storage_valid
  storage_listable "JsonCheckpointCodec dump parse lim" "json_carries dump parse lim"
  "json_carriesWrite dump parse lim" rereadCheckpoint rereadWrite "StorageSaver memory_ops dump parse lim"
  for dump parse lim
  by unfold_locales (simp_all add: StorageSaver_def)

text \<open>The payload of a checkpoint and the text that is stored for it.\<close>

definition jsonPayload :: "(json \<Rightarrow> string) \<Rightarrow> Checkpoint \<Rightarrow> payload" where
  "jsonPayload dump c =
     \<lparr>pl_contentType = kCheckpointJsonContentType, pl_data = dump (checkpointToJson c)\<rparr>"

definition storedText :: "(json \<Rightarrow> string) \<Rightarrow> Checkpoint \<Rightarrow> string" where
  "storedText dump c = dump (wrapPayload (jsonPayload dump c))"

lemma encode_jsonPayload:
  "validateCheckpoint c = Inr () \<Longrightarrow>
     cd_encode (JsonCheckpointCodec dump parse lim) c = Inr (jsonPayload dump c)"
  by (simp add: JsonCheckpointCodec_def JsonCheckpointCodec_encode_def jsonPayload_def)

lemma SS_put_memory:
  assumes "validateCheckpoint c = Inr ()"
    and key: "keyFor (StorageSaver memory_ops dump parse lim) (cp_threadId c) (cp_ns c) (cp_checkpointId c) = Inr key"
    and ptr: "latestPointerKeyFor (StorageSaver memory_ops dump parse lim) (cp_threadId c) (cp_ns c) = Inr pointer"
  shows "SS_put (StorageSaver memory_ops dump parse lim) c s =
    obind (orun (MemoryStorage_put key (storedText dump c) (putMode InsertOnly)))
      (\<lambda>_. orun (MemoryStorage_put pointer (cp_checkpointId c) (putMode Upsert))) s"
proof -
  let ?sv = "StorageSaver memory_ops dump parse lim"
  have sv: "validateStorageSaverOptions ?sv = Inr ()" "storageOf ?sv = memory_ops"
    "codecOf ?sv = JsonCheckpointCodec dump parse lim" "ss_dump ?sv = dump"
    "st_put memory_ops = MemoryStorage_put"
    by (simp_all add: StorageSaver_def validateStorageSaverOptions_def memory_ops_def)
  have ids: "cp_threadId c \<noteq> []" "cp_checkpointId c \<noteq> []" using key by (simp_all add: keyFor_Inr)
  show ?thesis
    using ids by (simp add: SS_put_def sv key ptr encode_jsonPayload [OF assms(1)]
        validateCheckpointForStore_def storageValueFromPayload_def storedText_def)
      (simp add: jsonPayload_def kCheckpointJsonContentType_def)
qed

lemma omap_put_length: "map_of m k = None \<Longrightarrow> length (omap_put k v m) = Suc (length m)"
  by (induction k v m rule: omap_put.induct) (auto split: if_splits)

text \<open>Room for some more items; a limit of zero is no limit.\<close>

definition storageRoom :: "memory_storage \<Rightarrow> nat \<Rightarrow> bool" where
  "storageRoom s n \<longleftrightarrow>
     sl_maxItems (ms_limits s) = 0 \<or> length (ms_items s) + n \<le> sl_maxItems (ms_limits s)"

lemma memory_put_new:
  assumes wf: "storage_wf s" and "storage_valid s key" and fresh: "storage_abs s key = None"
    and "mode \<noteq> ReplaceOnly" and "isOk (validateStorageValue txt (ms_limits s))" and "storageRoom s 1"
  obtains s' where "MemoryStorage_put key txt (putMode mode) s = (Inr (), s')" and "storage_wf s'"
    and "storage_abs s' = (storage_abs s)(key \<mapsto> txt)" and "ms_limits s' = ms_limits s"
    and "length (ms_items s') = length (ms_items s) + 1" and "storage_valid s' = storage_valid s"
    and "ms_items s' = omap_put (toMapKey key) (itemToStore key txt None (ms_now s)) (ms_items s)"
proof -
  have none: "map_of (ms_items s) (toMapKey key) = None" using fresh by (simp add: storage_abs_def)
  define s' where "s' = s\<lparr>ms_items := omap_put (toMapKey key) (itemToStore key txt None (ms_now s)) (ms_items s)\<rparr>"
  have put: "MemoryStorage_put key txt (putMode mode) s = (Inr (), s')"
    using assms none by (auto simp: MemoryStorage_put_def Let_def storage_valid_def storageRoom_def
        validateStoragePutOptions_def putMode_def checkPut_def s'_def storage_wf_def ensureOpenLocked_def)
  with memory_put_wf [OF wf put] none show thesis
    by (intro that [OF put]) (simp_all add: s'_def omap_put_length)
qed

lemma memory_put_over:
  assumes "storage_wf s" and "storage_valid s key" and "map_of (ms_items s) (toMapKey key) = Some item"
    and "si_version item + 1 \<noteq> 0" and "isOk (validateStorageValue txt (ms_limits s))"
  shows "fst (MemoryStorage_put key txt (putMode Upsert) s) = Inr ()"
  using assms by (simp add: MemoryStorage_put_def Let_def storage_valid_def
      validateStoragePutOptions_def putMode_def checkPut_def storage_wf_def ensureOpenLocked_def)

lemma memory_put_full:
  assumes "storage_wf s" and "storage_valid s key" and "storage_abs s key = None"
    and "mode \<noteq> ReplaceOnly" and "isOk (validateStorageValue txt (ms_limits s))" and "\<not> storageRoom s 1"
  shows "MemoryStorage_put key txt (putMode mode) s =
    (err ResourceExhausted ''memory storage item limit exceeded'', s)"
  using assms by (simp add: MemoryStorage_put_def Let_def storage_valid_def storage_abs_def storageRoom_def
      validateStoragePutOptions_def putMode_def checkPut_def storage_wf_def ensureOpenLocked_def)

lemma memory_put_present:
  assumes "storage_wf s" and "storage_valid s key" and "storage_abs s key \<noteq> None"
    and "isOk (validateStorageValue txt (ms_limits s))"
  shows "MemoryStorage_put key txt (putMode InsertOnly) s =
    (err AlreadyExists ''storage item already exists'', s)"
  using assms by (simp add: MemoryStorage_put_def Let_def storage_valid_def storage_abs_def
      validateStoragePutOptions_def putMode_def checkPut_def storage_wf_def ensureOpenLocked_def)

text \<open>
  A new checkpoint whose keys and texts the storage accepts.  Its thread may have checkpoints
  already; then the item of the latest pointer is there and must not be at its last version.
\<close>

definition newCheckpoint ::
  "(json \<Rightarrow> string) \<Rightarrow> json_parser \<Rightarrow> json_limits \<Rightarrow> memory_storage \<Rightarrow> Checkpoint \<Rightarrow>
   storage_key \<Rightarrow> storage_key \<Rightarrow> bool" where
  "newCheckpoint dump parse lim s c key pointer \<longleftrightarrow>
     storage_wf s \<and> validateCheckpoint c = Inr () \<and>
     keyFor (StorageSaver memory_ops dump parse lim) (cp_threadId c) (cp_ns c) (cp_checkpointId c) = Inr key \<and>
     latestPointerKeyFor (StorageSaver memory_ops dump parse lim) (cp_threadId c) (cp_ns c) = Inr pointer \<and>
     storage_valid s key \<and> storage_valid s pointer \<and> storage_abs s key = None \<and>
     (case map_of (ms_items s) (toMapKey pointer) of None \<Rightarrow> True | Some item \<Rightarrow> si_version item + 1 \<noteq> 0) \<and>
     isOk (validateStorageValue (storedText dump c) (ms_limits s)) \<and>
     isOk (validateStorageValue (cp_checkpointId c) (ms_limits s))"

lemma put_first_item:
  assumes "newCheckpoint dump parse lim s c key pointer" and "storageRoom s 1"
  obtains s' where "SS_put (StorageSaver memory_ops dump parse lim) c s =
      Some (MemoryStorage_put pointer (cp_checkpointId c) (putMode Upsert) s')"
    and "storage_wf s'" and "storage_abs s' key \<noteq> None"
    and "map_of (ms_items s') (toMapKey pointer) = map_of (ms_items s) (toMapKey pointer)"
    and "ms_limits s' = ms_limits s" and "length (ms_items s') = length (ms_items s) + 1"
    and "storage_valid s' = storage_valid s"
proof -
  note new = assms(1) [unfolded newCheckpoint_def]
  have "key \<noteq> pointer" using keyFor_not_pointer new by metis
  obtain s' where s': "MemoryStorage_put key (storedText dump c) (putMode InsertOnly) s = (Inr (), s')"
    "storage_wf s'" "storage_abs s' = (storage_abs s)(key \<mapsto> storedText dump c)"
    "ms_limits s' = ms_limits s" "length (ms_items s') = length (ms_items s) + 1"
    "storage_valid s' = storage_valid s"
    "ms_items s' = omap_put (toMapKey key) (itemToStore key (storedText dump c) None (ms_now s)) (ms_items s)"
    using memory_put_new [of s key InsertOnly "storedText dump c"] new assms(2) by auto
  show thesis
  proof (rule that [of s'])
    show "SS_put (StorageSaver memory_ops dump parse lim) c s =
        Some (MemoryStorage_put pointer (cp_checkpointId c) (putMode Upsert) s')"
      using SS_put_memory [of c dump parse lim key pointer s] new s'(1) by (simp add: obind_def orun_def)
  qed (use s' \<open>key \<noteq> pointer\<close> in simp_all)
qed

text \<open>The first checkpoint of a thread takes two items, each other one.\<close>

lemma put_succeeds:
  assumes "newCheckpoint dump parse lim s c key pointer"
    and room: "storageRoom s (if storage_abs s pointer = None then 2 else 1)"
  shows "\<exists>s'. SS_put (StorageSaver memory_ops dump parse lim) c s = Some (Inr (), s')"
proof -
  note new = assms(1) [unfolded newCheckpoint_def]
  have "storageRoom s 1" using room by (auto simp: storageRoom_def split: if_splits)
  then obtain s1 where s1: "SS_put (StorageSaver memory_ops dump parse lim) c s =
      Some (MemoryStorage_put pointer (cp_checkpointId c) (putMode Upsert) s1)"
    "storage_wf s1" "map_of (ms_items s1) (toMapKey pointer) = map_of (ms_items s) (toMapKey pointer)"
    "ms_limits s1 = ms_limits s" "length (ms_items s1) = length (ms_items s) + 1" "storage_valid s1 = storage_valid s"
    using put_first_item [OF assms(1)] by metis
  have "fst (MemoryStorage_put pointer (cp_checkpointId c) (putMode Upsert) s1) = Inr ()"
  proof (cases "map_of (ms_items s) (toMapKey pointer)")
    case None
    then have none: "storage_abs s pointer = None" "storage_abs s1 pointer = None"
      using s1(3) by (simp_all add: storage_abs_def)
    with room s1(4,5) have "storageRoom s1 1" by (simp add: storageRoom_def)
    with none obtain s2 where "MemoryStorage_put pointer (cp_checkpointId c) (putMode Upsert) s1 = (Inr (), s2)"
      using memory_put_new [of s1 pointer Upsert "cp_checkpointId c"] s1 new by auto
    then show ?thesis by simp
  next
    case (Some item)
    then show ?thesis using memory_put_over [OF s1(2)] s1(3,4,6) new by simp
  qed
  with s1(1) show ?thesis by (metis prod.collapse)
qed

text \<open>
  A put writes two items.  When the second does not fit, the put fails but the checkpoint stays,
  and trying again is refused because the checkpoint exists.
\<close>

lemma put_pointer_refused:
  assumes new: "newCheckpoint dump parse lim s c key pointer" and first: "storage_abs s pointer = None"
    and room: "sl_maxItems (ms_limits s) = length (ms_items s) + 1"
  shows "\<exists>s'. SS_put (StorageSaver memory_ops dump parse lim) c s =
      Some (err ResourceExhausted ''memory storage item limit exceeded'', s') \<and>
    storage_abs s' key \<noteq> None \<and>
    SS_put (StorageSaver memory_ops dump parse lim) c s' =
      Some (err AlreadyExists ''storage item already exists'', s')"
proof -
  have "storageRoom s 1" using room by (simp add: storageRoom_def)
  then obtain s1 where s1: "SS_put (StorageSaver memory_ops dump parse lim) c s =
      Some (MemoryStorage_put pointer (cp_checkpointId c) (putMode Upsert) s1)"
    "storage_wf s1" "storage_abs s1 key \<noteq> None"
    "map_of (ms_items s1) (toMapKey pointer) = map_of (ms_items s) (toMapKey pointer)"
    "ms_limits s1 = ms_limits s" "length (ms_items s1) = length (ms_items s) + 1"
    "storage_valid s1 = storage_valid s"
    using put_first_item [OF new] by metis
  have "storage_abs s1 pointer = None" "\<not> storageRoom s1 1"
    using first s1(4-6) room by (simp_all add: storage_abs_def storageRoom_def)
  then have two: "MemoryStorage_put pointer (cp_checkpointId c) (putMode Upsert) s1 =
      (err ResourceExhausted ''memory storage item limit exceeded'', s1)"
    using memory_put_full [of s1 pointer Upsert "cp_checkpointId c"] s1 new
    by (simp add: newCheckpoint_def)
  have "MemoryStorage_put key (storedText dump c) (putMode InsertOnly) s1 =
      (err AlreadyExists ''storage item already exists'', s1)"
    using memory_put_present [of s1 key "storedText dump c"] s1 new by (simp add: newCheckpoint_def)
  then have "SS_put (StorageSaver memory_ops dump parse lim) c s1 =
      Some (err AlreadyExists ''storage item already exists'', s1)"
    using SS_put_memory [of c dump parse lim key pointer s1] new
    by (simp add: newCheckpoint_def obind_def orun_def)
  with s1 two show ?thesis by auto
qed

end
