(* ===== verification/Service_Samples.thy ===== *)
theory Service_Samples
  imports Rate_Limit Circuit_Breaker Sse_Parser Storage_Saver
    "HOL-Library.Code_Target_Nat" "HOL-Library.Code_Target_Int"
begin

text \<open>
  The concrete storages, checkpoints and documents on which the properties of the services are
  evaluated.
\<close>

section \<open>Storages\<close>

definition sampleKey :: "string \<Rightarrow> storage_key" where
  "sampleKey k = \<lparr>sk_scope = ''docs'', sk_key = k\<rparr>"

definition sampleStorage :: memory_storage where
  "sampleStorage = fold (\<lambda>k s. snd (MemoryStorage_put (sampleKey k) ''text'' (putMode InsertOnly) s))
     [''b/1'', ''a/2'', ''a/1'', ''a/3''] (MemoryStorage StorageLimits 7)"

definition sampleQuery :: storage_query where
  "sampleQuery = \<lparr>sq_scope = ''docs'', sq_keyPrefix = ''a/'', sq_limit = 2, sq_cursor = []\<rparr>"

definition freshStorage :: memory_storage where
  "freshStorage = MemoryStorage StorageLimits 7"

definition storedKey :: storage_key where
  "storedKey = \<lparr>sk_scope = ''langgraph/checkpoints'', sk_key = ''74/ns/6e/6331''\<rparr>"

definition storedPointer :: storage_key where
  "storedPointer = \<lparr>sk_scope = ''langgraph/checkpoints'', sk_key = ''latest/74/ns/6e''\<rparr>"

definition otherPointer :: storage_key where
  "otherPointer = \<lparr>sk_scope = ''langgraph/checkpoints'', sk_key = ''latest/7474''\<rparr>"

text \<open>The pointers of the thread \<^verbatim>\<open>t\<close> and of the thread \<^verbatim>\<open>tt\<close>.\<close>

definition twoThreads :: memory_storage where
  "twoThreads = snd (MemoryStorage_put otherPointer ''c9'' (putMode Upsert)
     (snd (MemoryStorage_put storedPointer ''c1'' (putMode Upsert) freshStorage)))"

definition usedStorage :: memory_storage where
  "usedStorage = snd (MemoryStorage_put storedPointer ''c0'' (putMode Upsert) freshStorage)"

definition oneItemStorage :: memory_storage where
  "oneItemStorage = MemoryStorage (StorageLimits\<lparr>sl_maxItems := 1\<rparr>) 7"

section \<open>Documents\<close>

text \<open>A document printer and a parser that knows a list of documents.\<close>

definition quoted :: "string \<Rightarrow> string" where
  "quoted s = [CHR 0x22] @ concat (map (\<lambda>ch. if ch = CHR 0x22 \<or> ch = CHR 0x5C then [CHR 0x5C, ch] else [ch]) s)
     @ [CHR 0x22]"

fun separated :: "string list \<Rightarrow> string" where
  "separated [] = []"
| "separated [x] = x"
| "separated (x # y # zs) = x @ '','' @ separated (y # zs)"

fun sampleDump :: "json \<Rightarrow> string" where
  "sampleDump JNull = ''null''"
| "sampleDump (JBool b) = (if b then ''true'' else ''false'')"
| "sampleDump (JInt w) = (if 0 \<le> sint w then to_string (nat (sint w)) else ''-'' @ to_string (nat (- sint w)))"
| "sampleDump (JUint w) = to_string (unat w)"
| "sampleDump (JFloat w) = ''0.0''"
| "sampleDump (JStr s) = quoted s"
| "sampleDump (JArr xs) = ''['' @ separated (map sampleDump xs) @ '']''"
| "sampleDump (JObj m) = ''{'' @ separated (map (\<lambda>(k, v). quoted k @ '':'' @ sampleDump v) m) @ ''}''"

definition knowing :: "json list \<Rightarrow> json_parser" where
  "knowing docs text =
     (case find (\<lambda>d. sampleDump d = text) docs of None \<Rightarrow> Inl ''parse error'' | Some d \<Rightarrow> Inr (renumber d))"

definition storedWrite :: CheckpointWrite where
  "storedWrite = \<lparr>cw_taskId = ''t1'', cw_taskPath = [], cw_nodeId = ''a'', cw_ns = [],
     cw_update = obj [(''x'', JUint 1)], cw_order = Some 0, cw_hasNextTasks = False,
     cw_nextTasks = [], cw_metadata = JObj []\<rparr>"

definition storedCheckpoint :: Checkpoint where
  "storedCheckpoint = \<lparr>cp_threadId = ''t'', cp_checkpointId = ''c1'', cp_ns = ''n'', cp_parent = Some ''c0'',
     cp_step = 4, cp_state = obj [(''seen'', JStr ''yes''), (''n'', JInt 3)], cp_nextNodes = [''b''],
     cp_nextTasks = [plainTask ''b''], cp_writes = [storedWrite], cp_pendingWrites = [],
     cp_channelVersions = JObj [], cp_versionsSeen = JObj [], cp_updatedChannels = [''x''],
     cp_metadata = obj [(''source'', JStr ''loop'')], cp_createdAt = 1700000000123456789\<rparr>"

definition sampleParse :: json_parser where
  "sampleParse = knowing [checkpointToJson storedCheckpoint,
     wrapPayload (jsonPayload sampleDump storedCheckpoint)]"

lemma known_first: "knowing (d # docs) (sampleDump d) = Inr (renumber d)"
  by (simp add: knowing_def)

lemma known_second:
  "sampleDump d \<noteq> sampleDump e \<Longrightarrow> knowing [d, e] (sampleDump e) = Inr (renumber e)"
  by (simp add: knowing_def)

lemma short_document:
  "(let doc = sampleDump v in length doc \<le> 1048576 \<and> length (filter opensNesting doc) \<le> 64) \<Longrightarrow>
     isOk (validateJsonTextLimits (sampleDump v) label JsonDecodeLimits)"
  by (rule short_text_ok) (simp_all add: JsonDecodeLimits_def Let_def)

definition wrappedCheckpoint :: json where
  "wrappedCheckpoint = wrapPayload (jsonPayload sampleDump storedCheckpoint)"

lemma storedCheckpoint_short:
  "let doc = sampleDump (checkpointToJson storedCheckpoint) in
     length doc \<le> 1048576 \<and> length (filter opensNesting doc) \<le> 64"
  by code_simp

lemma wrappedCheckpoint_short:
  "let doc = sampleDump wrappedCheckpoint in length doc \<le> 1048576 \<and> length (filter opensNesting doc) \<le> 64"
  by code_simp

lemma storedCheckpoint_values:
  "isOk (validateJsonValueLimits (checkpointToJson storedCheckpoint) ''checkpoint'' JsonDecodeLimits)"
  by code_simp

lemma wrappedCheckpoint_values:
  "isOk (validateJsonValueLimits wrappedCheckpoint ''stored checkpoint'' JsonDecodeLimits)"
  by code_simp

lemma documents_differ: "take 5 (sampleDump (checkpointToJson storedCheckpoint)) \<noteq> take 5 (sampleDump wrappedCheckpoint)"
  by code_simp

lemma storedCheckpoint_fits:
  "document_fits sampleDump sampleParse ''checkpoint'' JsonDecodeLimits (checkpointToJson storedCheckpoint)"
  "document_fits sampleDump sampleParse ''stored checkpoint'' JsonDecodeLimits wrappedCheckpoint"
proof -
  have "sampleDump (checkpointToJson storedCheckpoint) \<noteq> sampleDump wrappedCheckpoint"
    using documents_differ by auto
  then have "rereads sampleDump sampleParse (checkpointToJson storedCheckpoint)"
    "rereads sampleDump sampleParse wrappedCheckpoint"
    by (simp_all add: rereads_def sampleParse_def known_first known_second flip: wrappedCheckpoint_def)
  with short_document [OF storedCheckpoint_short] short_document [OF wrappedCheckpoint_short]
    storedCheckpoint_values wrappedCheckpoint_values
  show "document_fits sampleDump sampleParse ''checkpoint'' JsonDecodeLimits (checkpointToJson storedCheckpoint)"
    "document_fits sampleDump sampleParse ''stored checkpoint'' JsonDecodeLimits wrappedCheckpoint"
    by (simp_all add: document_fits_def)
qed

lemma storedCheckpoint_carried: "json_carries sampleDump sampleParse JsonDecodeLimits storedCheckpoint"
proof -
  have "validateCheckpoint storedCheckpoint = Inr ()" "checkpoint_typed storedCheckpoint" by code_simp+
  with storedCheckpoint_fits(1) show ?thesis by (simp add: json_carries_def)
qed

text \<open>The keys of the stored checkpoint, whatever the codec.\<close>

lemma storedCheckpoint_keys:
  "keyFor (StorageSaver memory_ops dump parse lim) (cp_threadId storedCheckpoint) (cp_ns storedCheckpoint)
     (cp_checkpointId storedCheckpoint) = Inr storedKey"
  "latestPointerKeyFor (StorageSaver memory_ops dump parse lim) (cp_threadId storedCheckpoint)
     (cp_ns storedCheckpoint) = Inr storedPointer"
  "writeKeyPrefixFor (cp_threadId storedCheckpoint) (cp_ns storedCheckpoint)
     (cp_checkpointId storedCheckpoint) = Inr ''writes/74/ns/6e/checkpoint/6331/''"
  by code_simp+

lemma storedCheckpoint_new:
  assumes "length (storedText dump storedCheckpoint) \<le> 67108864"
  shows "newCheckpoint dump parse lim freshStorage storedCheckpoint storedKey storedPointer"
    and "newCheckpoint dump parse lim oneItemStorage storedCheckpoint storedKey storedPointer"
    and "newCheckpoint dump parse lim usedStorage storedCheckpoint storedKey storedPointer"
proof -
  have "storage_wf freshStorage" "storage_wf oneItemStorage" "storage_wf usedStorage"
    "validateCheckpoint storedCheckpoint = Inr ()"
    "storage_valid freshStorage storedKey" "storage_valid freshStorage storedPointer"
    "storage_valid oneItemStorage storedKey" "storage_valid oneItemStorage storedPointer"
    "storage_valid usedStorage storedKey" "storage_valid usedStorage storedPointer"
    "storage_abs freshStorage storedKey = None" "storage_abs oneItemStorage storedKey = None"
    "storage_abs usedStorage storedKey = None"
    "sl_maxValueBytes (ms_limits freshStorage) = 67108864" "sl_maxValueBytes (ms_limits oneItemStorage) = 67108864"
    "sl_maxValueBytes (ms_limits usedStorage) = 67108864" "length (cp_checkpointId storedCheckpoint) \<le> 67108864"
    by code_simp+
  moreover have "ms_items freshStorage = []" "ms_items oneItemStorage = []" by code_simp+
  moreover have "case map_of (ms_items usedStorage) (toMapKey storedPointer) of
      None \<Rightarrow> True | Some item \<Rightarrow> si_version item + 1 \<noteq> 0" by code_simp
  ultimately show "newCheckpoint dump parse lim freshStorage storedCheckpoint storedKey storedPointer"
    "newCheckpoint dump parse lim oneItemStorage storedCheckpoint storedKey storedPointer"
    "newCheckpoint dump parse lim usedStorage storedCheckpoint storedKey storedPointer"
    using assms storedCheckpoint_keys by (simp_all add: newCheckpoint_def validateStorageValue_def)
qed

text \<open>A printer whose texts are longer than a mebibyte, and a parser that knows the stored checkpoint.\<close>

definition longDump :: "json \<Rightarrow> string" where
  "longDump v = replicate (1024 * 1024 + 1) (CHR '' '') @ ''{}''"

definition longParse :: json_parser where
  "longParse doc = Inr (wrapPayload (jsonPayload longDump storedCheckpoint))"

section \<open>Limits, breakers and event streams\<close>

text \<open>Five tokens, two more every ten nanoseconds.\<close>

definition samplePolicy :: rate_policy where
  "samplePolicy = \<lparr>rp_capacity = 5, rp_refill = 2, rp_interval = 10\<rparr>"

definition spentLimiter :: rate_limiter where
  "spentLimiter = snd (RateLimiter_acquire 5 100 (RateLimiter_new samplePolicy 100))"

definition sampleBreaker :: breaker_policy where
  "sampleBreaker = \<lparr>bp_failureThreshold = 2, bp_successThreshold = 1,
     bp_halfOpenMaxCalls = 2, bp_openTimeout = 50, bp_halfOpenProbeTimeout = 30\<rparr>"

definition openedBreaker :: breaker where
  "openedBreaker = snd (breakerRun [(10, Failure), (20, Failure)] (CircuitBreaker_new sampleBreaker))"

definition sampleEvents :: "sse_event list" where
  "sampleEvents =
     [\<lparr>se_event = ''message'', se_data = ''a'' @ [newline] @ ''b'', se_id = [], se_retry = None\<rparr>,
      \<lparr>se_event = ''done'', se_data = ''x'', se_id = ''7'', se_retry = Some 100\<rparr>]"

definition halves :: "string \<Rightarrow> string list" where
  "halves doc = [take (length doc div 2) doc, drop (length doc div 2) doc]"

end
