(* ===== verification/Service_Props.thy ===== *)
theory Service_Props
  imports Service_Samples
begin

text \<open>
  The properties of the services below a run: the key-value storage with the checkpoint codec and
  the saver on top of it, the rate limiter, the circuit breaker and the event stream parser.
  Where a property has hypotheses, a theorem after it applies it to a concrete input.
\<close>

section \<open>Storage\<close>

text \<open>
  C22. Reading the memory storage page by page, with any page size, ends; it visits every
  stored item that the query matches exactly once and in the order of the keys.
\<close>

theorem storage_pages_cover:
  assumes "storage_wf s" and "storage_listable s q" and "sq_cursor q = []"
  shows "\<exists>items. scanPages memory_ops (\<lambda>out it. Inr (out @ [it])) q [] s = Some (Inr items, s) \<and>
    distinct (map si_key items) \<and> sorted (map (\<lambda>it. toMapKey (si_key it)) items) \<and>
    (\<lambda>it. (si_key it, si_value it)) ` set items =
      {(k, v). storage_abs s k = Some v \<and> storageKeyMatchesListOptions k q}"
proof -
  have "foldM_result (\<lambda>out it. Inr (out @ [it])) out items = Inr (out @ items)" for out items :: "storage_item list"
    by (induction items arbitrary: out) simp_all
  then have "scanPages memory_ops (\<lambda>out it. Inr (out @ [it])) q [] s = Some (Inr (storage_pending s q), s)"
    by (simp add: mem.scanPages_all [OF assms])
  with mem.pending_all [OF assms(1,3)] memory_pending_sorted [OF assms(1)] show ?thesis by blast
qed

theorem storage_pages_cover_witness:
  "\<exists>items. scanPages memory_ops (\<lambda>out it. Inr (out @ [it])) sampleQuery [] sampleStorage
      = Some (Inr items, sampleStorage) \<and>
    (\<lambda>it. (si_key it, si_value it)) ` set items =
      {(k, v). storage_abs sampleStorage k = Some v \<and> storageKeyMatchesListOptions k sampleQuery}"
proof -
  have "storage_wf sampleStorage" by code_simp
  moreover have "storage_listable sampleStorage sampleQuery" by code_simp
  moreover have "sq_cursor sampleQuery = []" by (simp add: sampleQuery_def)
  ultimately show ?thesis using storage_pages_cover [of sampleStorage sampleQuery] by blast
qed

section \<open>Checkpoints in a storage\<close>

text \<open>
  C21. The JSON codec: decoding an encoded checkpoint gives the checkpoint back, with its time cut
  to milliseconds and its numbers as the parser reads them.  The checkpoint is one the codec
  accepts, and its document is within the limits and is read back by the parser.
\<close>

theorem checkpoint_codec_roundtrip:
  assumes "validateCheckpoint c = Inr ()" and "checkpoint_typed c"
    and "document_fits dump parse ''checkpoint'' lim (checkpointToJson c)"
  shows "\<exists>p. JsonCheckpointCodec_encode dump c = Inr p \<and>
    JsonCheckpointCodec_decode parse lim p = Inr (rereadCheckpoint c)"
  using codec_roundtrip [OF assms] by blast

theorem checkpoint_codec_roundtrip_witness:
  "\<exists>p. JsonCheckpointCodec_encode sampleDump storedCheckpoint = Inr p \<and>
    JsonCheckpointCodec_decode sampleParse JsonDecodeLimits p = Inr (rereadCheckpoint storedCheckpoint)"
  using storedCheckpoint_carried by (auto simp: json_carries_def intro: checkpoint_codec_roundtrip)

text \<open>
  C19. The storage saver on the memory storage: putting a checkpoint that is not stored yet succeeds
  when the storage takes its keys and texts and has room, for two items when it is the first one of
  its thread and namespace and for one item otherwise.  The storage then holds it and the latest
  pointer names it, and nothing else has changed.  Reading it by its id gives it back as the codec
  does, with its own pending writes, provided that its documents are within the limits and are read
  back by the parser and that no writes are stored for it.
\<close>

theorem storage_saver_put_get:
  assumes "newCheckpoint dump parse lim s c key pointer"
    and "storageRoom s (if storage_abs s pointer = None then 2 else 1)"
    and "json_carries dump parse lim c"
    and "document_fits dump parse ''stored checkpoint'' JsonDecodeLimits (wrapPayload (jsonPayload dump c))"
    and "writeKeyPrefixFor (cp_threadId c) (cp_ns c) (cp_checkpointId c) = Inr pre"
    and "storage_listable s (pageQuery (StorageSaver memory_ops dump parse lim) pre)"
    and "\<forall>(k, item) \<in> set (ms_items s). \<not> prefix pre (snd k)"
  shows "\<exists>s'. SS_put (StorageSaver memory_ops dump parse lim) c s = Some (Inr (), s') \<and>
    storage_abs s' = (storage_abs s)(key \<mapsto> storedText dump c, pointer \<mapsto> cp_checkpointId c) \<and>
    SS_getTuple jeq (StorageSaver memory_ops dump parse lim)
        (CheckpointQuery_at (cp_threadId c) (cp_checkpointId c) (cp_ns c)) s' =
      Some (Inr (Some \<lparr>tu_checkpoint = rereadCheckpoint c,
        tu_pendingWrites = map rereadWrite (cp_pendingWrites c)\<rparr>), s')"
proof -
  obtain s' where put: "SS_put (StorageSaver memory_ops dump parse lim) c s = Some (Inr (), s')"
    using put_succeeds [OF assms(1,2)] by blast
  have wf: "storage_wf s" and "validateCheckpoint c = Inr ()" using assms(1) by (simp_all add: newCheckpoint_def)
  note enc = encode_jsonPayload [OF this(2), of dump parse lim]
  have sv: "ss_dump (StorageSaver memory_ops dump parse lim) = dump"
    "ss_parse (StorageSaver memory_ops dump parse lim) = parse" by (simp_all add: StorageSaver_def)
  have "storage_abs s k = None" if "prefix pre (sk_key k)" for k
  proof -
    have "toMapKey k \<notin> fst ` set (ms_items s)" using assms(7) that by (auto simp: toMapKey_def)
    then show ?thesis by (simp add: storage_abs_def map_of_eq_None_iff)
  qed
  moreover have "storage_abs s' = (storage_abs s)(key \<mapsto> storedText dump c, pointer \<mapsto> cp_checkpointId c)"
    using mss.put_stores [OF wf put enc] assms(1) by (auto simp: newCheckpoint_def storedText_def sv)
  ultimately show ?thesis
    using mss.put_get [OF wf put assms(3) enc, unfolded sv, OF assms(4-6)] put by (simp add: rereadCheckpoint_def)
qed

theorem storage_saver_put_get_witness:
  "\<exists>s'. SS_put (StorageSaver memory_ops sampleDump sampleParse JsonDecodeLimits) storedCheckpoint usedStorage
      = Some (Inr (), s') \<and>
    storage_abs usedStorage storedPointer = Some ''c0'' \<and> storage_abs s' storedPointer = Some ''c1'' \<and>
    SS_getTuple (=) (StorageSaver memory_ops sampleDump sampleParse JsonDecodeLimits)
        (CheckpointQuery_at (cp_threadId storedCheckpoint) (cp_checkpointId storedCheckpoint)
          (cp_ns storedCheckpoint)) s' =
      Some (Inr (Some \<lparr>tu_checkpoint = rereadCheckpoint storedCheckpoint,
        tu_pendingWrites = map rereadWrite (cp_pendingWrites storedCheckpoint)\<rparr>), s')"
proof -
  let ?sv = "StorageSaver memory_ops sampleDump sampleParse JsonDecodeLimits"
  have short: "length (storedText sampleDump storedCheckpoint) \<le> 67108864"
    using wrappedCheckpoint_short by (simp add: storedText_def Let_def flip: wrappedCheckpoint_def)
  have used: "storage_abs usedStorage storedPointer = Some ''c0''" by code_simp
  have room: "storageRoom usedStorage 1" by code_simp
  have page: "storage_listable usedStorage (pageQuery ?sv ''writes/74/ns/6e/checkpoint/6331/'')" by code_simp
  have none: "\<forall>(k, item) \<in> set (ms_items usedStorage). \<not> prefix ''writes/74/ns/6e/checkpoint/6331/'' (snd k)"
    by code_simp
  have id: "cp_checkpointId storedCheckpoint = ''c1''" by code_simp
  from storage_saver_put_get [OF storedCheckpoint_new(3) [OF short] _ storedCheckpoint_carried
      storedCheckpoint_fits(2) [unfolded wrappedCheckpoint_def] storedCheckpoint_keys(3) page none, of "(=)"] used room id
  show ?thesis by auto
qed

text \<open>
  C20. Deleting a thread through the storage saver ends and succeeds.  Afterwards the storage holds
  no checkpoint, latest pointer or write of that thread, and those of every other thread are as
  they were, whatever the names of the threads are.
\<close>

theorem storage_saver_deleteThread:
  assumes "storage_wf s" and "t \<noteq> []"
    and "storage_listable s (pageQuery (StorageSaver memory_ops dump parse lim) (hexEncode t @ ''/''))"
    and "storage_listable s (pageQuery (StorageSaver memory_ops dump parse lim) (''latest/'' @ hexEncode t))"
    and "storage_listable s (pageQuery (StorageSaver memory_ops dump parse lim) (''writes/'' @ hexEncode t @ ''/''))"
  shows "\<exists>s'. SS_deleteThread (StorageSaver memory_ops dump parse lim) t s = Some (Inr (), s') \<and>
    (\<forall>k. ownedBy (StorageSaver memory_ops dump parse lim) t k \<longrightarrow> storage_abs s' k = None) \<and>
    (\<forall>t' k. t' \<noteq> t \<longrightarrow> ownedBy (StorageSaver memory_ops dump parse lim) t' k \<longrightarrow>
       storage_abs s' k = storage_abs s k)"
  using mss.deleteThread_exact_keys [OF assms] by blast

theorem storage_saver_deleteThread_witness:
  "\<exists>s'. SS_deleteThread (StorageSaver memory_ops sampleDump sampleParse JsonDecodeLimits) ''t'' twoThreads
      = Some (Inr (), s') \<and>
    storage_abs s' storedPointer = None \<and> storage_abs s' otherPointer = Some ''c9''"
proof -
  let ?sv = "StorageSaver memory_ops sampleDump sampleParse JsonDecodeLimits"
  have pages: "storage_listable twoThreads (pageQuery ?sv (hexEncode ''t'' @ ''/''))"
    "storage_listable twoThreads (pageQuery ?sv (''latest/'' @ hexEncode ''t''))"
    "storage_listable twoThreads (pageQuery ?sv (''writes/'' @ hexEncode ''t'' @ ''/''))" by code_simp+
  have "storage_wf twoThreads" "''t'' \<noteq> []" "''tt'' \<noteq> ''t''" by code_simp+
  then obtain s' where s': "SS_deleteThread ?sv ''t'' twoThreads = Some (Inr (), s')"
    "ownedBy ?sv ''t'' storedPointer \<Longrightarrow> storage_abs s' storedPointer = None"
    "ownedBy ?sv ''tt'' otherPointer \<Longrightarrow> storage_abs s' otherPointer = storage_abs twoThreads otherPointer"
    using storage_saver_deleteThread [OF _ _ pages] by blast
  have "latestPointerKeyFor ?sv ''t'' ''n'' = Inr storedPointer" "latestPointerKeyFor ?sv ''tt'' [] = Inr otherPointer"
    "storage_abs twoThreads otherPointer = Some ''c9''" by code_simp+
  with s' show ?thesis by (auto simp: ownedBy_def)
qed

text \<open>
  C23. A checkpoint whose JSON text is longer than the default limit on strings (1 MiB) is stored
  without an error, but cannot be read any more: reading it and reading the latest checkpoint of its
  thread both fail, because the stored value is parsed with the default limits whatever limits the
  codec has.
\<close>

theorem large_checkpoint_unreadable:
  assumes "storage_wf s"
    and "SS_put (StorageSaver memory_ops dump parse lim) c s = Some (Inr u, s')"
    and "validateCheckpoint c = Inr ()"
    and "parse (storedText dump c) = Inr (wrapPayload (jsonPayload dump c))"
    and "1024 * 1024 < length (dump (checkpointToJson c))"
  shows "\<exists>e. st_code e = ResourceExhausted \<and>
    SS_getTuple jeq (StorageSaver memory_ops dump parse lim)
      (CheckpointQuery_at (cp_threadId c) (cp_checkpointId c) (cp_ns c)) s' = Some (Inl e, s') \<and>
    SS_getTuple jeq (StorageSaver memory_ops dump parse lim)
      (CheckpointQuery_latest (cp_threadId c) (cp_ns c)) s' = Some (Inl e, s')"
proof -
  have "ss_dump (StorageSaver memory_ops dump parse lim) = dump"
    "ss_parse (StorageSaver memory_ops dump parse lim) = parse" by (simp_all add: StorageSaver_def)
  then show ?thesis
    using mss.large_put_unreadable [OF assms(1,2) encode_jsonPayload [OF assms(3)]] assms(4,5)
    by (simp add: storedText_def jsonPayload_def)
qed

theorem large_checkpoint_unreadable_witness:
  "\<exists>s' e. SS_put (StorageSaver memory_ops longDump longParse JsonDecodeLimits) storedCheckpoint freshStorage
      = Some (Inr (), s') \<and> st_code e = ResourceExhausted \<and>
    SS_getTuple (=) (StorageSaver memory_ops longDump longParse JsonDecodeLimits)
      (CheckpointQuery_latest (cp_threadId storedCheckpoint) (cp_ns storedCheckpoint)) s' = Some (Inl e, s')"
proof -
  have new: "newCheckpoint longDump longParse JsonDecodeLimits freshStorage storedCheckpoint storedKey storedPointer"
    by (rule storedCheckpoint_new(1)) (simp add: storedText_def longDump_def)
  have room: "storageRoom freshStorage (if storage_abs freshStorage storedPointer = None then 2 else 1)" by code_simp
  obtain s' where put: "SS_put (StorageSaver memory_ops longDump longParse JsonDecodeLimits) storedCheckpoint
      freshStorage = Some (Inr (), s')"
    using put_succeeds [OF new room] by blast
  have "longParse (storedText longDump storedCheckpoint) = Inr (wrapPayload (jsonPayload longDump storedCheckpoint))"
    by (simp add: storedText_def longDump_def longParse_def)
  moreover have "1024 * 1024 < length (longDump (checkpointToJson storedCheckpoint))"
    by (simp add: longDump_def)
  ultimately show ?thesis
    using large_checkpoint_unreadable [OF _ put] put new unfolding newCheckpoint_def by blast
qed

text \<open>
  C24. A put of the storage saver is two writes.  When the storage has room for one item only, the
  put of the first checkpoint of a thread and namespace fails, but its checkpoint has been stored,
  and the same put tried again is refused as a duplicate.
\<close>

theorem storage_put_not_atomic:
  assumes "newCheckpoint dump parse lim s c key pointer" and "storage_abs s pointer = None"
    and "sl_maxItems (ms_limits s) = length (ms_items s) + 1"
  shows "\<exists>s'. SS_put (StorageSaver memory_ops dump parse lim) c s =
      Some (err ResourceExhausted ''memory storage item limit exceeded'', s') \<and>
    storage_abs s' key \<noteq> None \<and>
    SS_put (StorageSaver memory_ops dump parse lim) c s' =
      Some (err AlreadyExists ''storage item already exists'', s')"
  by (rule put_pointer_refused [OF assms])

theorem storage_put_not_atomic_witness:
  "\<exists>s'. SS_put (StorageSaver memory_ops sampleDump sampleParse JsonDecodeLimits) storedCheckpoint oneItemStorage =
      Some (err ResourceExhausted ''memory storage item limit exceeded'', s') \<and>
    storage_abs s' storedKey \<noteq> None \<and>
    SS_put (StorageSaver memory_ops sampleDump sampleParse JsonDecodeLimits) storedCheckpoint s' =
      Some (err AlreadyExists ''storage item already exists'', s')"
proof (rule storage_put_not_atomic [OF storedCheckpoint_new(2)])
  show "length (storedText sampleDump storedCheckpoint) \<le> 67108864"
    using wrappedCheckpoint_short by (simp add: storedText_def Let_def flip: wrappedCheckpoint_def)
  show "storage_abs oneItemStorage storedPointer = None" by code_simp
  show "sl_maxItems (ms_limits oneItemStorage) = length (ms_items oneItemStorage) + 1" by code_simp
qed

section \<open>Rate limits and circuit breakers\<close>

text \<open>
  C28. Whatever permits are asked for and whenever, also with clock readings that go back, a rate
  limiter grants at most its capacity and what has been supplied since it was made, one refill for
  every interval that has passed in full.
\<close>

theorem rate_limit_bounded:
  assumes "rate_valid p" and "start \<le> until" and "until - start < 2 ^ 63"
    and "\<forall>(now, permits) \<in> set calls. now \<le> until"
  shows "fst (acquireAll calls (RateLimiter_new p start)) \<le> unat (rp_capacity p) + supplied p start until"
  by (rule granted_bounded [OF assms])

theorem rate_limit_bounded_witness:
  "fst (acquireAll [(100, 4), (105, 3), (103, 1), (121, 5), (131, 3)] (RateLimiter_new samplePolicy 100)) \<le> 11"
proof -
  have "rate_valid samplePolicy" by code_simp
  moreover have "\<forall>(now, permits) \<in> set [(100, 4), (105, 3), (103, 1), (121, 5), (131, 3 :: 64 word)]. now \<le> (131 :: int)"
    by simp
  ultimately have "fst (acquireAll [(100, 4), (105, 3), (103, 1), (121, 5), (131, 3)] (RateLimiter_new samplePolicy 100))
      \<le> unat (rp_capacity samplePolicy) + supplied samplePolicy 100 131"
    by (intro rate_limit_bounded) simp_all
  moreover have "unat (rp_capacity samplePolicy) + supplied samplePolicy 100 131 = 11" by code_simp
  ultimately show ?thesis by simp
qed

text \<open>
  C29. The wait that a refused call is told is enough: the same call made that much later is
  granted.  The permits must not be zero or exceed the capacity, the sum that rounds the refills up
  must not wrap around, the wait must not have been cut to the longest duration, and the clock must
  not have gone back since the last refill nor be negative: the wait is computed unsigned.
\<close>

theorem rate_limit_wait_suffices:
  assumes "limiter_wf l" and "rate_valid (rl_policy l)"
    and "0 \<le> rl_updatedAt l" and "rl_updatedAt l \<le> now" and "now < 2 ^ 63"
    and "permits \<noteq> 0" and "permits \<le> rp_capacity (rl_policy l)"
    and "unat permits + unat (rp_refill (rl_policy l)) \<le> 2 ^ 64"
    and "RateLimiter_acquire permits now l = (r, l')" and "\<not> rt_allowed r"
    and "rt_retryAfter r < durationMax"
  shows "0 < rt_retryAfter r \<and>
    rt_allowed (fst (RateLimiter_acquire permits (now + rt_retryAfter r) l'))"
  by (rule acquire_after_wait [OF assms])

theorem rate_limit_wait_suffices_witness:
  "let (r, l') = RateLimiter_acquire 3 107 spentLimiter in
   0 < rt_retryAfter r \<and> rt_allowed (fst (RateLimiter_acquire 3 (107 + rt_retryAfter r) l'))"
proof -
  obtain r l' where r: "RateLimiter_acquire 3 107 spentLimiter = (r, l')" by fastforce
  have "\<not> rt_allowed (fst (RateLimiter_acquire 3 107 spentLimiter))"
    "rt_retryAfter (fst (RateLimiter_acquire 3 107 spentLimiter)) < durationMax" by code_simp+
  moreover have "limiter_wf spentLimiter" "rate_valid (rl_policy spentLimiter)"
    "0 \<le> rl_updatedAt spentLimiter" "rl_updatedAt spentLimiter \<le> 107" "(107 :: int) < 2 ^ 63"
    "(3 :: 64 word) \<noteq> 0" "3 \<le> rp_capacity (rl_policy spentLimiter)"
    "unat (3 :: 64 word) + unat (rp_refill (rl_policy spentLimiter)) \<le> 2 ^ 64" by code_simp+
  ultimately show ?thesis using rate_limit_wait_suffices [of spentLimiter 107 3 r l'] r by simp
qed

text \<open>
  C30. A closed circuit breaker to which the outcomes of calls are reported is open exactly when at
  some time as many calls in a row have failed as its threshold says.
\<close>

theorem circuit_trips_exactly:
  assumes "breaker_valid p"
  shows "cb_state (snd (breakerRun (outcomeCalls outcomes) (CircuitBreaker_new p))) =
    (if tripped (bp_failureThreshold p) (map snd outcomes) then Open else Closed)"
  by (rule breaker_trips [OF assms])

theorem circuit_trips_exactly_witness:
  "cb_state (snd (breakerRun (outcomeCalls [(1, False), (2, True), (3, False), (4, False)])
     (CircuitBreaker_new sampleBreaker))) = Open"
proof -
  have "breaker_valid sampleBreaker" by code_simp
  moreover have "tripped (bp_failureThreshold sampleBreaker) [False, True, False, False]" by code_simp
  ultimately show ?thesis
    using circuit_trips_exactly [of sampleBreaker "[(1, False), (2, True), (3, False), (4, False)]"] by simp
qed

text \<open>
  C31. An open breaker admits no call before its timeout, and none of the calls changes it.  Once
  the timeout has passed it admits exactly as many calls as may probe a half-open breaker, and
  refuses the others until a probe is answered or times out.
\<close>

theorem open_circuit:
  assumes "cb_state b = Open" and "breaker_valid (cb_policy b)"
    and "\<forall>(now, k) \<in> set calls. k \<noteq> Reset \<and> now < cb_openedAt b + bp_openTimeout (cb_policy b)"
    and "\<forall>t \<in> set ats. cb_openedAt b + bp_openTimeout (cb_policy b) \<le> t"
    and "\<forall>t \<in> set ats. \<forall>u \<in> set ats. u < t + bp_halfOpenProbeTimeout (cb_policy b)"
  shows "snd (breakerRun calls b) = b \<and>
    (\<forall>r \<in> set (fst (breakerRun calls b)). \<not> br_allowed r \<and> 0 < br_retryAfter r) \<and>
    map br_allowed (fst (breakerRun (acquireCalls ats) b)) =
      (let free = unat (bp_halfOpenMaxCalls (cb_policy b)) in
       replicate (min free (length ats)) True @ replicate (length ats - free) False)"
  using open_breaker_refuses [OF assms(1-3)] open_breaker_probes [OF assms(1,2,4,5)] by blast

theorem open_circuit_witness:
  "snd (breakerRun [(25, Acquire), (69, Failure)] openedBreaker) = openedBreaker \<and>
   map br_allowed (fst (breakerRun (acquireCalls [70, 75, 80]) openedBreaker)) = [True, True, False]"
proof -
  have b: "cb_state openedBreaker = Open" "breaker_valid (cb_policy openedBreaker)" by code_simp+
  have c: "\<forall>(now, k) \<in> set [(25, Acquire), (69, Failure)]. k \<noteq> Reset \<and>
      now < cb_openedAt openedBreaker + bp_openTimeout (cb_policy openedBreaker)" by code_simp
  have t: "\<forall>t \<in> set [70, 75, 80]. cb_openedAt openedBreaker + bp_openTimeout (cb_policy openedBreaker) \<le> t"
    "\<forall>t \<in> set [70, 75, 80]. \<forall>u \<in> set [70, 75, 80]. u < t + bp_halfOpenProbeTimeout (cb_policy openedBreaker)"
    by code_simp+
  have "unat (bp_halfOpenMaxCalls (cb_policy openedBreaker)) = 2" by code_simp
  with open_circuit [OF b c t] show ?thesis by (simp add: numeral_eq_Suc Let_def)
qed

section \<open>Event streams\<close>

text \<open>
  C32. The event stream parser: however the text of a list of events is cut into chunks, the
  callback gets exactly these events, in order, until it refuses one, and the status is that of the
  last call.
\<close>

theorem sse_stream_delivered:
  assumes "\<forall>e \<in> set es. event_ok e" and "concat chunks = concat (map renderEvent es)"
  shows "sseStream callback chunks c = deliver callback es c"
  by (rule sseStream_delivers [OF assms])

theorem sse_stream_delivered_witness:
  "sseStream (\<lambda>e seen. (CallbackReturned okStatus, seen @ [e])) (halves (concat (map renderEvent sampleEvents))) []
     = (okStatus, sampleEvents)"
proof -
  have "\<forall>e \<in> set sampleEvents. event_ok e" by code_simp
  moreover have "concat (halves doc) = doc" for doc by (simp add: halves_def)
  ultimately have "sseStream (\<lambda>e seen. (CallbackReturned okStatus, seen @ [e])) (halves (concat (map renderEvent sampleEvents))) []
      = deliver (\<lambda>e seen. (CallbackReturned okStatus, seen @ [e])) sampleEvents []"
    by (intro sse_stream_delivered)
  then show ?thesis by (simp add: sampleEvents_def)
qed

end
