(* ===== verification/Spec2Isabelle.thy ===== *)
theory Spec2Isabelle
  imports Memory_Saver Graph_Builder Budget Samples Service_Props
begin

text \<open>
  A verification of the graph runtime of langgraph-cpp (\<^verbatim>\<open>src/src/\<close>).  A program builds a
  \<^verbatim>\<open>StateGraph\<close> of node handlers, edges and routers, compiles it, and runs it: a run starts from an
  input state or a checkpoint and makes super-steps.  In a super-step all pending tasks are executed,
  their updates are merged into the state by the reducers, the routers give the next tasks, and the
  result is stored as a checkpoint by a \<^verbatim>\<open>BaseCheckpointSaver\<close>.  Handlers may fail, ask for an
  interrupt, or return a command; a paused or failed thread is resumed from its last checkpoint.

  This theory imports the components and states the properties, the claims C1, C2 and so on.

  \<^bold>\<open>Theories\<close>
  \<^item> \<^verbatim>\<open>LG_Prelude\<close>: statuses and results (\<^verbatim>\<open>foundation/status\<close>), computations with a state and an early
    return, decimal rendering, \<^verbatim>\<open>std::map\<close> as a sorted association list.
  \<^item> \<^verbatim>\<open>Json\<close>: JSON values, the decode limits of \<^verbatim>\<open>json_limits.hpp\<close>, \<^verbatim>\<open>State\<close> and \<^verbatim>\<open>StateUpdate\<close>.
  \<^item> \<^verbatim>\<open>Message\<close>: \<^verbatim>\<open>message.cpp\<close> and \<^verbatim>\<open>usage_metadata.cpp\<close> with their JSON forms.
  \<^item> \<^verbatim>\<open>Reducer\<close>: \<^verbatim>\<open>reducer.cpp\<close>, the merge of an update into a state.
  \<^item> \<^verbatim>\<open>Checkpoints\<close>: the checkpoint types, \<^verbatim>\<open>checkpointer.cpp\<close>, and the interface
    \<^verbatim>\<open>BaseCheckpointSaver\<close> as the record \<open>saver_ops\<close> with the laws of the locale \<open>saver\<close>.
  \<^item> \<^verbatim>\<open>Memory_Saver\<close>, \<^verbatim>\<open>Saver_Props\<close>: \<^verbatim>\<open>in_memory_saver.cpp\<close>, which interprets the locale.
  \<^item> \<^verbatim>\<open>Runtime\<close>, \<^verbatim>\<open>Interrupts\<close>: \<^verbatim>\<open>runtime_event.cpp\<close>, \<^verbatim>\<open>Runtime::interrupt\<close>, and the interrupt metadata of
    \<^verbatim>\<open>graph_run.cpp\<close>.
  \<^item> \<^verbatim>\<open>State_Graph\<close>, \<^verbatim>\<open>Graph_Builder\<close>: the builder and the validation of \<^verbatim>\<open>state_graph.cpp\<close>.
  \<^item> \<^verbatim>\<open>Budget\<close>: \<^verbatim>\<open>resource_limits.cpp\<close> and \<^verbatim>\<open>deadline.cpp\<close>.
  \<^item> \<^verbatim>\<open>Tasks\<close>, \<^verbatim>\<open>Graph_Run\<close>, \<^verbatim>\<open>Node_Exec\<close>, \<^verbatim>\<open>Run_Loop\<close>: \<^verbatim>\<open>GraphRun\<close> of \<^verbatim>\<open>graph_run.cpp\<close>: the lists of
    tasks, events and checkpoints of a run, the execution of the tasks, and \<^verbatim>\<open>run()\<close> in pieces in the
    order of its code.
  \<^item> \<^verbatim>\<open>Run_Frame\<close>, \<^verbatim>\<open>Run_Logic\<close>, \<^verbatim>\<open>Run_Outcome\<close>: what every part of a run leaves unchanged (\<open>framed\<close> and
    the frame locales), weakest preconditions (\<open>wp\<close>), and the ways a run can end.
  \<^item> \<^verbatim>\<open>Run_Props\<close>, \<^verbatim>\<open>Run_Store\<close>: termination, outcome and stored checkpoints of a run.
  \<^item> \<^verbatim>\<open>Compiled\<close>, \<^verbatim>\<open>Compiled_Props\<close>: \<^verbatim>\<open>compiled_state_graph.cpp\<close>.
  \<^item> \<^verbatim>\<open>Subgraph\<close>: the node handler that runs another graph (\<^verbatim>\<open>makeSubgraphNodeHandler\<close> of
    \<^verbatim>\<open>state_graph.cpp\<close>) and the \<^verbatim>\<open>StreamWriter\<close> of \<^verbatim>\<open>runtime.cpp\<close>.
  \<^item> \<^verbatim>\<open>Run_Config\<close>: \<^verbatim>\<open>run_config.cpp\<close>.
  \<^item> \<^verbatim>\<open>Storage\<close>: \<^verbatim>\<open>i_storage.hpp\<close> as the record \<open>storage_ops\<close> with the laws of the locale \<open>storage\<close>, and
    \<^verbatim>\<open>memory_storage.cpp\<close>, which interprets it.
  \<^item> \<^verbatim>\<open>Json_Text\<close>, \<^verbatim>\<open>Checkpoint_Codec\<close>: the limits on JSON texts and \<^verbatim>\<open>json_checkpoint_codec.cpp\<close>; the
    locale \<open>codec\<close> states what a saver relies on.
  \<^item> \<^verbatim>\<open>Storage_Saver\<close>: \<^verbatim>\<open>storage_saver.cpp\<close> over a storage and a codec, in the locale \<open>storage_saver\<close>.
  \<^item> \<^verbatim>\<open>Rate_Limit\<close>, \<^verbatim>\<open>Circuit_Breaker\<close>, \<^verbatim>\<open>Sse_Parser\<close>: \<^verbatim>\<open>rate_limiter.cpp\<close>, \<^verbatim>\<open>circuit_breaker.cpp\<close> and
    \<^verbatim>\<open>sse_parser.cpp\<close> under \<^verbatim>\<open>foundation/\<close>.
  \<^item> \<^verbatim>\<open>Run_Example\<close>, \<^verbatim>\<open>Samples\<close>, \<^verbatim>\<open>Service_Samples\<close>: the concrete graphs, runs, savers and services of
    the witnesses.
  \<^item> \<^verbatim>\<open>Service_Props\<close>: the properties of the storage, its saver and the services.

  \<^bold>\<open>State and effects\<close>.  A method that changes an object is a function from its state to a result and
  the new state; \<open>Inl\<close> is the error status or the early return.  The members of \<^verbatim>\<open>GraphRun\<close> are the
  record \<open>run_state\<close>, which also holds the state of the saver.  What a run gets from outside is a
  parameter: the handlers and routers as functions of the state and the context, the cancellation
  token, the executor, the clock, the generated identifiers and the event sinks as functions of a
  counter \<open>rs_tick\<close> that grows with every use, and a schema as the check it performs.

  \<^bold>\<open>What is shown\<close>.  Runs end (C1), report what they stored (C2 to C5), and treat failures as
  described (C6 to C8, C10, C11); a run that starts with terminal tasks only returns at once, and C2
  and C4 say what does not hold of it.  A subgraph node gives its parent the state of its child (C9).
  Graphs that pass the validation are valid and routing stays inside them (C12, C13), and an update of
  a thread is read back (C14).  The in-memory saver implements a map from keys to checkpoints (C15 to
  C18, C25).  The storage saver stores, reads and deletes over the memory storage (C19, C20), whose
  pages cover it (C22), with the JSON codec (C21); C23 and C24 prove two faults of it.  Budgets, rate
  limits and circuit breakers keep their bounds (C26 to C31), and the event stream parser delivers
  the events however the stream is cut (C32).  Updates, messages, interrupts, configurations, the
  builder and the limits on JSON values behave as specified (C33 to C40).

  \<^bold>\<open>Bounds\<close>.  Numbers are words of their width in the code; times and durations are integers, except
  in \<open>RateLimiter_retryAfter\<close>, where the code computes unsigned.  The loop of a run has fuel, one unit
  per super-step; C1 shows that one more than the step limit is enough, since every super-step takes a
  step from the budget and the counter cannot wrap.  A child run has that fuel.  The walk of the delta
  history has fuel; with well-founded parent links the number of checkpoints is enough.  Reading a
  storage page by page is a partial function whose \<open>None\<close> is not ending; C19, C20 and C22 show that it
  ends on the memory storage.

  \<^bold>\<open>Not modelled\<close>.  Threads and locks: the tasks of a step are executed in the model one by one, in
  batches of the size the code takes, and a handler cannot publish events or use the store.  The event
  streams of \<^verbatim>\<open>streamEvents\<close> and \<^verbatim>\<open>streamProjected\<close>, which run the same code on another thread.  The
  handlers of a graph are functions of the state and the context, so the handler of a subgraph, which
  also changes a saver, is not put into a parent graph.  The printer and the parser of the JSON
  library are parameters; a document is assumed to be printed, which needs valid UTF-8.  SQLite and
  the other services under \<^verbatim>\<open>foundation/\<close> that a run does not call, the tools, models, stores and
  providers.
\<close>

section \<open>Runs\<close>

text \<open>
  C1. \<^verbatim>\<open>GraphRun::run\<close> returns for every graph, input and checkpointer: with one unit of fuel more than
  the step limit (the largest 64-bit number where there is no limit) the loop has ended, and more
  fuel does not change what it returns.
\<close>

theorem run_terminates:
  "\<exists>x. \<forall>n. run (Suc (stepBound (opt_limits (rc_options cfg))) + n) cfg st ts pend step parent sv tick = Some x"
proof -
  obtain x where "run (Suc (stepBound (opt_limits (rc_options cfg)))) cfg st ts pend step parent sv tick = Some x"
    using run_returns [of cfg "Suc (stepBound (opt_limits (rc_options cfg)))"] by blast
  then show ?thesis by (blast intro: run_mono)
qed

text \<open>
  C2. A result that a run returns is the one it kept in its members, and its status agrees with its
  state: a completed run satisfies the output schema, a paused one holds interrupt metadata, and a
  failed, cancelled or exhausted one holds the run error with that status.  The one exception is a
  run that has only terminal tasks once it has begun: it returns completed at the step it started
  from, without a check of the output schema.
\<close>

theorem run_result_agrees:
  assumes "run fuel cfg st ts pend step parent sv tick = Some (Inr res, s')"
  shows "res = rs_result s' \<and> (agrees cfg res \<or>
    endsAtStart cfg ts pend (initialRunState cfg st step parent sv tick) step res)"
  using assms by (rule run_agrees)

theorem run_result_agrees_witness:
  "\<exists>res s'. sampleRun = Some (Inr res, s') \<and> rr_step res = 1 \<and> res = rs_result s' \<and> agrees sampleConfig res"
proof -
  obtain res s' where run: "sampleRun = Some (Inr res, s')" "rr_step res = 1"
    using sampleRun_returns by blast
  then have "res = rs_result s' \<and> agrees sampleConfig res"
    using run_result_agrees [OF run(1) [unfolded sampleRun_def]] by (auto simp: endsAtStart_def)
  with run show ?thesis by blast
qed

text \<open>
  C5. The step counter of a run ends at most the step limit above the step it started from.
\<close>

theorem run_step_bound:
  assumes "run fuel cfg st ts pend step parent sv tick = Some (r, s')"
  shows "\<exists>n \<le> stepBound (opt_limits (rc_options cfg)). rr_step (rs_result s') = step + of_nat n"
  using assms by (rule run_steps)

theorem run_step_bound_witness:
  "\<exists>r s' n. sampleRun = Some (r, s') \<and> n \<le> stepBound (opt_limits sampleOptions) \<and>
    rr_step (rs_result s') = 0 + of_nat n"
proof -
  obtain r s' where run: "sampleRun = Some (r, s')" using sampleRun_returns by blast
  have "\<exists>n \<le> stepBound (opt_limits (rc_options sampleConfig)). rr_step (rs_result s') = 0 + of_nat n"
    by (rule run_step_bound [OF run [unfolded sampleRun_def]])
  with run show ?thesis by (auto simp: sampleConfig_def runConfig_def)
qed

text \<open>
  C3. A run on the in-memory saver keeps the invariant of the saver and every checkpoint stored
  before, and the checkpoint it ends at leads by parent links, within its thread and namespace, to
  the checkpoint it started from.
\<close>

theorem run_extends_history:
  assumes "ims_wf sv"
    and "run fuel (withMemorySaver jeq cfg) st ts pend step parent sv tick = Some (r, s')"
  shows "ims_wf (rs_saver s') \<and> ims_abs sv \<subseteq>\<^sub>m ims_abs (rs_saver s') \<and>
    ancestor (ims_abs (rs_saver s')) (rr_threadId (rs_result s')) (opt_ns (rc_options cfg)) (rs_parent s') parent"
  using ims_run.run_history [OF assms] by (simp add: withMemorySaver_def)

theorem run_extends_history_witness:
  "\<exists>r s'. sampleRun = Some (r, s') \<and> ims_wf (rs_saver s') \<and>
    ancestor (ims_abs (rs_saver s')) (rr_threadId (rs_result s')) [] (rs_parent s') None"
proof -
  obtain r s' where run: "sampleRun = Some (r, s')" using sampleRun_returns by blast
  have "ims_wf (rs_saver s') \<and> ims_abs emptySaver \<subseteq>\<^sub>m ims_abs (rs_saver s') \<and>
      ancestor (ims_abs (rs_saver s')) (rr_threadId (rs_result s')) (opt_ns (rc_options sampleConfig)) (rs_parent s') None"
    by (rule run_extends_history [OF ims_wf_empty run [unfolded sampleRun_saver]])
  moreover have "opt_ns (rc_options sampleConfig) = []"
    by (simp add: sampleConfig_def runConfig_def sampleOptions_def defaultRunOptions_def)
  ultimately show ?thesis using run by auto
qed

text \<open>
  C4. What a run on the in-memory saver returns can be read back: the checkpoint it ended at is
  found by \<^verbatim>\<open>getState\<close> under the thread of the result, with the state of the result.  This
  holds unless the run has only terminal tasks once it has begun and so returns at the step it
  started from.
\<close>

theorem run_result_readable:
  assumes "ims_wf sv"
    and "run fuel (withMemorySaver jeq cfg) st ts pend step parent sv tick = Some (Inr res, s')"
    and "\<not> endsAtStart (withMemorySaver jeq cfg) ts pend
      (initialRunState (withMemorySaver jeq cfg) st step parent sv tick) step res"
  shows "\<exists>i snap. rs_parent s' = Some i \<and>
    fst (getStateAt (rr_threadId res) i (rc_options (withMemorySaver jeq cfg)) (rs_saver s')) = Inr snap \<and>
    sn_values snap = rr_state res \<and> sn_threadId snap = rr_threadId res \<and> sn_checkpointId snap = i"
  using assms by (rule ims_run.run_readable)

theorem run_result_readable_witness:
  "\<exists>res s' i snap. sampleRun = Some (Inr res, s') \<and> rs_parent s' = Some i \<and>
    fst (getStateAt (rr_threadId res) i sampleOptions (rs_saver s')) = Inr snap \<and>
    sn_values snap = rr_state res"
proof -
  obtain res s' where run: "sampleRun = Some (Inr res, s')" "rr_step res = 1"
    using sampleRun_returns by blast
  have "\<exists>i snap. rs_parent s' = Some i \<and>
      fst (getStateAt (rr_threadId res) i (rc_options (withMemorySaver (=) sampleConfig)) (rs_saver s')) = Inr snap \<and>
      sn_values snap = rr_state res \<and> sn_threadId snap = rr_threadId res \<and> sn_checkpointId snap = i"
    by (rule run_result_readable [OF ims_wf_empty run(1) [unfolded sampleRun_saver]])
      (simp add: run(2) endsAtStart_def)
  with run(1) show ?thesis
    unfolding sampleConfig_saver by (auto simp: sampleConfig_def runConfig_def)
qed

text \<open>
  C6. A super-step in which a task failed merges nothing: when it returns a result, every field of
  the state but the run error is as before the step, the step counter is unchanged and the status
  is not completed or paused.
\<close>

theorem failed_step_merges_nothing:
  fixes cfg :: "'s run_cfg"
  assumes "stepHead cfg ts pend s = (Inr sx, t)"
    and "cl_failed (classify (rc_allowParent cfg) (dispatchExecutions cfg (rs_result t) (rs_resume t)
        (sx_active sx) (sx_input sx) (sx_step sx))) \<noteq> []"
    and "superStep cfg ts pend s = (Inl (Inr res), s')"
  shows "res = rs_result s' \<and> rr_step res = rr_step (rs_result s) \<and>
    (\<forall>j. j \<noteq> kRunErrorStateKey \<longrightarrow> jget (rr_state res) j = jget (rr_state (rs_result s)) j) \<and>
    rr_status res \<in> {RunFailedStatus, RunCancelled, MaxStepsExceeded}"
  using assms by (rule superStep_failed)

theorem failed_step_merges_nothing_witness:
  "\<exists>sx t res s'. stepHead failConfig (startTasks failGraph) [] failState = (Inr sx, t) \<and>
    cl_failed (failClassified sx t) = [1] \<and>
    superStep failConfig (startTasks failGraph) [] failState = (Inl (Inr res), s') \<and>
    rr_step res = 0 \<and> jget (rr_state res) ''seen'' = None"
proof -
  obtain sx t where head: "stepHead failConfig (startTasks failGraph) [] failState = (Inr sx, t)"
      and failed: "cl_failed (failClassified sx t) = [1]"
    using failHead_failed by (rule okE) (auto simp: failHead_def)
  obtain res s' where run: "superStep failConfig (startTasks failGraph) [] failState = (Inl (Inr res), s')"
    using failStep_failed by (rule leftE)
  have start: "rr_step (rs_result failState) = 0" "jget (rr_state (rs_result failState)) ''seen'' = None"
    by (simp_all add: failState_def initialRunState_simps)
  have "res = rs_result s' \<and> rr_step res = rr_step (rs_result failState) \<and>
      (\<forall>j. j \<noteq> kRunErrorStateKey \<longrightarrow> jget (rr_state res) j = jget (rr_state (rs_result failState)) j) \<and>
      rr_status res \<in> {RunFailedStatus, RunCancelled, MaxStepsExceeded}"
    by (rule failed_step_merges_nothing [OF head _ run]) (simp add: failed [unfolded failClassified_def])
  moreover have "''seen'' \<noteq> kRunErrorStateKey" by (simp add: kRunErrorStateKey_def)
  ultimately have "rr_step res = 0" "jget (rr_state res) ''seen'' = None" using start by metis+
  with head failed run show ?thesis by blast
qed

text \<open>
  C7. What a super-step with a failed task leaves in its failure checkpoint on the in-memory saver:
  the state of the result and, as pending writes after those pending before, the writes of the tasks
  that succeeded, with the tasks that failed as the next tasks.  When a task of the step asked for
  an interrupt, no write is added and all tasks of the step are the next tasks.  The tasks to run
  again are not all terminal, and without an interrupt the events of the successful tasks are
  published and their writes can be formed.
\<close>

theorem failed_step_checkpoint:
  assumes "ims_wf (rs_saver s)" and "failureTasks sx cl \<noteq> []"
    and "cl_interrupts cl = [] \<Longrightarrow>
      sfold (pendingAfterFailure (withMemorySaver jeq cfg) (sx_step sx) (failureTasks sx cl)) (cl_execs cl) pend s =
        (Inr pend', t)"
    and "failedStep (withMemorySaver jeq cfg) sx cl pend s = (Inl (Inr res), s')"
  shows "\<exists>c ws. ims_abs (rs_saver s') (ckeyOf c) = Some c \<and> cp_threadId c = rr_threadId (rs_result s) \<and>
    cp_ns c = rr_ns (rs_result s) \<and> cp_step c = sx_step sx \<and> cp_state c = rr_state res \<and>
    failureWrites cfg (rr_ns (rs_result s)) cl = Inr ws \<and> cp_pendingWrites c = pend @ ws \<and>
    cp_nextTasks c = annotateTasks (rr_runId (rs_result s)) (rr_ns (rs_result s)) (failureTasks sx cl) (sx_step sx)"
proof -
  have "writeOf (withMemorySaver jeq cfg) = writeOf cfg"
    by (rule ext)+ (simp add: writeOf_def withMemorySaver_def)
  then have "failureWrites (withMemorySaver jeq cfg) = failureWrites cfg"
    by (intro ext) (simp add: failureWrites_def)
  with ims_run.failedStep_checkpoint [OF assms] show ?thesis by simp
qed

theorem failed_step_checkpoint_witness:
  "\<exists>sx t res s' c ws. failHead = (Inr sx, t) \<and>
    failedStep failConfig sx (failClassified sx t) [] t =
      ((Inl (Inr res), s') :: (RunResult result + CheckpointTask list) \<times> InMemorySaver run_state) \<and>
    ims_abs (rs_saver s') (ckeyOf c) = Some c \<and> cp_state c = rr_state res \<and> cp_pendingWrites c = [] @ ws"
proof -
  obtain sx t where head: "failHead = (Inr sx, t)" and none: "cl_interrupts (failClassified sx t) = []"
    using failHead_failed by (rule okE) auto
  note collects = failHead_pending [unfolded head, simplified]
  have same: "failureTasks sx (failClassified sx t) = failTasks (failClassified sx t)"
    using none by (simp add: failureTasks_def failTasks_def)
  with collects have tasks: "failureTasks sx (failClassified sx t) \<noteq> []" by simp
  obtain pend' u where
      pend: "sfold (pendingAfterFailure failConfig (sx_step sx) (failureTasks sx (failClassified sx t)))
        (cl_execs (failClassified sx t)) [] t = (Inr pend', u)"
    using collects [THEN conjunct2] unfolding same by (rule okE)
  obtain res s' where run: "failedStep failConfig sx (failClassified sx t) [] t =
      ((Inl (Inr res), s') :: (RunResult result + CheckpointTask list) \<times> InMemorySaver run_state)"
    using failHead_returns [unfolded head, simplified] by (rule leftE)
  have saver: "withMemorySaver (=) failConfig = failConfig"
    by (simp add: withMemorySaver_def failConfig_def runConfig_def sampleOptions_def)
  have "rs_saver t = emptySaver" using head by (rule failHead_saver)
  then have wf: "ims_wf (rs_saver t)" by (simp add: ims_wf_empty)
  have "\<exists>c ws. ims_abs (rs_saver s') (ckeyOf c) = Some c \<and> cp_threadId c = rr_threadId (rs_result t) \<and>
      cp_ns c = rr_ns (rs_result t) \<and> cp_step c = sx_step sx \<and> cp_state c = rr_state res \<and>
      failureWrites failConfig (rr_ns (rs_result t)) (failClassified sx t) = Inr ws \<and>
      cp_pendingWrites c = [] @ ws \<and>
      cp_nextTasks c = annotateTasks (rr_runId (rs_result t)) (rr_ns (rs_result t))
        (failureTasks sx (failClassified sx t)) (sx_step sx)"
    by (rule failed_step_checkpoint [where jeq = "(=)" and cfg = failConfig, unfolded saver,
        OF wf tasks pend run])
  with head run show ?thesis by blast
qed

text \<open>
  C8. The result of a new run is lost when its input does not satisfy the state schema: the failure
  checkpoint has the identifier of the initial checkpoint, the saver refuses it, and the run
  returns the status \<^verbatim>\<open>AlreadyExists\<close> instead of a failed result.
\<close>

theorem run_schema_failure_lost:
  assumes "ims_wf sv" and "rc_writeInitial cfg" and "opt_command (rc_options cfg) = None"
    and "isOk (validateRunOptionsConfig (rc_options cfg))"
    and "beginRun (withMemorySaver jeq cfg) (normalizeNextTasks ts) pend
      (initialRunState (withMemorySaver jeq cfg) st step parent sv tick) = (Inr ts', t)"
    and "validateStateSchema st (stateSchema (sg_schemas (rc_graph cfg))) ''state'' = Inl e"
    and "withRunErrorMetadata st e [] step (runStatusFromStatus e) = Inr st'"
  shows "\<exists>s'. run fuel (withMemorySaver jeq cfg) st ts pend step parent sv tick =
    Some (err AlreadyExists ''checkpoint already exists'', s')"
  using assms(1) _ _ _ assms(5) _ assms(7)
  by (rule ims_run.run_failure_lost)
    (use assms(2-4,6) in \<open>auto simp: withMemorySaver_def validateRunOptionsConfig_def split: if_splits\<close>)

theorem run_schema_failure_lost_witness:
  "\<exists>s'. run 3 strictConfig (JObj []) (startTasks sampleGraph) [] 0 None emptySaver 0 =
    Some (err AlreadyExists ''checkpoint already exists'', s')"
proof -
  let ?e = "mkStatus InvalidArgument (''state schema validation failed: '' @
    statusToString (mkStatus InvalidArgument ''seen is required''))"
  have saver: "withMemorySaver (=) strictConfig = strictConfig"
    by (simp add: withMemorySaver_def strictConfig_def runConfig_def sampleOptions_def)
  obtain ts t where begins: "beginRun strictConfig (normalizeNextTasks (startTasks sampleGraph)) []
      (initialRunState strictConfig (JObj []) 0 None emptySaver 0) = (Inr ts, t)"
    using strictRun_begins by (rule okE)
  obtain st' where st': "withRunErrorMetadata (JObj []) ?e [] 0 (runStatusFromStatus ?e) = Inr st'"
    using strictRun_error by (auto split: sum.split_asm)
  have "\<exists>s'. run 3 (withMemorySaver (=) strictConfig) (JObj []) (startTasks sampleGraph) [] 0 None emptySaver 0 =
      Some (err AlreadyExists ''checkpoint already exists'', s')"
  proof (rule run_schema_failure_lost [OF ims_wf_empty _ _ _ _ _ st'])
    show "rc_writeInitial strictConfig" "opt_command (rc_options strictConfig) = None"
      "isOk (validateRunOptionsConfig (rc_options strictConfig))"
      "validateStateSchema (JObj []) (stateSchema (sg_schemas (rc_graph strictConfig))) ''state'' = Inl ?e"
      by code_simp+
  qed (unfold saver, rule begins)
  then show ?thesis unfolding saver .
qed

section \<open>Graphs as nodes\<close>

text \<open>
  C9. What the node of a subgraph returns: its child run has completed or paused, the node asks for an
  interrupt exactly when the child paused, and merging the update of the node into the state of the
  parent, with reducers that overwrite, gives every field the value it has in the state of the child;
  a field the child has removed becomes null.  The states are objects, and no field of the child is
  itself a request to overwrite.
\<close>

theorem subgraph_state_merged:
  assumes "makeSubgraphNodeHandler jeq cg so ck pub tick st rt sv = Some (Inr out, sv')"
    and "invokeSubgraph (Suc (stepBound (opt_limits (so_options so)))) cg st (childRunOptions so ck pub rt) sv tick =
      Some (Inr child, sv'')"
    and "is_object st" "json_wf st" "is_object (rr_state child)" "json_wf (rr_state child)"
    and "\<forall>k v. jget (rr_state child) k = Some v \<longrightarrow> \<not> isOverwriteJson v"
    and "overwrites r" and "applyStateUpdate st (no_update out) r = Inr st'"
  shows "rr_status child \<in> {Completed, Paused} \<and> (no_interrupt out = None \<longleftrightarrow> rr_status child = Completed) \<and>
    (\<forall>k. jget st' k =
      (case jget (rr_state child) k of
         Some v \<Rightarrow> if jhas st k \<and> jeq (jat st k) v then jget st k else Some v
       | None \<Rightarrow> if jhas st k then Some JNull else None))"
  using assms by (rule subgraph_merge)

theorem subgraph_state_merged_witness:
  "\<exists>out sv' st'. makeSubgraphNodeHandler (=) sampleCompiled childOptions None None 0 parentState parentRuntime emptySaver =
      Some (Inr out, sv') \<and> no_interrupt out = None \<and>
    applyStateUpdate parentState (no_update out) emptyRegistry = Inr st' \<and>
    jget parentState ''seen'' = Some (JStr ''no'') \<and> jget st' ''seen'' = Some (JStr ''a'')"
proof -
  obtain child sv'' where child:
      "invokeSubgraph (Suc (stepBound (opt_limits (so_options childOptions)))) sampleCompiled parentState
        (childRunOptions childOptions None None parentRuntime) emptySaver 0 = Some (Inr child, sv'')"
      "rr_status child = Completed" "rr_state child = obj [(''seen'', JStr ''a''), (''topic'', JStr ''b'')]"
    using childRun_completed by (auto split: option.split_asm sum.split_asm)
  have update: "case subgraphOutput (=) parentRuntime parentState child of
      Inr out \<Rightarrow> no_update out = obj [(''seen'', JStr ''a'')] | _ \<Rightarrow> False"
    by (rule subgraphOutput_sample [OF child(2,3)])
  then obtain out where out: "subgraphOutput (=) parentRuntime parentState child = Inr out"
      "no_update out = obj [(''seen'', JStr ''a'')]"
    by (auto split: sum.split_asm)
  have run: "makeSubgraphNodeHandler (=) sampleCompiled childOptions None None 0 parentState parentRuntime emptySaver =
      Some (Inr out, sv'')"
    using child(1) out(1) by (rule subgraph_handler_output)
  have merged: "applyStateUpdate parentState (no_update out) emptyRegistry =
      Inr (obj [(''seen'', JStr ''a''), (''topic'', JStr ''b'')])" unfolding out(2) by code_simp
  have fields: "jget (rr_state child) ''seen'' = Some (JStr ''a'')" "jget parentState ''seen'' = Some (JStr ''no'')"
    "is_object parentState" "json_wf parentState" "is_object (rr_state child)" "json_wf (rr_state child)"
    unfolding child(3) by code_simp+
  have "\<forall>k v. jget (rr_state child) k = Some v \<longrightarrow> \<not> isOverwriteJson v"
    unfolding child(3) by (auto simp: obj_def jget_def isOverwriteJson_def split: if_splits)
  from subgraph_state_merged [OF run child(1) fields(3-6) this overwrites_empty merged] child(2) fields(1,2) run merged
  show ?thesis by (auto simp: jhas_def jat_def)
qed

section \<open>Tasks of a super-step\<close>

text \<open>
  C10. A task is retried until its first success: when the attempts before attempt n failed, the
  run was not cancelled meanwhile, and attempt n is within the retry policy and succeeded, then the
  execution of the task has the output of attempt n.
\<close>

theorem executeTask_first_success:
  assumes spec: "map_of (sg_nodes (rc_graph cfg)) (ct_nodeId task) = Some spec"
    and n: "1 \<le> n" "n \<le> max 1 (maxAttempts (retry (ns_options spec)))"
    and input: "input = (case ct_state task of Some st \<Rightarrow> st | None \<Rightarrow> inputState)"
    and before: "\<And>k. 1 \<le> k \<Longrightarrow> k < n \<Longrightarrow> isOk (ae_cancel (rv_attempt (rc_env cfg) step index k)) \<and>
      isOk (ae_wait (rv_attempt (rc_env cfg) step index k)) \<and>
      (\<exists>e. attemptResult spec (rv_attempt (rc_env cfg) step index k) input
             (taskContext r task step (map_of rvs index) k) = Inl e)"
    and "isOk (ae_cancel (rv_attempt (rc_env cfg) step index n))"
    and "attemptResult spec (rv_attempt (rc_env cfg) step index n) input
           (taskContext r task step (map_of rvs index) n) = Inr out"
  shows "executeTask cfg r rvs index task inputState step = doneExecution task out"
proof -
  have "attemptLoop (rv_attempt (rc_env cfg) step index) spec task input
      (taskContext r task step (map_of rvs index)) 1 (max 1 (maxAttempts (retry (ns_options spec))))
      (initialInterval (retry (ns_options spec))) (mkStatus Unknown ''node handler did not run'') =
      Inr (doneExecution task out)"
    by (rule attemptLoop_succeeds [where n = n]) (use n before assms(6,7) in auto)
  with spec input show ?thesis by (simp add: executeTask_def Let_def)
qed

theorem executeTask_first_success_witness:
  "executeTask flakyConfig sampleResult [] 0 (plainTask ''a'') (JObj []) 1 =
    doneExecution (plainTask ''a'') (NodeOutput_update (obj [(''seen'', JStr ''a'')]))"
proof (rule executeTask_first_success [where spec = flakySpec and n = 2 and input = "JObj []"])
  show "map_of (sg_nodes (rc_graph flakyConfig)) (ct_nodeId (plainTask ''a'')) = Some flakySpec"
    by (simp add: flakyConfig_def runConfig_def flakyGraph_a plainTask_def)
  show "(2::nat) \<le> max 1 (maxAttempts (retry (ns_options flakySpec)))"
    by code_simp
  show "JObj [] = (case ct_state (plainTask ''a'') of Some st \<Rightarrow> st | None \<Rightarrow> JObj [])"
    by (simp add: plainTask_def)
  fix k :: nat
  assume "1 \<le> k" "k < 2"
  then have k: "k = 1" by simp
  have "(case attemptResult flakySpec (rv_attempt (rc_env flakyConfig) 1 0 1) (JObj [])
      (taskContext sampleResult (plainTask ''a'') 1 (map_of [] (0::nat)) 1) of Inl e \<Rightarrow> True | Inr out \<Rightarrow> False)"
    by code_simp
  then show "isOk (ae_cancel (rv_attempt (rc_env flakyConfig) 1 0 k)) \<and>
      isOk (ae_wait (rv_attempt (rc_env flakyConfig) 1 0 k)) \<and>
      (\<exists>e. attemptResult flakySpec (rv_attempt (rc_env flakyConfig) 1 0 k) (JObj [])
        (taskContext sampleResult (plainTask ''a'') 1 (map_of [] (0::nat)) k) = Inl e)"
    unfolding k by (auto simp: flakyConfig_def runConfig_def sampleRunEnv_def split: sum.split_asm)
next
  show "isOk (ae_cancel (rv_attempt (rc_env flakyConfig) 1 0 2))"
    by (simp add: flakyConfig_def runConfig_def sampleRunEnv_def)
  show "attemptResult flakySpec (rv_attempt (rc_env flakyConfig) 1 0 2) (JObj [])
      (taskContext sampleResult (plainTask ''a'') 1 (map_of [] (0::nat)) 2) =
      Inr (NodeOutput_update (obj [(''seen'', JStr ''a'')]))"
    by code_simp
qed simp

text \<open>
  C11. A task whose attempts all fail is left to the error handler of its node, with the status of
  the last attempt and a context that counts one attempt more; without a handler the execution has
  failed with that status.
\<close>

theorem executeTask_exhausted:
  assumes spec: "map_of (sg_nodes (rc_graph cfg)) (ct_nodeId task) = Some spec"
    and n: "n = max 1 (maxAttempts (retry (ns_options spec)))"
    and input: "input = (case ct_state task of Some st \<Rightarrow> st | None \<Rightarrow> inputState)"
    and fails: "\<And>k. 1 \<le> k \<Longrightarrow> k \<le> n \<Longrightarrow> isOk (ae_cancel (rv_attempt (rc_env cfg) step index k)) \<and>
      isOk (ae_wait (rv_attempt (rc_env cfg) step index k)) \<and>
      attemptResult spec (rv_attempt (rc_env cfg) step index k) input
        (taskContext r task step (map_of rvs index) k) = Inl (e k)"
  shows "executeTask cfg r rvs index task inputState step =
    (case errorHandler (ns_options spec) of
       None \<Rightarrow> failedExecution task (e n)
     | Some h \<Rightarrow>
         (case handlerResult ''node error handler''
                 (h (e n) input (taskContext r task step (map_of rvs index) (n + 1))) of
            Inr out \<Rightarrow> doneExecution task out | Inl st \<Rightarrow> failedExecution task st))"
proof -
  have "attemptLoop (rv_attempt (rc_env cfg) step index) spec task input
      (taskContext r task step (map_of rvs index)) 1 n
      (initialInterval (retry (ns_options spec))) (mkStatus Unknown ''node handler did not run'') =
      Inl (e (1 + n - 1))"
    by (rule attemptLoop_exhausts) (use fails n in auto)
  with spec input n show ?thesis by (simp add: executeTask_def Let_def split: option.split sum.split)
qed

theorem executeTask_exhausted_witness:
  "executeTask failConfig sampleResult [] 1 (plainTask ''b'') (JObj []) 1 =
    failedExecution (plainTask ''b'') (mkStatus Unavailable ''no model'')"
proof -
  have spec: "map_of (sg_nodes (rc_graph failConfig)) (ct_nodeId (plainTask ''b'')) = Some failSpec"
    by (simp add: failConfig_def runConfig_def failGraph_b plainTask_def)
  have one: "1 = max 1 (maxAttempts (retry (ns_options failSpec)))"
    by code_simp
  have input: "JObj [] = (case ct_state (plainTask ''b'') of Some st \<Rightarrow> st | None \<Rightarrow> JObj [])"
    by (simp add: plainTask_def)
  have attempt: "attemptResult failSpec (rv_attempt (rc_env failConfig) 1 1 1) (JObj [])
      (taskContext sampleResult (plainTask ''b'') 1 (map_of [] (1::nat)) 1) = Inl (mkStatus Unavailable ''no model'')"
    by code_simp
  have "executeTask failConfig sampleResult [] 1 (plainTask ''b'') (JObj []) 1 =
      (case errorHandler (ns_options failSpec) of
         None \<Rightarrow> failedExecution (plainTask ''b'') (mkStatus Unavailable ''no model'')
       | Some h \<Rightarrow>
           (case handlerResult ''node error handler'' (h (mkStatus Unavailable ''no model'') (JObj [])
                   (taskContext sampleResult (plainTask ''b'') 1 (map_of [] (1::nat)) (1 + 1))) of
              Inr out \<Rightarrow> doneExecution (plainTask ''b'') out | Inl st \<Rightarrow> failedExecution (plainTask ''b'') st))"
    by (rule executeTask_exhausted [OF spec one input, where e = "\<lambda>_. mkStatus Unavailable ''no model''"])
      (use attempt in \<open>auto simp: failConfig_def runConfig_def sampleRunEnv_def le_antisym\<close>)
  moreover have "errorHandler (ns_options failSpec) = None"
    using failSpec_handler by (simp split: option.split_asm)
  ultimately show ?thesis by simp
qed

text \<open>
  The list of next tasks is brought into a normal form: no task for END or without a node, no
  plain task that repeats an earlier one.  The form is stable, adds no task, keeps every other
  task or an equal plain one, and is empty exactly for a terminal list.
\<close>

theorem normalizeNextTasks_canonical:
  "tasks_normal (normalizeNextTasks ts) \<and>
   normalizeNextTasks (normalizeNextTasks ts) = normalizeNextTasks ts \<and>
   set (normalizeNextTasks ts) \<subseteq> set ts \<and>
   {t \<in> set ts. \<not> endTarget (ct_nodeId t)} \<subseteq>
     {t. t \<in> set (normalizeNextTasks ts) \<or> (\<exists>a \<in> set (normalizeNextTasks ts). duplicates a t)} \<and>
   (isTerminalNextTasks ts \<longleftrightarrow> normalizeNextTasks ts = [])"
  using normalizeNextTasks_complete [of _ ts]
  by (auto simp: normalizeNextTasks_normal normalizeNextTasks_id isTerminal_normalize
      dest: subsetD [OF normalizeNextTasks_subset])

text \<open>
  The tasks of a super-step get different task identifiers.
\<close>

theorem annotated_tasks_distinct:
  assumes "\<forall>t \<in> set ts. \<not> endTarget (ct_nodeId t) \<and> ct_taskId t = []"
  shows "distinct (map ct_taskId (annotateTasks runId ns ts step))"
  using assms by (rule annotateTasks_distinct)

theorem annotated_tasks_distinct_witness:
  "distinct (map ct_taskId (annotateTasks ''r'' [] [plainTask ''a'', plainTask ''a'', plainTask ''b''] 4))"
  by (rule annotated_tasks_distinct) (simp add: plainTask_def endTarget_def END_def)

section \<open>Graphs\<close>

text \<open>
  C12. \<^verbatim>\<open>validate\<close> accepts a built graph exactly when it is valid: it has an entry, its edges, routes
  and commands name known nodes and do not exclude each other, END and every node can be reached
  from START, and END can be reached from everything that can be reached.
\<close>

theorem validate_iff_valid:
  assumes "sg_wf g"
  shows "validate g = Inr () \<longleftrightarrow> graph_valid g"
  using sg_wf_maps [OF assms] by (rule validate_valid)

theorem validate_iff_valid_witness: "graph_valid sampleGraph"
proof -
  have "validate sampleGraph = Inr ()" by code_simp
  then show ?thesis using validate_iff_valid [OF sampleGraph_wf] by simp
qed

text \<open>
  C39. Every method of the builder keeps the graph well formed, also when it fails.
\<close>

theorem builder_keeps_wf:
  assumes "sg_wf g"
  shows "sg_wf (snd (addNodeOutput nid h opts g)) \<and> sg_wf (snd (addNode nid uh opts g)) \<and>
    sg_wf (snd (setNodeOptions nid opts g)) \<and> sg_wf (snd (addEdge source target g)) \<and>
    sg_wf (snd (addEdges sources target g)) \<and> sg_wf (snd (addSequenceOutput nodes g)) \<and>
    sg_wf (snd (addSequence unodes g)) \<and> sg_wf (snd (registerRoute source router ds g)) \<and>
    sg_wf (snd (addConditionalEdges source r1 ds g)) \<and> sg_wf (snd (addConditionalEdgesMulti source r2 ds g)) \<and>
    sg_wf (snd (addConditionalEdgesSend source r3 ds g)) \<and> sg_wf (snd (addCommandRoute source ds g))"
proof -
  have keep: "sg_wf (snd (m g))" if "builder m" for m :: "(StateGraph, unit) sres"
    using that assms by (simp add: builder_def)
  show ?thesis
    by (intro conjI keep builder_addNodeOutput builder_addNode builder_setNodeOptions builder_addEdge
        builder_addEdges builder_addSequenceOutput builder_addSequence builder_registerRoute
        builder_conditional builder_addCommandRoute)
qed

theorem builder_keeps_wf_witness:
  "sg_wf (snd (addNode ''a'' (Some sampleHandler) defaultNodeOptions emptyGraph))"
  using builder_keeps_wf [OF sg_wf_empty] by blast

text \<open>
  A method of the builder that fails leaves the graph as it was, also the methods that make
  several changes.
\<close>

theorem builder_is_atomic:
  "atomic (addNodeOutput nid h opts) \<and> atomic (addNode nid uh opts) \<and> atomic (setNodeOptions nid opts) \<and>
   atomic (addEdge source target) \<and> atomic (addEdges sources target) \<and>
   atomic (addSequenceOutput nodes) \<and> atomic (addSequence unodes) \<and>
   atomic (registerRoute source router ds) \<and> atomic (addCommandRoute source ds)"
  by (simp add: builder_atomic)

text \<open>
  C13. Routing in a graph that passed the validation stays inside it: whatever its routers return,
  the tasks after a node are in normal form and name nodes of the graph.
\<close>

theorem routes_stay_inside:
  assumes "sg_wf g" and "compile g = Inr g'" and "nextTasksAfter g' node st rt = Inr ts"
  shows "tasks_normal ts \<and> ct_nodeId ` set ts \<subseteq> {n. omap_has n (sg_nodes g')}"
proof -
  have "validate g = Inr ()" and g': "g' = g"
    using assms(2) by (cases "validate g"; simp add: compile_def)+
  then have "declarations_ok g'"
    using validate_valid [OF sg_wf_maps [OF assms(1)]] by (simp add: graph_valid_def)
  then show ?thesis using assms(3) by (rule nextTasksAfter_inside)
qed

theorem routes_stay_inside_witness:
  "\<exists>ts. nextTasksAfter sampleGraph START (JObj []) (routeContext sampleResult 0 START) = Inr ts \<and>
    ct_nodeId ` set ts \<subseteq> {n. omap_has n (sg_nodes sampleGraph)}"
proof -
  have "validate sampleGraph = Inr ()" by code_simp
  then have compiled: "compile sampleGraph = Inr sampleGraph" by (simp add: compile_def)
  have "nextTasksAfter sampleGraph START (JObj []) (routeContext sampleResult 0 START) = Inr [plainTask ''a'']"
    by code_simp
  with routes_stay_inside [OF sampleGraph_wf compiled this] show ?thesis by auto
qed

text \<open>
  C14. \<^verbatim>\<open>updateState\<close> and \<^verbatim>\<open>getState\<close> fit together on the in-memory saver: the snapshot that an
  update returns is what \<^verbatim>\<open>getState\<close> then reads as the latest state of the thread, as long as no
  checkpoint of the thread has the largest step number.
\<close>

theorem updateState_getState:
  assumes "ims_wf sv" and "opt_checkpointer opts = Some (ims_ops jeq)"
    and "\<And>i c. ims_abs sv (t, opt_ns opts, i) = Some c \<Longrightarrow> cp_step c < - 1"
    and "updateState cg t u opts uo tick sv = (Inr snap, sv')"
  shows "\<exists>snap'. fst (getState t opts sv') = Inr snap' \<and> snap'\<lparr>sn_pendingWrites := []\<rparr> = snap"
  using assms by (rule ims.updateState_latest)

theorem updateState_getState_witness:
  "\<exists>snap sv' snap'. sampleUpdate = (Inr snap, sv') \<and> sn_step snap = 1 \<and>
    fst (getState ''t'' sampleOptions sv') = Inr snap' \<and> snap'\<lparr>sn_pendingWrites := []\<rparr> = snap"
proof -
  obtain snap sv' where run: "sampleUpdate = (Inr snap, sv')" and "sn_step snap = 1 \<and> sn_next snap = []"
    using sampleUpdate_ok by (rule okE)
  moreover have "\<exists>snap'. fst (getState ''t'' sampleOptions sv') = Inr snap' \<and> snap'\<lparr>sn_pendingWrites := []\<rparr> = snap"
    by (rule updateState_getState [OF usedSaver_wf _ _ run [unfolded sampleUpdate_def]])
      (auto simp: sampleOptions_def word_gt_0 dest!: usedSaver_steps)
  ultimately show ?thesis by blast
qed

section \<open>Checkpoints\<close>

text \<open>
  C15. \<^verbatim>\<open>InMemorySaver::put\<close> is an insertion into the map from thread, namespace and identifier to the
  checkpoint, and refuses a key that is present.
\<close>

theorem put_refines_insert:
  assumes "ims_wf s" and "validateCheckpointForStore c = Inr ()"
  shows "case ims_abs s (ckeyOf c) of
      None \<Rightarrow> fst (IMS_put c s) = Inr () \<and> ims_abs (snd (IMS_put c s)) = (ims_abs s)(ckeyOf c \<mapsto> c)
    | Some d \<Rightarrow> IMS_put c s = (err AlreadyExists ''checkpoint already exists'', s)"
proof (cases "ims_abs s (ckeyOf c)")
  case None
  then have ok: "fst (IMS_put c s) = Inr ()"
    using ims.put_fresh [OF assms] by (simp add: ims_ops_def)
  then have "IMS_put c s = (Inr (), snd (IMS_put c s))" by (simp add: prod_eq_iff)
  from IMS_put_abs(2) [OF assms(1) this] ok None show ?thesis by simp
next
  case (Some d)
  then have "d \<in> set (threadCheckpoints s (cp_threadId c))" "cp_ns d = cp_ns c" "cp_checkpointId d = cp_checkpointId c"
    using assms by (simp_all add: ckeyOf_def ims_abs_iff)
  then have "IMS_put c s = (err AlreadyExists ''checkpoint already exists'', s)"
    using assms(2) by (auto simp: IMS_put_def Let_def)
  with Some show ?thesis by simp
qed

theorem put_refines_insert_witness:
  "fst (IMS_put childCheckpoint usedSaver) = Inr () \<and>
   ims_abs (snd (IMS_put childCheckpoint usedSaver)) =
     (ims_abs usedSaver)(ckeyOf childCheckpoint \<mapsto> childCheckpoint)"
proof -
  have "(case ims_abs usedSaver (ckeyOf childCheckpoint) of None \<Rightarrow> True | Some d \<Rightarrow> False)"
    by code_simp
  then have "ims_abs usedSaver (ckeyOf childCheckpoint) = None" by (simp split: option.split_asm)
  moreover have "validateCheckpointForStore childCheckpoint = Inr ()" by code_simp
  ultimately show ?thesis using put_refines_insert [OF usedSaver_wf] by fastforce
qed

text \<open>
  C16. The latest checkpoint of a thread and namespace is found exactly when there is one, and none
  of them is younger by step and creation time.
\<close>

theorem latest_is_youngest:
  assumes "ims_wf s" and "t \<noteq> []"
  shows "if \<forall>i. ims_abs s (t, n, i) = None
     then fst (IMS_getTuple (CheckpointQuery_latest t n) s) = Inr None
     else \<exists>rec c i. fst (IMS_getTuple (CheckpointQuery_latest t n) s) = Inr (Some rec) \<and>
       ims_abs s (t, n, i) = Some c \<and> sameCheckpoint (tu_checkpoint rec) c \<and>
       (\<forall>j d. ims_abs s (t, n, j) = Some d \<longrightarrow> agePair d \<le> agePair c)"
  using assms by (rule IMS_getTuple_latest)

theorem latest_is_youngest_witness:
  "\<exists>rec c i. fst (IMS_getTuple (CheckpointQuery_latest ''t'' []) twoSaver) = Inr (Some rec) \<and>
     ims_abs twoSaver (''t'', [], i) = Some c \<and> sameCheckpoint (tu_checkpoint rec) c"
proof -
  have "(case ims_abs twoSaver (''t'', [], ''child'') of None \<Rightarrow> False | Some d \<Rightarrow> True)"
    by code_simp
  then have "\<not> (\<forall>i. ims_abs twoSaver (''t'', [], i) = None)" by (auto split: option.split_asm)
  with latest_is_youngest [OF twoSaver_wf, of "''t''" "[]"] show ?thesis
    by (simp only: if_False) blast
qed

text \<open>
  C17. The operations of the in-memory saver keep its invariant: per thread the checkpoints are
  ordered by age and have different keys, and the writes of a checkpoint are ordered, have different
  identities and are stored under the key of a checkpoint.
\<close>

theorem saver_keeps_wf:
  assumes "ims_wf s"
  shows "ims_wf (snd (IMS_put c s)) \<and> ims_wf (snd (IMS_putWrites ws s)) \<and>
    ims_wf (snd (IMS_deleteThread t s)) \<and> ims_wf (snd (IMS_prune t po s)) \<and>
    ims_wf (snd (IMS_deleteForRuns dr s)) \<and> ims_wf (snd (IMS_copyThread jeq co s))"
  using assms by (simp add: IMS_put_wf IMS_putWrites_wf IMS_deleteThread_wf IMS_prune_wf
      IMS_deleteForRuns_wf IMS_copyThread_wf)

theorem saver_keeps_wf_witness:
  "ims_wf (snd (IMS_prune ''t'' \<lparr>pr_ns = [], pr_keepLatest = 1\<rparr> usedSaver))"
  using saver_keeps_wf [OF usedSaver_wf, where t = "''t''" and po = "\<lparr>pr_ns = [], pr_keepLatest = 1\<rparr>"]
  by simp

text \<open>
  \<^verbatim>\<open>deleteThread\<close> removes the checkpoints and the pending writes of the thread and nothing else.
\<close>

theorem deleteThread_exact:
  "ims_abs (snd (IMS_deleteThread t s)) (t', n, i) = (if t' = t then None else ims_abs s (t', n, i)) \<and>
   storedWrites (snd (IMS_deleteThread t s)) (checkpointWriteStorageKey t' n i) =
     (if t' = t then [] else storedWrites s (checkpointWriteStorageKey t' n i))"
  by (simp add: IMS_deleteThread_abs IMS_deleteThread_writes)

text \<open>
  \<^verbatim>\<open>prune\<close> keeps the latest checkpoints of the namespace, as many as it is told, leaves the other
  namespaces and threads alone, and reports how many it removed and kept.
\<close>

theorem prune_keeps_latest:
  assumes "ims_wf s"
  shows "\<exists>mr. fst (IMS_prune t po s) = Inr mr \<and>
    mr_removed mr = length (nsList s t (pr_ns po)) - pr_keepLatest po \<and>
    mr_remaining mr = min (pr_keepLatest po) (length (nsList s t (pr_ns po))) \<and>
    nsList (snd (IMS_prune t po s)) t' n =
      (if t' = t \<and> n = pr_ns po
       then drop (length (nsList s t n) - pr_keepLatest po) (nsList s t n) else nsList s t' n)"
  using IMS_prune_result [OF assms, of t po] IMS_prune_list [OF assms, of t po t' n] by blast

theorem prune_keeps_latest_witness:
  "nsList (snd (IMS_prune ''t'' \<lparr>pr_ns = [], pr_keepLatest = 1\<rparr> twoSaver)) ''t'' [] = [childCheckpoint]"
proof -
  have "nsList (snd (IMS_prune ''t'' \<lparr>pr_ns = [], pr_keepLatest = 1\<rparr> twoSaver)) ''t'' [] =
      drop (length (nsList twoSaver ''t'' []) - 1) (nsList twoSaver ''t'' [])"
    using prune_keeps_latest [OF twoSaver_wf, of "''t''" "\<lparr>pr_ns = [], pr_keepLatest = 1\<rparr>" "''t''" "[]"] by auto
  moreover have "nsList twoSaver ''t'' [] = [sampleCheckpoint, childCheckpoint]" by code_simp
  ultimately show ?thesis by simp
qed

text \<open>
  C18. \<^verbatim>\<open>copyThread\<close> copies: every checkpoint of the source thread, or of the one namespace asked for, is
  afterwards stored under the target thread and namespace with the namespaces of its tasks and
  writes rewritten, and the number of copies is reported.  A thread that is to overwrite itself is
  erased instead, and no copy is reported.  In both cases no other thread changes.
\<close>

theorem copyThread_complete:
  assumes "ims_wf s" and "IMS_copyThread jeq co s = (Inr mr, s')"
  shows "(if co_overwriteTarget co \<and> co_source co = co_target co
     then mr_remaining mr = 0 \<and> (\<forall>n i. ims_abs s' (co_target co, n, i) = None)
     else mr_remaining mr = length (copySource co s) \<and>
       (\<forall>c \<in> set (copySource co s). \<exists>d. sameCheckpoint d (rewriteCheckpointForCopy (co_target co) (co_targetNs co) c) \<and>
         ims_abs s' (co_target co, (case co_targetNs co of None \<Rightarrow> cp_ns c | Some n \<Rightarrow> n), cp_checkpointId c) = Some d)) \<and>
    (\<forall>t n i. t \<noteq> co_target co \<longrightarrow> ims_abs s' (t, n, i) = ims_abs s (t, n, i))"
  using assms by (rule copyThread_effect)

theorem copyThread_complete_witness:
  "\<exists>mr s' d. IMS_copyThread (=) copyOptions twoSaver = (Inr mr, s') \<and> mr_remaining mr = 2 \<and>
    ims_abs s' (''u'', [], ''child'') = Some d \<and>
    sameCheckpoint d (rewriteCheckpointForCopy ''u'' None childCheckpoint)"
proof -
  obtain mr s' where run: "IMS_copyThread (=) copyOptions twoSaver = (Inr mr, s')"
    using copy_ok by (rule okE)
  have other: "\<not> (co_overwriteTarget copyOptions \<and> co_source copyOptions = co_target copyOptions)"
    by (simp add: copyOptions_def)
  have source: "copySource copyOptions twoSaver = [sampleCheckpoint, childCheckpoint]" by code_simp
  have ns: "cp_ns childCheckpoint = []" by code_simp
  note copied = copyThread_complete [OF twoSaver_wf run, unfolded source if_not_P [OF other]]
  from copied have "mr_remaining mr = 2" by simp
  moreover from copied obtain d where
      "sameCheckpoint d (rewriteCheckpointForCopy (co_target copyOptions) (co_targetNs copyOptions) childCheckpoint)"
      "ims_abs s' (co_target copyOptions, (case co_targetNs copyOptions of None \<Rightarrow> cp_ns childCheckpoint | Some n \<Rightarrow> n),
         cp_checkpointId childCheckpoint) = Some d"
    by auto
  ultimately show ?thesis
    using run by (auto simp: copyOptions_def ns twoSaver_parents)
qed

text \<open>
  \<^verbatim>\<open>deleteForRuns\<close> removes from the thread exactly the checkpoints whose identifier is a run
  identifier or continues one with a dash.
\<close>

theorem deleteForRuns_exact:
  assumes "validateDeleteForRunsOptions dr = Inr ()"
  shows "threadCheckpoints (snd (IMS_deleteForRuns dr s)) t =
    (if t = dr_threadId dr then filter (\<lambda>c. \<not> runSelected dr c) (threadCheckpoints s t)
     else threadCheckpoints s t)"
  using assms by (rule IMS_deleteForRuns_list)

theorem deleteForRuns_exact_witness:
  "threadCheckpoints (snd (IMS_deleteForRuns
      \<lparr>dr_threadId = ''t'', dr_ns = None, dr_runIds = [''r'']\<rparr> usedSaver)) ''t'' =
    filter (\<lambda>c. \<not> runSelected \<lparr>dr_threadId = ''t'', dr_ns = None, dr_runIds = [''r'']\<rparr> c)
      (threadCheckpoints usedSaver ''t'')"
proof -
  have "validateDeleteForRunsOptions \<lparr>dr_threadId = ''t'', dr_ns = None, dr_runIds = [''r'']\<rparr> = Inr ()"
    by code_simp
  from deleteForRuns_exact [OF this, of usedSaver "''t''"] show ?thesis by simp
qed

text \<open>
  Storing the same pending writes again changes nothing and gives the same answer.
\<close>

theorem putWrites_idempotent:
  assumes "ims_wf s"
  shows "IMS_putWrites ws (snd (IMS_putWrites ws s)) = IMS_putWrites ws s"
  using assms by (rule IMS_putWrites_idem)

theorem putWrites_idempotent_witness:
  "IMS_putWrites \<lparr>ws_threadId = ''t'', ws_ns = [], ws_checkpointId = ''child'', ws_taskId = ''x'',
      ws_taskPath = [], ws_writes = []\<rparr>
     (snd (IMS_putWrites \<lparr>ws_threadId = ''t'', ws_ns = [], ws_checkpointId = ''child'', ws_taskId = ''x'',
      ws_taskPath = [], ws_writes = []\<rparr> twoSaver)) =
   IMS_putWrites \<lparr>ws_threadId = ''t'', ws_ns = [], ws_checkpointId = ''child'', ws_taskId = ''x'',
      ws_taskPath = [], ws_writes = []\<rparr> twoSaver"
  by (rule putWrites_idempotent [OF twoSaver_wf])

text \<open>
  A listing is ordered as asked for, holds stored checkpoints that have the identifier and the
  metadata asked for, and keeps to the limit.
\<close>

theorem list_sorted_and_sound:
  "sorted_wrt (\<lambda>a b. if lo_order lo = NewestFirst
                     then olderKey (tu_checkpoint b) \<le> olderKey (tu_checkpoint a)
                     else olderKey (tu_checkpoint a) \<le> olderKey (tu_checkpoint b))
     (applyListOptions jeq cs ws lo) \<and>
   set (applyListOptions jeq cs ws lo) \<subseteq> listRecord ws ` {c \<in> set cs.
     (case lo_checkpointId lo of None \<Rightarrow> True | Some i \<Rightarrow> cp_checkpointId c = i) \<and>
     metadataMatches jeq (cp_metadata c) (lo_metadataFilter lo)} \<and>
   (case lo_limit lo of None \<Rightarrow> True | Some n \<Rightarrow> length (applyListOptions jeq cs ws lo) \<le> n)"
  using applyListOptions_sorted [of lo jeq cs ws] applyListOptions_limit [of lo _ jeq cs ws]
    applyListOptions_sound [of _ jeq cs ws lo]
  by (fastforce split: option.split)

text \<open>
  C25. The walk over the delta history ends when the parent links of the thread are well founded:
  with fuel above the rank of every checkpoint it returns, and it stores nothing.
\<close>

theorem deltaHistory_terminates:
  assumes "ims_wf s"
    and "\<And>i c p. ims_abs s (dq_threadId dq, dq_ns dq, i) = Some c \<Longrightarrow> cp_parent c = Some p \<Longrightarrow>
      p \<noteq> [] \<and> rank p < (rank i :: nat)"
    and "\<And>i. rank i < fuel"
  shows "\<exists>r s'. IMS_getDeltaChannelHistory fuel jeq dq s = Some (r, s') \<and> ims_abs s' = ims_abs s"
  using assms by (rule deltaHistory_returns)

theorem deltaHistory_terminates_witness:
  "\<exists>r s'. IMS_getDeltaChannelHistory 2 (=) \<lparr>dq_threadId = ''t'', dq_ns = [], dq_checkpointId = ''child'',
     dq_channels = [''seen'']\<rparr> twoSaver = Some (r, s') \<and> ims_abs s' = ims_abs twoSaver"
  by (rule deltaHistory_terminates [OF twoSaver_wf, where rank = "\<lambda>i. if i = ''child'' then 1 else 0"])
    (auto dest!: twoSaver_entries simp: twoSaver_parents)

section \<open>Budget\<close>

text \<open>
  C26. Threads that consume steps concurrently through the compare-exchange loop of
  \<^verbatim>\<open>consumeStep\<close> are granted exactly what the counter shows, under every interleaving, and the
  counter stays within the limit.
\<close>

theorem concurrent_steps_within_limit:
  assumes "(consume_step limits amount)\<^sup>*\<^sup>* (start, replicate n Loading) s"
    and "within (rl_maxSteps limits) start"
  shows "unat (fst s) = unat start + granted (snd s) * unat amount \<and> within (rl_maxSteps limits) (fst s)"
  using consumers_invariant [OF assms] by (simp add: consumers_ok_def)

theorem concurrent_steps_within_limit_witness:
  "unat (1::64 word) = unat (0::64 word) + granted [Returned_status okStatus, Swapping 0 1] * unat (1::64 word) \<and>
   within (rl_maxSteps (ResourceLimits_maxSteps 1 ResourceLimits_unlimited)) (1::64 word)"
proof -
  let ?l = "ResourceLimits_maxSteps 1 ResourceLimits_unlimited"
  have next1: "nextSteps ?l 0 1 = Inr 1" by code_simp
  have "consume_step ?l 1 (0, [Loading, Loading]) (0, [Loading, Loading][0 := Swapping 0 1])"
    by (rule consume_step.load_ok) (use next1 in simp_all)
  moreover have "consume_step ?l 1 (0, [Swapping 0 1, Loading]) (0, [Swapping 0 1, Loading][1 := Swapping 0 1])"
    by (rule consume_step.load_ok) (use next1 in simp_all)
  moreover have "consume_step ?l 1 (0, [Swapping 0 1, Swapping 0 1])
      (1, [Swapping 0 1, Swapping 0 1][0 := Returned_status okStatus])"
    by (rule consume_step.swap_ok) simp_all
  ultimately have "(consume_step ?l 1)\<^sup>*\<^sup>* (0, [Loading, Loading]) (1, [Returned_status okStatus, Swapping 0 1])"
    by (auto intro: converse_rtranclp_into_rtranclp)
  then have "(consume_step ?l 1)\<^sup>*\<^sup>* (0, replicate 2 Loading) (1, [Returned_status okStatus, Swapping 0 1])"
    by (simp add: numeral_2_eq_2)
  from concurrent_steps_within_limit [OF this] show ?thesis
    by (simp add: within_def ResourceLimits_maxSteps_def)
qed

text \<open>
  C27. A new budget satisfies the invariant that no counter is above its limit, every operation
  keeps it, and with a step limit and no deadline a step is granted exactly while the counter is
  below the limit.
\<close>

theorem budget_invariant:
  assumes "budget_ok b"
  shows "budget_ok (newBudget limits started now) \<and> budget_ok (snd (consumeStep a now b)) \<and>
    budget_ok (snd (consumeRetry a32 now b)) \<and> budget_ok (snd (recordMemory m now b)) \<and>
    (eb_limits b = ResourceLimits_maxSteps l ResourceLimits_unlimited \<and> eb_deadline b = None \<longrightarrow>
      (isOk (fst (consumeStep 1 now b)) \<longleftrightarrow> unat (eb_steps b) < unat l))"
  using assms consumeStep_iff [of b l now]
  by (simp add: budget_ok_new consumeStep_budget_ok consumeRetry_budget_ok recordMemory_budget_ok)

theorem budget_invariant_witness:
  "budget_ok (snd (consumeStep 1 0 (newBudget (ResourceLimits_maxSteps 1 ResourceLimits_unlimited) 0 0)))"
  using budget_invariant [OF budget_ok_new [of "ResourceLimits_maxSteps 1 ResourceLimits_unlimited" 0 0],
      where a = 1 and now = 0] by simp

section \<open>State and messages\<close>

text \<open>
  C33. A state update that succeeds gives a state within the decode limits in which a field that is
  not named by the update is unchanged and a named one is the reduction of its old value and the
  update by the reducer of the field.
\<close>

theorem state_update_fieldwise:
  assumes "is_object s" and "json_wf u" and "applyStateUpdate s u r = Inr s'"
  shows "state_ok s' \<and>
    (\<forall>k. case jget u k of
           None \<Rightarrow> jget s' k = jget s k
         | Some v \<Rightarrow> (\<exists>x. reduceField r k (jat s k) v = Inr x \<and> jget s' k = Some x))"
  using assms by (rule applyStateUpdate_Inr)

theorem state_update_fieldwise_witness:
  "\<exists>s'. applyStateUpdate (obj [(''a'', JInt 1), (''b'', JArr [JInt 2])]) (obj [(''b'', JInt 3)])
      (ReducerRegistry_set ''b'' Append emptyRegistry) = Inr s' \<and>
    state_ok s' \<and> jget s' ''a'' = Some (JInt 1)"
proof -
  let ?u = "obj [(''b'', JInt 3)]" and ?s = "obj [(''a'', JInt 1), (''b'', JArr [JInt 2])]"
  have run: "applyStateUpdate ?s ?u (ReducerRegistry_set ''b'' Append emptyRegistry) =
      Inr (obj [(''a'', JInt 1), (''b'', JArr [JInt 2, JInt 3])])"
    by code_simp
  have "is_object ?s" "json_wf ?u" by code_simp+
  note merged = state_update_fieldwise [OF this run]
  have fields: "jget ?u ''a'' = None" "jget ?s ''a'' = Some (JInt 1)" by code_simp+
  have "jget (obj [(''a'', JInt 1), (''b'', JArr [JInt 2, JInt 3])]) ''a'' = Some (JInt 1)"
    using merged [THEN conjunct2, THEN spec, of "''a''"] unfolding fields by simp
  with merged [THEN conjunct1] run show ?thesis by blast
qed

text \<open>
  C34. The indexed merge of two message lists equals the merge that looks every message up by its
  identifier, and keeps identifiers unique.
\<close>

theorem add_messages_merge:
  assumes "ids_unique left"
  shows "addMessagesIndexed left right = fold upsertMessage right left \<and>
    ids_unique (addMessagesIndexed left right)"
  using ids_unique_fold [OF assms] by (simp add: addMessagesIndexed_eq)

theorem add_messages_merge_witness:
  "ids_unique (addMessagesIndexed [(BaseMessage_human ''a'')\<lparr>msg_id := ''1''\<rparr>]
     [(BaseMessage_human ''b'')\<lparr>msg_id := ''1''\<rparr>, BaseMessage_human ''c''])"
proof -
  have "ids_unique [(BaseMessage_human ''a'')\<lparr>msg_id := ''1''\<rparr>]" by (simp add: ids_unique_def)
  from add_messages_merge [OF this] show ?thesis by blast
qed

text \<open>
  C36. A well-formed message written as JSON is read back unchanged.
\<close>

theorem baseMessage_roundtrip:
  "message_wf m \<Longrightarrow> baseMessageFromJson (baseMessageToJson m) = Inr m"
  by (rule baseMessage_roundtrip_lemma)

theorem baseMessage_roundtrip_witness:
  "baseMessageFromJson (baseMessageToJson (BaseMessage_human ''hi'')) = Inr (BaseMessage_human ''hi'')"
proof (rule baseMessage_roundtrip)
  show "message_wf (BaseMessage_human ''hi'')"
    by code_simp
qed

text \<open>
  C40. The check of a JSON value against the decode limits, a loop with an explicit stack, accepts
  exactly the values whose number of nodes, strings, arrays and objects are within the limits.
\<close>

theorem json_limits_exact:
  "isOk (validateJsonValueLimits v label lim) \<longleftrightarrow>
     \<not> exceedsJsonLimit (json_nodes v) (maxNodes lim) \<and> json_within lim v"
  by (rule validateJsonValueLimits_ok)

text \<open>
  The payload check of an event accepts exactly the payloads within the limits on nodes, depth,
  strings and size.
\<close>

theorem event_payload_exact:
  "isOk (validatePayload ev v lim) \<longleftrightarrow>
     (maxJsonNodes lim = 0 \<or> json_nodes v \<le> maxJsonNodes lim) \<and> event_json_within lim 0 v \<and>
     (\<exists>n. ev_dump ev v = Inr n \<and> (maxPayloadBytes lim = 0 \<or> n \<le> maxPayloadBytes lim))"
  by (rule validatePayload_ok)

section \<open>Interrupts\<close>

text \<open>
  C35. The interrupts that a run writes into the state are read back unchanged.
\<close>

theorem interrupt_metadata_roundtrip:
  assumes "is_object st" and "ps \<noteq> []"
    and "\<forall>p \<in> set ps. jempty (in_resumeValues (pi_interrupt p)) \<or> is_object (in_resumeValues (pi_interrupt p))"
    and "withInterruptMetadata st ps step = Inr st'"
  shows "interruptMetadataFromState st' = Inr (map (metadataOf step) ps)"
  using assms by (rule interruptMetadata_roundtrip_lemma)

theorem interrupt_metadata_roundtrip_witness:
  "\<exists>st'. withInterruptMetadata (JObj []) [samplePending] 4 = Inr st' \<and>
    interruptMetadataFromState st' = Inr (map (metadataOf 4) [samplePending])"
proof -
  obtain st' where run: "withInterruptMetadata (JObj []) [samplePending] 4 = Inr st'"
    using samplePending_ok by (auto split: sum.split_asm)
  have "interruptMetadataFromState st' = Inr (map (metadataOf 4) [samplePending])"
    by (rule interrupt_metadata_roundtrip [OF _ _ _ run]) (simp_all add: samplePending_def)
  with run show ?thesis by blast
qed

text \<open>
  A handler that asks several questions finishes when they are answered one after the other: the
  pause, the resume with the identifier of the interrupt and the rerun of the handler lead to the
  value that the handler computes from the answers.
\<close>

theorem interrupted_handler_finishes:
  assumes "follow p (done' @ todo) = Some (Finish a)" and "askable (done' @ todo)"
  shows "session node step ord p (map snd todo) (resumeOf done') = Inr a"
  using assms by (rule session_finishes)

theorem interrupted_handler_finishes_witness:
  "session ''n'' 1 None (Ask ''x'' JNull (\<lambda>a. Ask ''y'' JNull (\<lambda>b. Finish [a, b]))) [JInt 1, JInt 2] None =
    Inr [JInt 1, JInt 2]"
proof -
  let ?p = "Ask ''x'' JNull (\<lambda>a. Ask ''y'' JNull (\<lambda>b. Finish [a, b]))"
  have "follow ?p ([] @ [(''x'', JInt 1), (''y'', JInt 2)]) = Some (Finish [JInt 1, JInt 2])" by simp
  moreover have "askable ([] @ [(''x'', JInt 1), (''y'', JInt 2)])" by (simp add: askable_def)
  ultimately show ?thesis
    using interrupted_handler_finishes [of ?p "[]" "[(''x'', JInt 1), (''y'', JInt 2)]" "[JInt 1, JInt 2]"
        "''n''" 1 None] by (simp add: resumeOf_def)
qed

section \<open>Run configuration\<close>

text \<open>
  C37. A run configuration written as JSON is read back unchanged when its metadata hold what the
  configurable fields propagate and its numbers are positive signed numbers.
\<close>

theorem run_config_roundtrip:
  assumes "config_wf c"
  shows "RunnableConfig_fromJson (RunnableConfig_toJson c) = Inr c"
  using assms by (rule config_roundtrip)

theorem run_config_roundtrip_witness:
  "RunnableConfig_fromJson (RunnableConfig_toJson sampleRunnable) = Inr sampleRunnable"
  by (rule run_config_roundtrip) (rule sampleRunnable_wf)

text \<open>
  C38. A top-level field that a run configuration does not know is kept in the configurable fields
  only when its name comes after \<^verbatim>\<open>configurable\<close>; one before it is lost when the object has that field.
\<close>

theorem unknown_config_fields:
  assumes "omap_wf m" and "map_of m ''configurable'' = Some given" and "RunnableConfig_fromJson (JObj m) = Inr c"
  shows "jget (cf_configurable c) k =
    (if ''configurable'' < k \<and> \<not> isRunnableConfigKey k \<and> (\<exists>v. map_of m k = Some v \<and> isPresentConfigValue v)
     then map_of m k else jget given k)"
  using assms by (rule fromJson_configurable)

theorem unknown_config_fields_witness:
  "\<exists>c. RunnableConfig_fromJson (JObj [(''app'', JStr ''x''), (''configurable'', JObj []), (''zone'', JStr ''y'')]) = Inr c \<and>
    jget (cf_configurable c) ''app'' = None \<and> jget (cf_configurable c) ''zone'' = Some (JStr ''y'')"
proof -
  let ?m = "[(''app'', JStr ''x''), (''configurable'', JObj []), (''zone'', JStr ''y'')]"
  obtain c where run: "RunnableConfig_fromJson (JObj ?m) = Inr c"
    using lostField_parses by (auto split: sum.split_asm)
  have wf: "omap_wf ?m" by code_simp
  have given: "map_of ?m ''configurable'' = Some (JObj [])" by simp
  have "\<not> ''configurable'' < ''app''" "''configurable'' < ''zone''" "\<not> isRunnableConfigKey ''zone''"
      "isPresentConfigValue (JStr ''y'')"
    by code_simp+
  with unknown_config_fields [OF wf given run, of "''app''"] unknown_config_fields [OF wf given run, of "''zone''"] run
  show ?thesis by auto
qed

end
